theory Spec2Isabelle
  imports Main "HOL-Library.Word"
begin

section \<open>Data model of the AppWrapper controller\<close>

text \<open>
  Shallow embedding of \<^verbatim>\<open>internal/controller/appwrapper/appwrapper_controller.go\<close>.
  Go's \<^verbatim>\<open>int32\<close> counters and \<^verbatim>\<open>time.Duration\<close> (an \<^verbatim>\<open>int64\<close> of nanoseconds) are
  machine words read as two's complement: comparisons are the signed ones and \<open>+\<close> wraps.
  A \<^verbatim>\<open>time.Time\<close> is the number of nanoseconds since Go's zero time, so the zero time is 0.
\<close>

type_synonym int32 = "32 word"
type_synonym Duration = "64 word"
type_synonym Time = int

definition Second :: Duration where
  "Second = 1000000000"

definition Minute :: Duration where
  "Minute = 60 * Second"

definition IsZero :: "Time \<Rightarrow> bool" where
  "IsZero t = (t = 0)"

definition Time_Add :: "Time \<Rightarrow> Duration \<Rightarrow> Time" where
  "Time_Add t d = t + sint d"

definition Time_Before :: "Time \<Rightarrow> Time \<Rightarrow> bool" where
  "Time_Before t u = (t < u)"

text \<open>\<^verbatim>\<open>t.Sub(u)\<close> saturates at the smallest and the largest \<^verbatim>\<open>Duration\<close>.\<close>

definition Time_Sub :: "Time \<Rightarrow> Time \<Rightarrow> Duration" where
  "Time_Sub t u =
     (let d = t - u
      in if d < - (2 ^ 63) then word_of_int (- (2 ^ 63))
         else if 2 ^ 63 - 1 < d then word_of_int (2 ^ 63 - 1)
         else word_of_int d)"

datatype AppWrapperPhase =
    AppWrapperEmpty
  | AppWrapperSuspended
  | AppWrapperResuming
  | AppWrapperRunning
  | AppWrapperResetting
  | AppWrapperSuspending
  | AppWrapperSucceeded
  | AppWrapperFailed
  | AppWrapperTerminating

text \<open>\<^verbatim>\<open>string(phase)\<close>: a phase is a string in the source; the empty phase is the empty string.\<close>

fun phase_string :: "AppWrapperPhase \<Rightarrow> string" where
  "phase_string AppWrapperEmpty = ''''"
| "phase_string AppWrapperSuspended = ''Suspended''"
| "phase_string AppWrapperResuming = ''Resuming''"
| "phase_string AppWrapperRunning = ''Running''"
| "phase_string AppWrapperResetting = ''Resetting''"
| "phase_string AppWrapperSuspending = ''Suspending''"
| "phase_string AppWrapperSucceeded = ''Succeeded''"
| "phase_string AppWrapperFailed = ''Failed''"
| "phase_string AppWrapperTerminating = ''Terminating''"

datatype ConditionStatus = ConditionTrue | ConditionFalse | ConditionUnknown

record Condition =
  Type :: string
  Status :: ConditionStatus
  ObservedGeneration :: int
  LastTransitionTime :: Time
  Reason :: string
  Message :: string

text \<open>
  Modelled from the spec: the names of the five condition types tracked at workload scope
  (declared in \<^verbatim>\<open>api/v1beta2\<close>, which is not among the sources).
\<close>

definition QuotaReserved :: string where
  "QuotaReserved = ''QuotaReserved''"

definition ResourcesDeployed :: string where
  "ResourcesDeployed = ''ResourcesDeployed''"

definition PodsReady :: string where
  "PodsReady = ''PodsReady''"

definition Unhealthy :: string where
  "Unhealthy = ''Unhealthy''"

definition DeletingResources :: string where
  "DeletingResources = ''DeletingResources''"

text \<open>
  Modelled from the spec: the well-known annotation keys of the per-instance overrides
  (declared in \<^verbatim>\<open>api/v1beta2\<close>), spelled after the one key that the sample manifest shows,
  \<^verbatim>\<open>workload.codeflare.dev.appwrapper/successTTLDuration\<close>.
\<close>

definition AdmissionGracePeriodDurationAnnotation :: string where
  "AdmissionGracePeriodDurationAnnotation =
     ''workload.codeflare.dev.appwrapper/admissionGracePeriodDuration''"

definition WarmupGracePeriodDurationAnnotation :: string where
  "WarmupGracePeriodDurationAnnotation =
     ''workload.codeflare.dev.appwrapper/warmupGracePeriodDuration''"

definition FailureGracePeriodDurationAnnotation :: string where
  "FailureGracePeriodDurationAnnotation =
     ''workload.codeflare.dev.appwrapper/failureGracePeriodDuration''"

definition RetryPausePeriodDurationAnnotation :: string where
  "RetryPausePeriodDurationAnnotation =
     ''workload.codeflare.dev.appwrapper/retryPausePeriodDuration''"

definition RetryLimitAnnotation :: string where
  "RetryLimitAnnotation = ''workload.codeflare.dev.appwrapper/retryLimit''"

definition ForcefulDeletionGracePeriodAnnotation :: string where
  "ForcefulDeletionGracePeriodAnnotation =
     ''workload.codeflare.dev.appwrapper/forcefulDeletionGracePeriodDuration''"

definition DeletionOnFailureGracePeriodAnnotation :: string where
  "DeletionOnFailureGracePeriodAnnotation =
     ''workload.codeflare.dev.appwrapper/deletionOnFailureGracePeriodDuration''"

definition SuccessTTLAnnotation :: string where
  "SuccessTTLAnnotation = ''workload.codeflare.dev.appwrapper/successTTLDuration''"

definition AppWrapperFinalizer :: string where
  "AppWrapperFinalizer = ''workload.codeflare.dev/finalizer''"

record AppWrapperComponentStatus =
  Name :: string
  Kind :: string
  APIVersion :: string
  ComponentConditions :: "Condition list"

record AppWrapperStatus =
  Phase :: AppWrapperPhase
  Retries :: int32
  Conditions :: "Condition list"
  ComponentStatus :: "AppWrapperComponentStatus list"

text \<open>
  The workload resource: the metadata the controller reads (annotations, deletion timestamp,
  finalizers), of the spec the suspend flag and the identity (kind, API version, name) of
  each declared component, and the status.
\<close>

record AppWrapper =
  Annotations :: "string \<rightharpoonup> string"
  DeletionTimestamp :: "Time option"
  Finalizers :: "string list"
  Suspend :: bool
  Components :: "(string \<times> string \<times> string) list"
  status :: AppWrapperStatus

text \<open>
  \<^verbatim>\<open>r.Config.FaultTolerance\<close>: the fields of the configuration that the controller reads
  (the type is declared in \<^verbatim>\<open>pkg/config\<close>).
\<close>

record FaultToleranceConfig =
  AdmissionGracePeriod :: Duration
  WarmupGracePeriod :: Duration
  FailureGracePeriod :: Duration
  RetryPausePeriod :: Duration
  RetryLimit :: int32
  ForcefulDeletionGracePeriod :: Duration
  GracePeriodMaximum :: Duration
  SuccessTTL :: Duration

text \<open>
  The reconciler: its configuration, and the functions of Go's standard library that the
  controller calls, taken as parameters: \<^verbatim>\<open>time.ParseDuration\<close> and \<^verbatim>\<open>strconv.Atoi\<close>
  (\<open>None\<close> when they return an error) and the formatting of a duration by \<^verbatim>\<open>%v\<close>.
\<close>

record AppWrapperReconciler =
  Config :: FaultToleranceConfig
  ParseDuration :: "string \<Rightarrow> Duration option"
  Atoi :: "string \<Rightarrow> int option"
  DurationString :: "Duration \<Rightarrow> string"

section \<open>The Grace-Policy Evaluator\<close>

definition limitDuration :: "AppWrapperReconciler \<Rightarrow> Duration \<Rightarrow> Duration" where
  "limitDuration r desired =
     (if desired <s 0 then 0 * Second
      else if GracePeriodMaximum (Config r) <s desired then GracePeriodMaximum (Config r)
      else desired)"

definition admissionGraceDuration :: "AppWrapperReconciler \<Rightarrow> AppWrapper \<Rightarrow> Duration" where
  "admissionGraceDuration r aw =
     (case Annotations aw AdmissionGracePeriodDurationAnnotation of
        Some userPeriod \<Rightarrow>
          (case ParseDuration r userPeriod of
             Some duration \<Rightarrow> limitDuration r duration
           | None \<Rightarrow> limitDuration r (AdmissionGracePeriod (Config r)))
      | None \<Rightarrow> limitDuration r (AdmissionGracePeriod (Config r)))"

definition warmupGraceDuration :: "AppWrapperReconciler \<Rightarrow> AppWrapper \<Rightarrow> Duration" where
  "warmupGraceDuration r aw =
     (case Annotations aw WarmupGracePeriodDurationAnnotation of
        Some userPeriod \<Rightarrow>
          (case ParseDuration r userPeriod of
             Some duration \<Rightarrow> limitDuration r duration
           | None \<Rightarrow> limitDuration r (WarmupGracePeriod (Config r)))
      | None \<Rightarrow> limitDuration r (WarmupGracePeriod (Config r)))"

definition failureGraceDuration :: "AppWrapperReconciler \<Rightarrow> AppWrapper \<Rightarrow> Duration" where
  "failureGraceDuration r aw =
     (case Annotations aw FailureGracePeriodDurationAnnotation of
        Some userPeriod \<Rightarrow>
          (case ParseDuration r userPeriod of
             Some duration \<Rightarrow> limitDuration r duration
           | None \<Rightarrow> limitDuration r (FailureGracePeriod (Config r)))
      | None \<Rightarrow> limitDuration r (FailureGracePeriod (Config r)))"

text \<open>\<^verbatim>\<open>int32(limit)\<close> keeps the low 32 bits of the parsed integer.\<close>

definition retryLimit :: "AppWrapperReconciler \<Rightarrow> AppWrapper \<Rightarrow> int32" where
  "retryLimit r aw =
     (case Annotations aw RetryLimitAnnotation of
        Some userLimit \<Rightarrow>
          (case Atoi r userLimit of
             Some limit \<Rightarrow> word_of_int limit
           | None \<Rightarrow> RetryLimit (Config r))
      | None \<Rightarrow> RetryLimit (Config r))"

definition retryPauseDuration :: "AppWrapperReconciler \<Rightarrow> AppWrapper \<Rightarrow> Duration" where
  "retryPauseDuration r aw =
     (case Annotations aw RetryPausePeriodDurationAnnotation of
        Some userPeriod \<Rightarrow>
          (case ParseDuration r userPeriod of
             Some duration \<Rightarrow> limitDuration r duration
           | None \<Rightarrow> limitDuration r (RetryPausePeriod (Config r)))
      | None \<Rightarrow> limitDuration r (RetryPausePeriod (Config r)))"

definition forcefulDeletionGraceDuration :: "AppWrapperReconciler \<Rightarrow> AppWrapper \<Rightarrow> Duration" where
  "forcefulDeletionGraceDuration r aw =
     (case Annotations aw ForcefulDeletionGracePeriodAnnotation of
        Some userPeriod \<Rightarrow>
          (case ParseDuration r userPeriod of
             Some duration \<Rightarrow> limitDuration r duration
           | None \<Rightarrow> limitDuration r (ForcefulDeletionGracePeriod (Config r)))
      | None \<Rightarrow> limitDuration r (ForcefulDeletionGracePeriod (Config r)))"

definition deletionOnFailureGraceDuration :: "AppWrapperReconciler \<Rightarrow> AppWrapper \<Rightarrow> Duration" where
  "deletionOnFailureGraceDuration r aw =
     (case Annotations aw DeletionOnFailureGracePeriodAnnotation of
        Some userPeriod \<Rightarrow>
          (case ParseDuration r userPeriod of
             Some duration \<Rightarrow> limitDuration r duration
           | None \<Rightarrow> 0 * Second)
      | None \<Rightarrow> 0 * Second)"

definition timeToLiveAfterSucceededDuration :: "AppWrapperReconciler \<Rightarrow> AppWrapper \<Rightarrow> Duration" where
  "timeToLiveAfterSucceededDuration r aw =
     (case Annotations aw SuccessTTLAnnotation of
        Some userPeriod \<Rightarrow>
          (case ParseDuration r userPeriod of
             Some duration \<Rightarrow>
               (if 0 <s duration \<and> duration <s SuccessTTL (Config r) then duration
                else SuccessTTL (Config r))
           | None \<Rightarrow> SuccessTTL (Config r))
      | None \<Rightarrow> SuccessTTL (Config r))"

section \<open>The Condition Ledger\<close>

text \<open>
  \<^verbatim>\<open>meta.FindStatusCondition\<close>, \<^verbatim>\<open>meta.IsStatusConditionTrue\<close> and
  \<^verbatim>\<open>meta.SetStatusCondition\<close> of the Kubernetes API machinery. The first condition of the
  given type is the one found and updated; a condition of a new type is appended. The
  transition time changes only when the status changes, and is the current time when the
  new condition carries none.
\<close>

fun FindStatusCondition :: "Condition list \<Rightarrow> string \<Rightarrow> Condition option" where
  "FindStatusCondition [] conditionType = None"
| "FindStatusCondition (c # cs) conditionType =
     (if Type c = conditionType then Some c else FindStatusCondition cs conditionType)"

definition IsStatusConditionTrue :: "Condition list \<Rightarrow> string \<Rightarrow> bool" where
  "IsStatusConditionTrue conditions conditionType =
     (case FindStatusCondition conditions conditionType of
        None \<Rightarrow> False
      | Some c \<Rightarrow> Status c = ConditionTrue)"

definition updateExisting :: "Time \<Rightarrow> Condition \<Rightarrow> Condition \<Rightarrow> Condition" where
  "updateExisting now existingCondition newCondition =
     (let e = (if Status existingCondition \<noteq> Status newCondition
               then existingCondition
                      \<lparr>Status := Status newCondition,
                       LastTransitionTime :=
                         (if \<not> IsZero (LastTransitionTime newCondition)
                          then LastTransitionTime newCondition else now)\<rparr>
               else existingCondition)
      in e\<lparr>Reason := Reason newCondition,
           Message := Message newCondition,
           ObservedGeneration := ObservedGeneration newCondition\<rparr>)"

fun SetStatusCondition :: "Time \<Rightarrow> Condition list \<Rightarrow> Condition \<Rightarrow> Condition list" where
  "SetStatusCondition now [] newCondition =
     [if IsZero (LastTransitionTime newCondition)
      then newCondition\<lparr>LastTransitionTime := now\<rparr> else newCondition]"
| "SetStatusCondition now (c # cs) newCondition =
     (if Type c = Type newCondition then updateExisting now c newCondition # cs
      else c # SetStatusCondition now cs newCondition)"

text \<open>
  The literal \<^verbatim>\<open>metav1.Condition{Type: .., Status: .., Reason: .., Message: ..}\<close>: the fields
  that the controller never sets are zero.
\<close>

definition mkCondition :: "string \<Rightarrow> ConditionStatus \<Rightarrow> string \<Rightarrow> string \<Rightarrow> Condition" where
  "mkCondition t s reason message =
     \<lparr>Type = t, Status = s, ObservedGeneration = 0, LastTransitionTime = 0,
      Reason = reason, Message = message\<rparr>"

definition withConditions :: "AppWrapper \<Rightarrow> Condition list \<Rightarrow> AppWrapper" where
  "withConditions a cs = a\<lparr>status := (status a)\<lparr>Conditions := cs\<rparr>\<rparr>"

definition withPhase :: "AppWrapper \<Rightarrow> AppWrapperPhase \<Rightarrow> AppWrapper" where
  "withPhase a phase = a\<lparr>status := (status a)\<lparr>Phase := phase\<rparr>\<rparr>"

definition withRetries :: "AppWrapper \<Rightarrow> int32 \<Rightarrow> AppWrapper" where
  "withRetries a n = a\<lparr>status := (status a)\<lparr>Retries := n\<rparr>\<rparr>"

definition withComponentStatus :: "AppWrapper \<Rightarrow> AppWrapperComponentStatus list \<Rightarrow> AppWrapper" where
  "withComponentStatus a cs = a\<lparr>status := (status a)\<lparr>ComponentStatus := cs\<rparr>\<rparr>"

text \<open>\<^verbatim>\<open>meta.SetStatusCondition(&aw.Status.Conditions, c)\<close> at the time \<open>now\<close>.\<close>

definition setCondition :: "Time \<Rightarrow> AppWrapper \<Rightarrow> Condition \<Rightarrow> AppWrapper" where
  "setCondition now a c = withConditions a (SetStatusCondition now (Conditions (status a)) c)"

definition clearCondition :: "Time \<Rightarrow> AppWrapper \<Rightarrow> string \<Rightarrow> string \<Rightarrow> string \<Rightarrow> AppWrapper" where
  "clearCondition now a condition reason message =
     (if IsStatusConditionTrue (Conditions (status a)) condition
      then setCondition now a (mkCondition condition ConditionFalse reason message)
      else a)"

section \<open>Finalizers\<close>

text \<open>
  \<^verbatim>\<open>controllerutil.ContainsFinalizer\<close>, \<^verbatim>\<open>AddFinalizer\<close> and \<^verbatim>\<open>RemoveFinalizer\<close>;
  the last two also tell whether the list changed.
\<close>

definition ContainsFinalizer :: "AppWrapper \<Rightarrow> string \<Rightarrow> bool" where
  "ContainsFinalizer a finalizer = (finalizer \<in> set (Finalizers a))"

definition AddFinalizer :: "AppWrapper \<Rightarrow> string \<Rightarrow> AppWrapper \<times> bool" where
  "AddFinalizer a finalizer =
     (if finalizer \<in> set (Finalizers a) then (a, False)
      else (a\<lparr>Finalizers := Finalizers a @ [finalizer]\<rparr>, True))"

definition RemoveFinalizer :: "AppWrapper \<Rightarrow> string \<Rightarrow> AppWrapper \<times> bool" where
  "RemoveFinalizer a finalizer =
     (let f = filter (\<lambda>x. x \<noteq> finalizer) (Finalizers a)
      in (a\<lparr>Finalizers := f\<rparr>, length (Finalizers a) \<noteq> length f))"

section \<open>The environment of one reconciliation\<close>

datatype error = NotFound | Conflict | Unavailable | NilPointerDereference

datatype PodPhase = PodPending | PodRunning | PodSucceeded | PodFailed | PodUnknown

text \<open>
  What one invocation observes of its collaborators: the clock (one reading for the whole
  invocation, also for the transition times that \<^verbatim>\<open>meta.SetStatusCondition\<close> stamps) and
  the outcome of each call to the resource store: the update of the object and of its
  status, the fetch of each child by kind, API version and name, and the listing of the
  pods that carry the workload's label (their phases).
\<close>

text \<open>
  Modelled from the spec: the parts of the controller that are not among the sources
  answer through this record as well. \<open>createComponents\<close> is the component materializer
  \<^verbatim>\<open>createComponents(workload) -> (err, fatal: bool)\<close>, \<open>None\<close> when it succeeds;
  \<open>deleteComponents\<close> is the deletion orchestrator \<^verbatim>\<open>deleteAll(workload) -> allGone: bool\<close>;
  \<open>ExpectedPodCount\<close> is the external pod-count calculator; \<open>ensureError\<close> is the error,
  if any, of the initialization of the componentStatus records.
\<close>

record Env =
  now :: Time
  updateError :: "error option"
  statusUpdateError :: "error option"
  ensureError :: "error option"
  createComponents :: "(string \<times> bool) option"
  deleteComponents :: bool
  getComponent :: "string \<times> string \<times> string \<Rightarrow> error option"
  listPods :: "error + PodPhase list"
  ExpectedPodCount :: int32

text \<open>
  The object in the controller's hands (\<open>aw\<close>) and the object in the store (\<open>stored\<close>).
  The custom resource has a status subresource: \<^verbatim>\<open>r.Status().Update\<close> writes the status
  only and \<^verbatim>\<open>r.Update\<close> everything but the status; on success either call refreshes the
  object in hand from the store's answer.
\<close>

record rstate =
  aw :: AppWrapper
  stored :: AppWrapper

definition StatusUpdate :: "Env \<Rightarrow> rstate \<Rightarrow> rstate \<times> error option" where
  "StatusUpdate env st =
     (case statusUpdateError env of
        Some err \<Rightarrow> (st, Some err)
      | None \<Rightarrow>
          (let written = (stored st)\<lparr>status := status (aw st)\<rparr>
           in (\<lparr>aw = written, stored = written\<rparr>, None)))"

definition Update :: "Env \<Rightarrow> rstate \<Rightarrow> rstate \<times> error option" where
  "Update env st =
     (case updateError env of
        Some err \<Rightarrow> (st, Some err)
      | None \<Rightarrow>
          (let written = (aw st)\<lparr>status := status (stored st)\<rparr>
           in (\<lparr>aw = written, stored = written\<rparr>, None)))"

text \<open>
  Modelled from the spec: \<^verbatim>\<open>awstatus.EnsureComponentStatusInitialized\<close> is not among the
  sources; in the phase \<open>Empty\<close> the controller is to "initialize one componentStatus record
  per declared component", each carrying the identity of the child (kind, API version,
  name) and its own condition set.
\<close>

definition EnsureComponentStatusInitialized :: "Env \<Rightarrow> AppWrapper \<Rightarrow> AppWrapper \<times> error option" where
  "EnsureComponentStatusInitialized env a =
     (case ensureError env of
        Some err \<Rightarrow> (a, Some err)
      | None \<Rightarrow>
          (withComponentStatus a
             (map (\<lambda>(kind, apiVersion, name).
                     \<lparr>Name = name, Kind = kind, APIVersion = apiVersion,
                      ComponentConditions = []\<rparr>)
                  (Components a)), None))"

section \<open>The Status Aggregator\<close>

record componentStatusSummary =
  expectedComponents :: int32
  deployed :: int32

record podStatusSummary =
  expected :: int32
  pending :: int32
  running :: int32
  succeeded :: int32
  failed :: int32

text \<open>The loop of \<open>getPodStatus\<close>: a pod in none of the four phases changes no counter.\<close>

fun countPods :: "PodPhase list \<Rightarrow> podStatusSummary \<Rightarrow> podStatusSummary" where
  "countPods [] summary = summary"
| "countPods (pod # pods) summary =
     countPods pods
       (case pod of
          PodPending \<Rightarrow> summary\<lparr>pending := pending summary + 1\<rparr>
        | PodRunning \<Rightarrow> summary\<lparr>running := running summary + 1\<rparr>
        | PodSucceeded \<Rightarrow> summary\<lparr>succeeded := succeeded summary + 1\<rparr>
        | PodFailed \<Rightarrow> summary\<lparr>failed := failed summary + 1\<rparr>
        | PodUnknown \<Rightarrow> summary)"

definition getPodStatus :: "Env \<Rightarrow> error + podStatusSummary" where
  "getPodStatus env =
     (case listPods env of
        Inl err \<Rightarrow> Inl err
      | Inr pods \<Rightarrow>
          Inr (countPods pods
                 \<lparr>expected = ExpectedPodCount env, pending = 0, running = 0,
                  succeeded = 0, failed = 0\<rparr>))"

text \<open>
  The loop of \<open>getComponentStatus\<close> over the componentStatus records: the count of the
  children found so far, and the records with the \<open>Unhealthy\<close> condition of each child
  that was not found. Any other error ends the loop.
\<close>

fun componentLoop ::
  "Env \<Rightarrow> AppWrapperComponentStatus list \<Rightarrow> int32 \<Rightarrow>
   (error + int32) \<times> AppWrapperComponentStatus list" where
  "componentLoop env [] n = (Inr n, [])"
| "componentLoop env (cs # rest) n =
     (case getComponent env (Kind cs, APIVersion cs, Name cs) of
        None \<Rightarrow>
          (let (res, rest') = componentLoop env rest (n + 1) in (res, cs # rest'))
      | Some err \<Rightarrow>
          (if err = NotFound
           then (let cs' = cs\<lparr>ComponentConditions :=
                               SetStatusCondition (now env) (ComponentConditions cs)
                                 (mkCondition Unhealthy ConditionTrue ''ComponentNotFound'' [])\<rparr>;
                     (res, rest') = componentLoop env rest n
                 in (res, cs' # rest'))
           else (Inl err, cs # rest)))"

definition getComponentStatus ::
  "Env \<Rightarrow> AppWrapper \<Rightarrow> (error + componentStatusSummary) \<times> AppWrapper" where
  "getComponentStatus env a =
     (let (res, css) = componentLoop env (ComponentStatus (status a)) 0;
          a' = withComponentStatus a css
      in case res of
           Inl err \<Rightarrow> (Inl err, a')
         | Inr n \<Rightarrow>
             (Inr \<lparr>expectedComponents = of_nat (length (ComponentStatus (status a))),
                   deployed = n\<rparr>, a'))"

text \<open>\<^verbatim>\<open>%v\<close> of an \<^verbatim>\<open>int32\<close>: its signed decimal numeral.\<close>

definition digit_char :: "nat \<Rightarrow> char" where
  "digit_char d = ''0123456789'' ! d"

fun string_of_nat :: "nat \<Rightarrow> string" where
  "string_of_nat n =
     (if n < 10 then [digit_char n]
      else string_of_nat (n div 10) @ [digit_char (n mod 10)])"

definition string_of_int32 :: "int32 \<Rightarrow> string" where
  "string_of_int32 w =
     (if sint w < 0 then CHR ''-'' # string_of_nat (nat (- sint w))
      else string_of_nat (nat (sint w)))"

section \<open>The Reconciliation State Machine\<close>

text \<open>
  One invocation returns the two objects, the requeue delay of \<^verbatim>\<open>ctrl.Result\<close>
  (0 for \<^verbatim>\<open>ctrl.Result{}\<close>) and the error, if any. Reading the transition time of a condition
  that \<^verbatim>\<open>meta.FindStatusCondition\<close> did not find dereferences a nil pointer; the invocation
  then ends with \<open>NilPointerDereference\<close> and writes nothing more.
\<close>

type_synonym outcome = "rstate \<times> Duration \<times> error option"

definition conds :: "rstate \<Rightarrow> Condition list" where
  "conds st = Conditions (status (aw st))"

definition setCond :: "Env \<Rightarrow> rstate \<Rightarrow> Condition \<Rightarrow> rstate" where
  "setCond env st c = st\<lparr>aw := setCondition (now env) (aw st) c\<rparr>"

definition clearCond :: "Env \<Rightarrow> rstate \<Rightarrow> string \<Rightarrow> string \<Rightarrow> string \<Rightarrow> rstate" where
  "clearCond env st condition reason message =
     st\<lparr>aw := clearCondition (now env) (aw st) condition reason message\<rparr>"

text \<open>\<^verbatim>\<open>return ctrl.Result{RequeueAfter: d}, r.Status().Update(ctx, aw)\<close>\<close>

definition requeueWithStatusUpdate :: "Env \<Rightarrow> rstate \<Rightarrow> Duration \<Rightarrow> outcome" where
  "requeueWithStatusUpdate env st d = (let (st', err) = StatusUpdate env st in (st', d, err))"

definition updateStatus :: "Env \<Rightarrow> rstate \<Rightarrow> AppWrapperPhase \<Rightarrow> outcome" where
  "updateStatus env st phase =
     (case StatusUpdate env (st\<lparr>aw := withPhase (aw st) phase\<rparr>) of
        (st', Some err) \<Rightarrow> (st', 0, Some err)
      | (st', None) \<Rightarrow> (st', 0, None))"

definition resetOrFail :: "AppWrapperReconciler \<Rightarrow> Env \<Rightarrow> rstate \<Rightarrow> outcome" where
  "resetOrFail r env st =
     (let maxRetries = retryLimit r (aw st)
      in if Retries (status (aw st)) <s maxRetries
         then updateStatus env
                (st\<lparr>aw := withRetries (aw st) (Retries (status (aw st)) + 1)\<rparr>)
                AppWrapperResetting
         else updateStatus env st AppWrapperFailed)"

subsection \<open>Deletion\<close>

definition reconcileDeletion :: "Env \<Rightarrow> rstate \<Rightarrow> outcome" where
  "reconcileDeletion env st =
     (if ContainsFinalizer (aw st) AppWrapperFinalizer then
        (let resourcesDeployed = IsStatusConditionTrue (conds st) ResourcesDeployed
         in if resourcesDeployed \<and> \<not> deleteComponents env then
              (if Phase (status (aw st)) \<noteq> AppWrapperTerminating
               then (let (st', ignored) =
                           StatusUpdate env (st\<lparr>aw := withPhase (aw st) AppWrapperTerminating\<rparr>)
                     in (st', 5 * Second, None))
               else (st, 5 * Second, None))
            else
              (let st1 = (if resourcesDeployed
                          then setCond env st
                                 (mkCondition ResourcesDeployed ConditionFalse
                                    (phase_string AppWrapperTerminating)
                                    ''Resources successfully deleted'')
                          else st);
                   quotaReserved = IsStatusConditionTrue (conds st1) QuotaReserved;
                   st2 = (if quotaReserved
                          then setCond env st1
                                 (mkCondition QuotaReserved ConditionFalse
                                    (phase_string AppWrapperTerminating)
                                    ''No resources deployed'')
                          else st1);
                   statusUpdated = (resourcesDeployed \<or> quotaReserved)
               in case (if statusUpdated then StatusUpdate env st2 else (st2, None)) of
                    (st3, Some err) \<Rightarrow> (st3, 0, Some err)
                  | (st3, None) \<Rightarrow>
                      (let (a', removed) = RemoveFinalizer (aw st3) AppWrapperFinalizer
                       in if removed
                          then (case Update env (st3\<lparr>aw := a'\<rparr>) of
                                  (st4, Some err) \<Rightarrow> (st4, 0, Some err)
                                | (st4, None) \<Rightarrow> (st4, 0, None))
                          else (st3\<lparr>aw := a'\<rparr>, 0, None))))
      else (st, 0, None))"

subsection \<open>The phases\<close>

definition reconcileEmpty :: "Env \<Rightarrow> rstate \<Rightarrow> outcome" where
  "reconcileEmpty env st =
     (let (a', added) = AddFinalizer (aw st) AppWrapperFinalizer
      in case (if added then Update env (st\<lparr>aw := a'\<rparr>) else (st\<lparr>aw := a'\<rparr>, None)) of
           (st1, Some err) \<Rightarrow> (st1, 0, Some err)
         | (st1, None) \<Rightarrow>
             (case EnsureComponentStatusInitialized env (aw st1) of
                (a2, Some err) \<Rightarrow> (st1\<lparr>aw := a2\<rparr>, 0, Some err)
              | (a2, None) \<Rightarrow> updateStatus env (st1\<lparr>aw := a2\<rparr>) AppWrapperSuspended))"

definition reconcileSuspended :: "Env \<Rightarrow> rstate \<Rightarrow> outcome" where
  "reconcileSuspended env st =
     (if Suspend (aw st) then (st, 0, None)
      else
        (let st1 = setCond env st
                     (mkCondition QuotaReserved ConditionTrue
                        (phase_string AppWrapperResuming) ''Suspend is false'');
             st2 = setCond env st1
                     (mkCondition ResourcesDeployed ConditionTrue
                        (phase_string AppWrapperResuming) ''Suspend is false'');
             st3 = setCond env st2
                     (mkCondition PodsReady ConditionFalse
                        (phase_string AppWrapperResuming) ''Suspend is false'');
             st4 = setCond env st3
                     (mkCondition Unhealthy ConditionFalse
                        (phase_string AppWrapperResuming) ''Suspend is false'')
         in updateStatus env st4 AppWrapperResuming))"

definition reconcileResuming :: "AppWrapperReconciler \<Rightarrow> Env \<Rightarrow> rstate \<Rightarrow> outcome" where
  "reconcileResuming r env st =
     (if Suspend (aw st) then updateStatus env st AppWrapperSuspending
      else
        (case createComponents env of
           Some (err, fatal) \<Rightarrow>
             (let st1 = setCond env st
                          (mkCondition Unhealthy ConditionTrue ''CreateFailed''
                             (''error creating components: '' @ err))
              in if fatal then updateStatus env st1 AppWrapperFailed
                 else resetOrFail r env st1)
         | None \<Rightarrow> updateStatus env st AppWrapperRunning))"

text \<open>\<^verbatim>\<open>fmt.Sprintf("%v pods pending; %v pods running; %v pods succeeded", ..)\<close>\<close>

definition podDetailsMessage :: "podStatusSummary \<Rightarrow> string" where
  "podDetailsMessage podStatus =
     string_of_int32 (pending podStatus) @ '' pods pending; ''
       @ string_of_int32 (running podStatus) @ '' pods running; ''
       @ string_of_int32 (succeeded podStatus) @ '' pods succeeded''"

text \<open>The phase \<open>Running\<close> once the component-level status is known to be complete:
  the pod-level status.\<close>

definition reconcileRunningPods :: "AppWrapperReconciler \<Rightarrow> Env \<Rightarrow> rstate \<Rightarrow> outcome" where
  "reconcileRunningPods r env st =
     (case getPodStatus env of
        Inl err \<Rightarrow> (st, 0, Some err)
      | Inr podStatus \<Rightarrow>
          if expected podStatus \<le>s succeeded podStatus
             \<and> pending podStatus + running podStatus + failed podStatus = 0
          then
            (let msg = string_of_int32 (succeeded podStatus)
                         @ '' pods succeeded and no running, pending, or failed pods'';
                 st1 = setCond env st
                         (mkCondition QuotaReserved ConditionFalse
                            (phase_string AppWrapperSucceeded) msg);
                 st2 = setCond env st1
                         (mkCondition ResourcesDeployed ConditionTrue
                            (phase_string AppWrapperSucceeded) msg)
             in updateStatus env st2 AppWrapperSucceeded)
          else if 0 <s failed podStatus then
            (let st1 = setCond env st
                         (mkCondition Unhealthy ConditionTrue ''FoundFailedPods'' [])
             in case FindStatusCondition (conds st1) Unhealthy of
                  None \<Rightarrow> (st1, 0, Some NilPointerDereference)
                | Some c \<Rightarrow>
                    (let whenDetected = LastTransitionTime c;
                         gracePeriod = failureGraceDuration r (aw st1);
                         deadline = Time_Add whenDetected gracePeriod
                     in if Time_Before (now env) deadline
                        then requeueWithStatusUpdate env st1 (Time_Sub deadline (now env))
                        else resetOrFail r env st1))
          else
            (let st1 = clearCond env st Unhealthy ''FoundNoFailedPods'' []
             in if expected podStatus \<le>s running podStatus + succeeded podStatus then
                  (let st2 = setCond env st1
                               (mkCondition PodsReady ConditionTrue ''SufficientPodsReady''
                                  (string_of_int32 (running podStatus) @ '' pods running; ''
                                     @ string_of_int32 (succeeded podStatus)
                                     @ '' pods succeeded''))
                   in requeueWithStatusUpdate env st2 Minute)
                else
                  (let st2 = clearCond env st1 PodsReady ''InsufficientPodsReady''
                               (podDetailsMessage podStatus)
                   in case FindStatusCondition (conds st2) ResourcesDeployed of
                        None \<Rightarrow> (st2, 0, Some NilPointerDereference)
                      | Some c \<Rightarrow>
                          (let whenDeployed = LastTransitionTime c;
                               graceDuration =
                                 (if expected podStatus
                                       \<le>s pending podStatus + running podStatus
                                            + succeeded podStatus
                                  then warmupGraceDuration r (aw st2)
                                  else admissionGraceDuration r (aw st2))
                           in if Time_Before (now env) (Time_Add whenDeployed graceDuration)
                              then requeueWithStatusUpdate env st2 (5 * Second)
                              else
                                (let st3 = setCond env st2
                                             (mkCondition Unhealthy ConditionTrue
                                                ''InsufficientPodsReady''
                                                (podDetailsMessage podStatus))
                                 in resetOrFail r env st3)))))"

definition reconcileRunning :: "AppWrapperReconciler \<Rightarrow> Env \<Rightarrow> rstate \<Rightarrow> outcome" where
  "reconcileRunning r env st =
     (if Suspend (aw st) then updateStatus env st AppWrapperSuspending
      else
        (case getComponentStatus env (aw st) of
           (Inl err, a') \<Rightarrow> (st\<lparr>aw := a'\<rparr>, 0, Some err)
         | (Inr compStatus, a') \<Rightarrow>
             (let st1 = st\<lparr>aw := a'\<rparr>
              in if deployed compStatus \<noteq> expectedComponents compStatus then
                   (let st2 = setCond env st1
                                (mkCondition Unhealthy ConditionTrue ''MissingComponent''
                                   (''Only found '' @ string_of_int32 (deployed compStatus)
                                      @ '' deployed components, but was expecting ''
                                      @ string_of_int32 (expectedComponents compStatus)))
                    in updateStatus env st2 AppWrapperFailed)
                 else reconcileRunningPods r env st1)))"

definition reconcileSuspending :: "Env \<Rightarrow> rstate \<Rightarrow> outcome" where
  "reconcileSuspending env st =
     (let resourcesDeployed = IsStatusConditionTrue (conds st) ResourcesDeployed
      in if resourcesDeployed \<and> \<not> deleteComponents env then (st, 5 * Second, None)
         else
           (let st1 = (if resourcesDeployed
                       then setCond env st
                              (mkCondition ResourcesDeployed ConditionFalse
                                 (phase_string AppWrapperSuspended) ''Suspend is true'')
                       else st);
                st2 = setCond env st1
                        (mkCondition QuotaReserved ConditionFalse
                           (phase_string AppWrapperSuspended) ''Suspend is true'');
                st3 = clearCond env st2 PodsReady (phase_string AppWrapperSuspended) [];
                st4 = clearCond env st3 Unhealthy (phase_string AppWrapperSuspended) []
            in updateStatus env st4 AppWrapperSuspended))"

definition reconcileResetting :: "AppWrapperReconciler \<Rightarrow> Env \<Rightarrow> rstate \<Rightarrow> outcome" where
  "reconcileResetting r env st =
     (if Suspend (aw st) then updateStatus env st AppWrapperSuspending
      else
        (let st1 = clearCond env st PodsReady (phase_string AppWrapperResetting) [];
             resourcesDeployed = IsStatusConditionTrue (conds st1) ResourcesDeployed
         in if resourcesDeployed \<and> \<not> deleteComponents env then (st1, 5 * Second, None)
            else
              (let st2 = (if resourcesDeployed
                          then setCond env st1
                                 (mkCondition ResourcesDeployed ConditionFalse
                                    (phase_string AppWrapperResetting)
                                    ''Resources deleted for resetting AppWrapper'')
                          else st1)
               in case FindStatusCondition (conds st2) Unhealthy of
                    None \<Rightarrow> (st2, 0, Some NilPointerDereference)
                  | Some c \<Rightarrow>
                      (let whenReset = LastTransitionTime c;
                           pauseDuration = retryPauseDuration r (aw st2);
                           deadline = Time_Add whenReset pauseDuration
                       in if Time_Before (now env) deadline
                          then requeueWithStatusUpdate env st2 (Time_Sub deadline (now env))
                          else
                            (let st3 = setCond env st2
                                         (mkCondition ResourcesDeployed ConditionTrue
                                            (phase_string AppWrapperResuming)
                                            ''Reset complete; resuming'')
                             in updateStatus env st3 AppWrapperResuming)))))"

text \<open>The phase \<open>Failed\<close> once the deletion is not, or no longer, paused.\<close>

definition reconcileFailedCleanup :: "Env \<Rightarrow> rstate \<Rightarrow> Duration \<Rightarrow> outcome" where
  "reconcileFailedCleanup env st deletionDelay =
     (let resourcesDeployed = IsStatusConditionTrue (conds st) ResourcesDeployed
      in if resourcesDeployed \<and> \<not> deleteComponents env then (st, 5 * Second, None)
         else
           (let msg = (if 0 <s deletionDelay \<and> Suspend (aw st)
                       then ''Kueue forced resource deletion by suspending AppWrapper''
                       else ''Resources deleted for failed AppWrapper'');
                st1 = (if resourcesDeployed
                       then setCond env st
                              (mkCondition ResourcesDeployed ConditionFalse
                                 (phase_string AppWrapperFailed) msg)
                       else st);
                st2 = setCond env st1
                        (mkCondition QuotaReserved ConditionFalse
                           (phase_string AppWrapperFailed) ''No resources deployed'')
            in requeueWithStatusUpdate env st2 0))"

definition reconcileFailed :: "AppWrapperReconciler \<Rightarrow> Env \<Rightarrow> rstate \<Rightarrow> outcome" where
  "reconcileFailed r env st =
     (let deletionDelay = deletionOnFailureGraceDuration r (aw st)
      in if 0 <s deletionDelay \<and> \<not> Suspend (aw st) then
           (let st1 = setCond env st
                        (mkCondition DeletingResources ConditionFalse ''DeletionPaused''
                           (DeletionOnFailureGracePeriodAnnotation @ '' has value ''
                              @ DurationString r deletionDelay))
            in case FindStatusCondition (conds st1) DeletingResources of
                 None \<Rightarrow> (st1, 0, Some NilPointerDereference)
               | Some c \<Rightarrow>
                   (let whenDelayed = LastTransitionTime c;
                        deadline = Time_Add whenDelayed deletionDelay
                    in if Time_Before (now env) deadline
                       then requeueWithStatusUpdate env st1 (Time_Sub deadline (now env))
                       else reconcileFailedCleanup env st1 deletionDelay))
         else reconcileFailedCleanup env st deletionDelay)"

definition reconcileSucceeded :: "AppWrapperReconciler \<Rightarrow> Env \<Rightarrow> rstate \<Rightarrow> outcome" where
  "reconcileSucceeded r env st =
     (if IsStatusConditionTrue (conds st) ResourcesDeployed then
        (let deletionDelay = timeToLiveAfterSucceededDuration r (aw st)
         in case FindStatusCondition (conds st) ResourcesDeployed of
              None \<Rightarrow> (st, 0, Some NilPointerDereference)
            | Some c \<Rightarrow>
                (let whenSucceeded = LastTransitionTime c;
                     deadline = Time_Add whenSucceeded deletionDelay
                 in if Time_Before (now env) deadline
                    then requeueWithStatusUpdate env st (Time_Sub deadline (now env))
                    else if \<not> deleteComponents env then (st, 5 * Second, None)
                    else
                      (let st1 = setCond env st
                                   (mkCondition ResourcesDeployed ConditionFalse
                                      (phase_string AppWrapperSucceeded)
                                      (''Time to live after success of ''
                                         @ DurationString r deletionDelay @ '' expired''))
                       in requeueWithStatusUpdate env st1 0)))
      else (st, 0, None))"

subsection \<open>Reconcile\<close>

text \<open>
  The body of \<open>Reconcile\<close> on the object that the store returned: the deletion first, then
  the switch on the phase (no case of the switch matches \<open>Terminating\<close>).
\<close>

definition deletionRequested :: "AppWrapper \<Rightarrow> bool" where
  "deletionRequested a =
     (case DeletionTimestamp a of None \<Rightarrow> False | Some t \<Rightarrow> \<not> IsZero t)"

definition reconcileAppWrapper :: "AppWrapperReconciler \<Rightarrow> Env \<Rightarrow> AppWrapper \<Rightarrow> outcome" where
  "reconcileAppWrapper r env a =
     (let st = \<lparr>aw = a, stored = a\<rparr>
      in if deletionRequested a then reconcileDeletion env st
         else
           (case Phase (status a) of
              AppWrapperEmpty \<Rightarrow> reconcileEmpty env st
            | AppWrapperSuspended \<Rightarrow> reconcileSuspended env st
            | AppWrapperResuming \<Rightarrow> reconcileResuming r env st
            | AppWrapperRunning \<Rightarrow> reconcileRunning r env st
            | AppWrapperSuspending \<Rightarrow> reconcileSuspending env st
            | AppWrapperResetting \<Rightarrow> reconcileResetting r env st
            | AppWrapperFailed \<Rightarrow> reconcileFailed r env st
            | AppWrapperSucceeded \<Rightarrow> reconcileSucceeded r env st
            | AppWrapperTerminating \<Rightarrow> (st, 0, None)))"

text \<open>
  \<open>Reconcile\<close> on the answer of the store to the initial \<^verbatim>\<open>r.Get\<close>: any error of the fetch
  ends the invocation with \<^verbatim>\<open>ctrl.Result{}, nil\<close>.
\<close>

definition Reconcile ::
  "AppWrapperReconciler \<Rightarrow> Env \<Rightarrow> error + AppWrapper \<Rightarrow> rstate option \<times> Duration \<times> error option" where
  "Reconcile r env fetched =
     (case fetched of
        Inl err \<Rightarrow> (None, 0, None)
      | Inr a \<Rightarrow> (let (st, res) = reconcileAppWrapper r env a in (Some st, res)))"

section \<open>Notions used to state the properties\<close>

text \<open>
  The per-resource override under an annotation key: the parsed value when the annotation
  is present and parseable, \<open>None\<close> when it is absent or unparsable.
\<close>

definition override :: "AppWrapperReconciler \<Rightarrow> AppWrapper \<Rightarrow> string \<Rightarrow> Duration option" where
  "override r a key =
     (case Annotations a key of None \<Rightarrow> None | Some userPeriod \<Rightarrow> ParseDuration r userPeriod)"

text \<open>A condition of the given type is recorded with the given status, reason and message.\<close>

definition records :: "Condition list \<Rightarrow> string \<Rightarrow> ConditionStatus \<Rightarrow> string \<Rightarrow> string \<Rightarrow> bool" where
  "records cs t s reason message =
     (case FindStatusCondition cs t of
        None \<Rightarrow> False
      | Some c \<Rightarrow> Status c = s \<and> Reason c = reason \<and> Message c = message)"

subsection \<open>Concrete inputs\<close>

text \<open>
  A configuration with the defaults of the project's documentation, a reconciler whose
  parsers know just the strings that the examples use, and workloads in several phases.
\<close>

definition example_config :: FaultToleranceConfig where
  "example_config =
     \<lparr>AdmissionGracePeriod = 60 * Second, WarmupGracePeriod = 300 * Second,
      FailureGracePeriod = 60 * Second, RetryPausePeriod = 90 * Second, RetryLimit = 3,
      ForcefulDeletionGracePeriod = 600 * Second, GracePeriodMaximum = 86400 * Second,
      SuccessTTL = 604800 * Second\<rparr>"

definition example_reconciler :: AppWrapperReconciler where
  "example_reconciler =
     \<lparr>Config = example_config,
      ParseDuration = (\<lambda>s. if s = ''30s'' then Some (30 * Second)
                            else if s = ''48h'' then Some (172800 * Second)
                            else if s = ''-5s'' then Some (- (5 * Second))
                            else None),
      Atoi = (\<lambda>s. if s = ''1'' then Some 1 else None),
      DurationString = (\<lambda>d. if d = 30 * Second then ''30s'' else ''?'')\<rparr>"

definition example_status :: AppWrapperStatus where
  "example_status =
     \<lparr>Phase = AppWrapperEmpty, Retries = 0, Conditions = [], ComponentStatus = []\<rparr>"

definition example_aw :: AppWrapper where
  "example_aw =
     \<lparr>Annotations = Map.empty, DeletionTimestamp = None, Finalizers = [], Suspend = False,
      Components = [(''Job'', ''batch/v1'', ''sample-job'')], status = example_status\<rparr>"

definition example_env :: Env where
  "example_env =
     \<lparr>now = 1000 * sint Second, updateError = None, statusUpdateError = None,
      ensureError = None, createComponents = None, deleteComponents = True,
      getComponent = (\<lambda>k. None), listPods = Inr [PodSucceeded, PodUnknown],
      ExpectedPodCount = 1\<rparr>"

text \<open>The number of pods that a pod-status summary has counted.\<close>

definition counted :: "podStatusSummary \<Rightarrow> int" where
  "counted s = sint (pending s) + sint (running s) + sint (succeeded s) + sint (failed s)"

text \<open>The example workload with a given phase, number of retries and conditions.\<close>

definition example_in :: "AppWrapperPhase \<Rightarrow> int32 \<Rightarrow> Condition list \<Rightarrow> AppWrapper" where
  "example_in phase n cs =
     example_aw\<lparr>status := \<lparr>Phase = phase, Retries = n, Conditions = cs,
                            ComponentStatus =
                              [\<lparr>Name = ''sample-job'', Kind = ''Job'', APIVersion = ''batch/v1'',
                                ComponentConditions = []\<rparr>]\<rparr>\<rparr>"

text \<open>
  The conditions that the step from \<open>Suspended\<close> to \<open>Resuming\<close> leaves when it runs at
  the time of 990 seconds.
\<close>

definition example_resumed :: "Condition list" where
  "example_resumed =
     map (\<lambda>(t, s). \<lparr>Type = t, Status = s, ObservedGeneration = 0,
                      LastTransitionTime = 990000000000,
                      Reason = ''Resuming'', Message = ''Suspend is false''\<rparr>)
       [(QuotaReserved, ConditionTrue), (ResourcesDeployed, ConditionTrue),
        (PodsReady, ConditionFalse), (Unhealthy, ConditionFalse)]"

text \<open>The example workload, deployed, carrying the finalizer and marked for deletion.\<close>

definition example_deleting :: AppWrapper where
  "example_deleting =
     (example_in AppWrapperRunning 0 example_resumed)
       \<lparr>DeletionTimestamp := Some 995000000000, Finalizers := [AppWrapperFinalizer]\<rparr>"

text \<open>The object in the store after one reconciliation of the stored object \<open>a\<close>.\<close>

definition persisted :: "AppWrapperReconciler \<Rightarrow> Env \<Rightarrow> AppWrapper \<Rightarrow> AppWrapper" where
  "persisted r env a = stored (fst (reconcileAppWrapper r env a))"

text \<open>
  A condition agrees with a ledger when the first condition of its type there already has
  its status, reason, message and generation.
\<close>

definition agrees :: "Condition list \<Rightarrow> Condition \<Rightarrow> bool" where
  "agrees cs c =
     (case FindStatusCondition cs (Type c) of
        None \<Rightarrow> False
      | Some e \<Rightarrow> Status e = Status c \<and> Reason e = Reason c \<and> Message e = Message c
                   \<and> ObservedGeneration e = ObservedGeneration c)"

text \<open>\<open>clearCondition\<close> on the ledger itself.\<close>

definition cleared :: "Time \<Rightarrow> Condition list \<Rightarrow> string \<Rightarrow> string \<Rightarrow> string \<Rightarrow> Condition list" where
  "cleared tm cs t reason message =
     (if IsStatusConditionTrue cs t
      then SetStatusCondition tm cs (mkCondition t ConditionFalse reason message)
      else cs)"

text \<open>
  The deadlines that a reconciliation of the object \<open>a\<close> compares its clock with. In the
  phase \<open>Running\<close> these are the end of the failure grace period, counted from the
  transition of \<open>Unhealthy\<close>, and the ends of the warmup and of the admission grace period,
  counted from the transition of \<open>ResourcesDeployed\<close>; in \<open>Resetting\<close> the end of the retry
  pause (from \<open>Unhealthy\<close>); in \<open>Failed\<close> the end of the deletion delay (from
  \<open>DeletingResources\<close>); in \<open>Succeeded\<close> the end of the time to live (from
  \<open>ResourcesDeployed\<close>). The other phases and the deletion protocol read the clock only to
  stamp the transitions of conditions.
\<close>

definition deadlineOf :: "AppWrapper \<Rightarrow> string \<Rightarrow> Duration \<Rightarrow> Time list" where
  "deadlineOf a t d =
     (case FindStatusCondition (Conditions (status a)) t of
        None \<Rightarrow> []
      | Some c \<Rightarrow> [Time_Add (LastTransitionTime c) d])"

definition deadlines :: "AppWrapperReconciler \<Rightarrow> AppWrapper \<Rightarrow> Time list" where
  "deadlines r a =
     (if deletionRequested a then []
      else
        (case Phase (status a) of
           AppWrapperRunning \<Rightarrow>
             deadlineOf a Unhealthy (failureGraceDuration r a)
               @ deadlineOf a ResourcesDeployed (warmupGraceDuration r a)
               @ deadlineOf a ResourcesDeployed (admissionGraceDuration r a)
         | AppWrapperResetting \<Rightarrow> deadlineOf a Unhealthy (retryPauseDuration r a)
         | AppWrapperFailed \<Rightarrow>
             deadlineOf a DeletingResources (deletionOnFailureGraceDuration r a)
         | AppWrapperSucceeded \<Rightarrow>
             deadlineOf a ResourcesDeployed (timeToLiveAfterSucceededDuration r a)
         | _ \<Rightarrow> []))"
section \<open>Properties of the Grace-Policy Evaluator\<close>

lemma limitDuration_range:
  assumes "0 \<le>s GracePeriodMaximum (Config r)"
  shows "0 \<le>s limitDuration r d \<and> limitDuration r d \<le>s GracePeriodMaximum (Config r)"
  using assms by (simp add: limitDuration_def word_sle_eq word_sless_alt)

lemma limitDuration_inside:
  assumes "0 \<le>s d" and "d \<le>s GracePeriodMaximum (Config r)"
  shows "limitDuration r d = d"
  using assms by (simp add: limitDuration_def word_sle_eq word_sless_alt)

lemma admissionGraceDuration_override:
  "admissionGraceDuration r a =
     limitDuration r (case override r a AdmissionGracePeriodDurationAnnotation of
                        Some d \<Rightarrow> d | None \<Rightarrow> AdmissionGracePeriod (Config r))"
  by (simp add: admissionGraceDuration_def override_def split: option.split)

lemma warmupGraceDuration_override:
  "warmupGraceDuration r a =
     limitDuration r (case override r a WarmupGracePeriodDurationAnnotation of
                        Some d \<Rightarrow> d | None \<Rightarrow> WarmupGracePeriod (Config r))"
  by (simp add: warmupGraceDuration_def override_def split: option.split)

lemma failureGraceDuration_override:
  "failureGraceDuration r a =
     limitDuration r (case override r a FailureGracePeriodDurationAnnotation of
                        Some d \<Rightarrow> d | None \<Rightarrow> FailureGracePeriod (Config r))"
  by (simp add: failureGraceDuration_def override_def split: option.split)

lemma retryPauseDuration_override:
  "retryPauseDuration r a =
     limitDuration r (case override r a RetryPausePeriodDurationAnnotation of
                        Some d \<Rightarrow> d | None \<Rightarrow> RetryPausePeriod (Config r))"
  by (simp add: retryPauseDuration_def override_def split: option.split)

lemma forcefulDeletionGraceDuration_override:
  "forcefulDeletionGraceDuration r a =
     limitDuration r (case override r a ForcefulDeletionGracePeriodAnnotation of
                        Some d \<Rightarrow> d | None \<Rightarrow> ForcefulDeletionGracePeriod (Config r))"
  by (simp add: forcefulDeletionGraceDuration_def override_def split: option.split)

lemma deletionOnFailureGraceDuration_override:
  "deletionOnFailureGraceDuration r a =
     (case override r a DeletionOnFailureGracePeriodAnnotation of
        Some d \<Rightarrow> limitDuration r d | None \<Rightarrow> 0)"
  by (simp add: deletionOnFailureGraceDuration_def override_def split: option.split)

lemma timeToLiveAfterSucceededDuration_override:
  "timeToLiveAfterSucceededDuration r a =
     (case override r a SuccessTTLAnnotation of
        Some d \<Rightarrow> if 0 <s d \<and> d <s SuccessTTL (Config r) then d else SuccessTTL (Config r)
      | None \<Rightarrow> SuccessTTL (Config r))"
  by (simp add: timeToLiveAfterSucceededDuration_def override_def split: option.split)

lemma example_maximum: "GracePeriodMaximum (Config example_reconciler) = 86400000000000"
  by (simp add: example_reconciler_def example_config_def Second_def)

lemma limitDuration_below:
  assumes "x <s 0"
  shows "limitDuration r x = 0"
  using assms by (simp add: limitDuration_def)

lemma limitDuration_above:
  assumes "0 \<le>s GracePeriodMaximum (Config r)" and "GracePeriodMaximum (Config r) <s x"
  shows "limitDuration r x = GracePeriodMaximum (Config r)"
  using assms by (simp add: limitDuration_def word_sle_eq word_sless_alt)

lemma example_override_failure:
  "override example_reconciler
     (example_aw\<lparr>Annotations := [FailureGracePeriodDurationAnnotation \<mapsto> s]\<rparr>)
     FailureGracePeriodDurationAnnotation = ParseDuration example_reconciler s"
  by (simp add: override_def)

lemma example_parse:
  "ParseDuration example_reconciler ''30s'' = Some 30000000000"
  "ParseDuration example_reconciler ''-5s'' = Some (- 5000000000)"
  "ParseDuration example_reconciler ''48h'' = Some 172800000000000"
  by (simp_all add: example_reconciler_def Second_def)

text \<open>
  C4. Whenever the configured maximum \<open>M\<close> is not negative, each of the admission, warmup,
  failure, retry-pause and forceful-deletion grace durations lies in \<open>[0, M]\<close>, whatever
  the override annotation says. Each is the clamp of the override when that is present and
  parseable, and the clamp of the configured default otherwise. The clamp is the one the
  code writes: a negative duration becomes \<open>0\<close>, a duration above \<open>M\<close> becomes \<open>M\<close>, and
  a duration of \<open>[0, M]\<close> is left as it is. The resolution is a total function to a
  duration: it has no error to return.
\<close>

theorem grace_durations_clamped:
  assumes M: "0 \<le>s GracePeriodMaximum (Config r)"
  shows "(\<forall>D \<in> {admissionGraceDuration r a, warmupGraceDuration r a,
                 failureGraceDuration r a, retryPauseDuration r a,
                 forcefulDeletionGraceDuration r a}.
            0 \<le>s D \<and> D \<le>s GracePeriodMaximum (Config r))
       \<and> admissionGraceDuration r a =
           limitDuration r (case override r a AdmissionGracePeriodDurationAnnotation of
                              Some d \<Rightarrow> d | None \<Rightarrow> AdmissionGracePeriod (Config r))
       \<and> warmupGraceDuration r a =
           limitDuration r (case override r a WarmupGracePeriodDurationAnnotation of
                              Some d \<Rightarrow> d | None \<Rightarrow> WarmupGracePeriod (Config r))
       \<and> failureGraceDuration r a =
           limitDuration r (case override r a FailureGracePeriodDurationAnnotation of
                              Some d \<Rightarrow> d | None \<Rightarrow> FailureGracePeriod (Config r))
       \<and> retryPauseDuration r a =
           limitDuration r (case override r a RetryPausePeriodDurationAnnotation of
                              Some d \<Rightarrow> d | None \<Rightarrow> RetryPausePeriod (Config r))
       \<and> forcefulDeletionGraceDuration r a =
           limitDuration r (case override r a ForcefulDeletionGracePeriodAnnotation of
                              Some d \<Rightarrow> d | None \<Rightarrow> ForcefulDeletionGracePeriod (Config r))
       \<and> (0 \<le>s limitDuration r x \<and> limitDuration r x \<le>s GracePeriodMaximum (Config r))
       \<and> (0 \<le>s x \<and> x \<le>s GracePeriodMaximum (Config r) \<longrightarrow> limitDuration r x = x)
       \<and> (x <s 0 \<longrightarrow> limitDuration r x = 0)
       \<and> (GracePeriodMaximum (Config r) <s x
            \<longrightarrow> limitDuration r x = GracePeriodMaximum (Config r))"
proof -
  have range: "0 \<le>s limitDuration r d \<and> limitDuration r d \<le>s GracePeriodMaximum (Config r)"
    for d by (rule limitDuration_range [OF M])
  have "\<forall>D \<in> {admissionGraceDuration r a, warmupGraceDuration r a,
               failureGraceDuration r a, retryPauseDuration r a,
               forcefulDeletionGraceDuration r a}.
          0 \<le>s D \<and> D \<le>s GracePeriodMaximum (Config r)"
    by (simp add: admissionGraceDuration_override warmupGraceDuration_override
          failureGraceDuration_override retryPauseDuration_override
          forcefulDeletionGraceDuration_override range)
  moreover have "0 \<le>s x \<and> x \<le>s GracePeriodMaximum (Config r) \<longrightarrow> limitDuration r x = x"
    by (simp add: limitDuration_inside)
  moreover have "x <s 0 \<longrightarrow> limitDuration r x = 0"
    by (simp add: limitDuration_below)
  moreover have "GracePeriodMaximum (Config r) <s x
            \<longrightarrow> limitDuration r x = GracePeriodMaximum (Config r)"
    by (simp add: limitDuration_above [OF M])
  ultimately show ?thesis
    using range [of x]
    by (simp only: admissionGraceDuration_override [symmetric]
          warmupGraceDuration_override [symmetric] failureGraceDuration_override [symmetric]
          retryPauseDuration_override [symmetric]
          forcefulDeletionGraceDuration_override [symmetric] simp_thms)
qed

theorem grace_durations_clamped_witness:
  "0 \<le>s GracePeriodMaximum (Config example_reconciler)
   \<and> GracePeriodMaximum (Config example_reconciler) = 86400 * Second
   \<and> failureGraceDuration example_reconciler
        (example_aw\<lparr>Annotations := [FailureGracePeriodDurationAnnotation \<mapsto> ''30s'']\<rparr>)
       = 30 * Second
   \<and> failureGraceDuration example_reconciler
        (example_aw\<lparr>Annotations := [FailureGracePeriodDurationAnnotation \<mapsto> ''-5s'']\<rparr>)
       = 0
   \<and> failureGraceDuration example_reconciler
        (example_aw\<lparr>Annotations := [FailureGracePeriodDurationAnnotation \<mapsto> ''48h'']\<rparr>)
       = 86400 * Second
   \<and> 0 \<le>s admissionGraceDuration example_reconciler example_aw
   \<and> admissionGraceDuration example_reconciler example_aw
       \<le>s GracePeriodMaximum (Config example_reconciler)"
proof -
  have M: "0 \<le>s GracePeriodMaximum (Config example_reconciler)"
    by (simp add: example_maximum word_sle_eq)
  have in_range: "0 \<le>s (30000000000 :: Duration) \<and> (30000000000 :: Duration) \<le>s 86400000000000"
    by (simp add: word_sle_eq)
  have below: "(- 5000000000 :: Duration) <s 0"
    by (simp add: word_sless_alt)
  have above: "(86400000000000 :: Duration) <s 172800000000000"
    by (simp add: word_sless_alt)
  note t = grace_durations_clamped [OF M,
      of "example_aw\<lparr>Annotations := [FailureGracePeriodDurationAnnotation \<mapsto> ''30s'']\<rparr>"
         "30000000000"]
  note n = grace_durations_clamped [OF M,
      of "example_aw\<lparr>Annotations := [FailureGracePeriodDurationAnnotation \<mapsto> ''-5s'']\<rparr>"
         "- 5000000000"]
  note h = grace_durations_clamped [OF M,
      of "example_aw\<lparr>Annotations := [FailureGracePeriodDurationAnnotation \<mapsto> ''48h'']\<rparr>"
         "172800000000000"]
  note u = grace_durations_clamped [OF M, of example_aw 0]
  from t have "failureGraceDuration example_reconciler
        (example_aw\<lparr>Annotations := [FailureGracePeriodDurationAnnotation \<mapsto> ''30s'']\<rparr>)
       = 30 * Second"
    using in_range
    by (simp add: example_override_failure example_parse example_maximum Second_def)
  moreover from n have "failureGraceDuration example_reconciler
        (example_aw\<lparr>Annotations := [FailureGracePeriodDurationAnnotation \<mapsto> ''-5s'']\<rparr>)
       = 0"
    using below
    by (simp add: example_override_failure example_parse example_maximum)
  moreover from h have "failureGraceDuration example_reconciler
        (example_aw\<lparr>Annotations := [FailureGracePeriodDurationAnnotation \<mapsto> ''48h'']\<rparr>)
       = 86400 * Second"
    using above
    by (simp add: example_override_failure example_parse example_maximum Second_def)
  moreover from u [THEN conjunct1] have "0 \<le>s admissionGraceDuration example_reconciler example_aw
   \<and> admissionGraceDuration example_reconciler example_aw
       \<le>s GracePeriodMaximum (Config example_reconciler)"
    by simp
  ultimately show ?thesis using M by (simp add: example_maximum Second_def)
qed

text \<open>
  C5. With a parseable success-TTL override \<open>d\<close> and the configured default \<open>T\<close>, the
  resolved success TTL is \<open>d\<close> when \<open>0 < d < T\<close> and is \<open>T\<close> for every other parseable \<open>d\<close>
  (\<open>d \<le> 0\<close> or \<open>d \<ge> T\<close>) and when the override is absent or unparsable. So the override is
  the resolved value exactly when \<open>0 < d < T\<close>, the one parseable \<open>d\<close> outside that range
  which the result still equals being \<open>T\<close> itself.
\<close>

theorem success_ttl_asymmetry:
  "(override r a SuccessTTLAnnotation = Some d \<and> 0 <s d \<and> d <s SuccessTTL (Config r)
      \<longrightarrow> timeToLiveAfterSucceededDuration r a = d)
   \<and> (override r a SuccessTTLAnnotation = Some d \<and> (d \<le>s 0 \<or> SuccessTTL (Config r) \<le>s d)
      \<longrightarrow> timeToLiveAfterSucceededDuration r a = SuccessTTL (Config r))
   \<and> (override r a SuccessTTLAnnotation = None
      \<longrightarrow> timeToLiveAfterSucceededDuration r a = SuccessTTL (Config r))
   \<and> (override r a SuccessTTLAnnotation = Some d \<and> d \<noteq> SuccessTTL (Config r)
      \<longrightarrow> (timeToLiveAfterSucceededDuration r a = d
            \<longleftrightarrow> 0 <s d \<and> d <s SuccessTTL (Config r)))"
  by (auto simp add: timeToLiveAfterSucceededDuration_override word_sle_eq word_sless_alt)

theorem success_ttl_asymmetry_witness:
  "timeToLiveAfterSucceededDuration example_reconciler
     (example_aw\<lparr>Annotations := [SuccessTTLAnnotation \<mapsto> ''30s'']\<rparr>) = 30 * Second
   \<and> timeToLiveAfterSucceededDuration example_reconciler
     (example_aw\<lparr>Annotations := [SuccessTTLAnnotation \<mapsto> ''-5s'']\<rparr>) = 604800 * Second
   \<and> timeToLiveAfterSucceededDuration example_reconciler
     (example_aw\<lparr>Annotations := [SuccessTTLAnnotation \<mapsto> ''1 week'']\<rparr>) = 604800 * Second"
proof -
  have T: "SuccessTTL (Config example_reconciler) = 604800000000000"
    by (simp add: example_reconciler_def example_config_def Second_def)
  have o1: "override example_reconciler
              (example_aw\<lparr>Annotations := [SuccessTTLAnnotation \<mapsto> ''30s'']\<rparr>)
              SuccessTTLAnnotation = Some 30000000000"
    by (simp add: override_def example_reconciler_def Second_def)
  have o2: "override example_reconciler
              (example_aw\<lparr>Annotations := [SuccessTTLAnnotation \<mapsto> ''-5s'']\<rparr>)
              SuccessTTLAnnotation = Some (- 5000000000)"
    by (simp add: override_def example_reconciler_def Second_def)
  have o3: "override example_reconciler
              (example_aw\<lparr>Annotations := [SuccessTTLAnnotation \<mapsto> ''1 week'']\<rparr>)
              SuccessTTLAnnotation = None"
    by (simp add: override_def example_reconciler_def)
  have "timeToLiveAfterSucceededDuration example_reconciler
     (example_aw\<lparr>Annotations := [SuccessTTLAnnotation \<mapsto> ''30s'']\<rparr>) = 30 * Second"
    using success_ttl_asymmetry [of example_reconciler
        "example_aw\<lparr>Annotations := [SuccessTTLAnnotation \<mapsto> ''30s'']\<rparr>" 30000000000]
    by (simp add: o1 T word_sless_alt Second_def)
  moreover have "timeToLiveAfterSucceededDuration example_reconciler
     (example_aw\<lparr>Annotations := [SuccessTTLAnnotation \<mapsto> ''-5s'']\<rparr>) = 604800 * Second"
    using success_ttl_asymmetry [of example_reconciler
        "example_aw\<lparr>Annotations := [SuccessTTLAnnotation \<mapsto> ''-5s'']\<rparr>" "- 5000000000"]
    by (simp add: o2 T word_sle_eq Second_def)
  moreover have "timeToLiveAfterSucceededDuration example_reconciler
     (example_aw\<lparr>Annotations := [SuccessTTLAnnotation \<mapsto> ''1 week'']\<rparr>) = 604800 * Second"
    using success_ttl_asymmetry [of example_reconciler
        "example_aw\<lparr>Annotations := [SuccessTTLAnnotation \<mapsto> ''1 week'']\<rparr>"]
    by (simp add: o3 T Second_def)
  ultimately show ?thesis by simp
qed

text \<open>
  C6 (as amended). When the override annotation is absent or unparsable: the admission,
  warmup, failure, retry-pause and forceful-deletion durations are the configured default of
  their kind clamped to \<open>[0, maximum]\<close>; the success TTL is its configured default as it is,
  not clamped; the deletion-on-failure grace period has no configured default and is 0.
\<close>

theorem defaults_without_override:
  "(override r a AdmissionGracePeriodDurationAnnotation = None
      \<longrightarrow> admissionGraceDuration r a = limitDuration r (AdmissionGracePeriod (Config r)))
   \<and> (override r a WarmupGracePeriodDurationAnnotation = None
      \<longrightarrow> warmupGraceDuration r a = limitDuration r (WarmupGracePeriod (Config r)))
   \<and> (override r a FailureGracePeriodDurationAnnotation = None
      \<longrightarrow> failureGraceDuration r a = limitDuration r (FailureGracePeriod (Config r)))
   \<and> (override r a RetryPausePeriodDurationAnnotation = None
      \<longrightarrow> retryPauseDuration r a = limitDuration r (RetryPausePeriod (Config r)))
   \<and> (override r a ForcefulDeletionGracePeriodAnnotation = None
      \<longrightarrow> forcefulDeletionGraceDuration r a
            = limitDuration r (ForcefulDeletionGracePeriod (Config r)))
   \<and> (override r a SuccessTTLAnnotation = None
      \<longrightarrow> timeToLiveAfterSucceededDuration r a = SuccessTTL (Config r))
   \<and> (override r a DeletionOnFailureGracePeriodAnnotation = None
      \<longrightarrow> deletionOnFailureGraceDuration r a = 0)"
  by (simp add: admissionGraceDuration_override warmupGraceDuration_override
        failureGraceDuration_override retryPauseDuration_override
        forcefulDeletionGraceDuration_override timeToLiveAfterSucceededDuration_override
        deletionOnFailureGraceDuration_override)

lemma example_limits:
  "limitDuration example_reconciler (60 * Second) = 60 * Second"
  "limitDuration example_reconciler (300 * Second) = 300 * Second"
  "limitDuration example_reconciler (90 * Second) = 90 * Second"
  "limitDuration example_reconciler (600 * Second) = 600 * Second"
  "limitDuration example_reconciler (86400 * Second) = 86400 * Second"
  "limitDuration example_reconciler (604800 * Second) = 86400 * Second"
  by (simp_all add: limitDuration_def example_maximum Second_def word_sless_alt)

lemma example_config_fields:
  "AdmissionGracePeriod (Config example_reconciler) = 60 * Second"
  "WarmupGracePeriod (Config example_reconciler) = 300 * Second"
  "FailureGracePeriod (Config example_reconciler) = 60 * Second"
  "RetryPausePeriod (Config example_reconciler) = 90 * Second"
  "ForcefulDeletionGracePeriod (Config example_reconciler) = 600 * Second"
  "GracePeriodMaximum (Config example_reconciler) = 86400 * Second"
  "SuccessTTL (Config example_reconciler) = 604800 * Second"
  "RetryLimit (Config example_reconciler) = 3"
  by (simp_all add: example_reconciler_def example_config_def)

lemma example_no_annotations: "override example_reconciler example_aw key = None"
  by (simp add: override_def example_aw_def)

theorem defaults_without_override_witness:
  "override example_reconciler example_aw AdmissionGracePeriodDurationAnnotation = None
   \<and> admissionGraceDuration example_reconciler example_aw = 60 * Second
   \<and> warmupGraceDuration example_reconciler example_aw = 300 * Second
   \<and> failureGraceDuration example_reconciler example_aw = 60 * Second
   \<and> retryPauseDuration example_reconciler example_aw = 90 * Second
   \<and> forcefulDeletionGraceDuration example_reconciler example_aw = 600 * Second
   \<and> timeToLiveAfterSucceededDuration example_reconciler example_aw = 604800 * Second
   \<and> deletionOnFailureGraceDuration example_reconciler example_aw = 0"
  using defaults_without_override [of example_reconciler example_aw]
  by (simp add: example_no_annotations example_config_fields example_limits)

text \<open>
  C6 as stated fails. Under the example configuration, whose seven durations are all
  positive, a workload with no annotation gets the deletion-on-failure grace period 0, which
  is the clamp of none of the configured durations; and it gets the success TTL of seven
  days, which is not the clamp of the configured success TTL to the maximum of one day.
\<close>

theorem defaults_without_override_counterexample:
  "override example_reconciler example_aw DeletionOnFailureGracePeriodAnnotation = None
   \<and> deletionOnFailureGraceDuration example_reconciler example_aw
       \<noteq> limitDuration example_reconciler (AdmissionGracePeriod (Config example_reconciler))
   \<and> deletionOnFailureGraceDuration example_reconciler example_aw
       \<noteq> limitDuration example_reconciler (WarmupGracePeriod (Config example_reconciler))
   \<and> deletionOnFailureGraceDuration example_reconciler example_aw
       \<noteq> limitDuration example_reconciler (FailureGracePeriod (Config example_reconciler))
   \<and> deletionOnFailureGraceDuration example_reconciler example_aw
       \<noteq> limitDuration example_reconciler (RetryPausePeriod (Config example_reconciler))
   \<and> deletionOnFailureGraceDuration example_reconciler example_aw
       \<noteq> limitDuration example_reconciler
            (ForcefulDeletionGracePeriod (Config example_reconciler))
   \<and> deletionOnFailureGraceDuration example_reconciler example_aw
       \<noteq> limitDuration example_reconciler (GracePeriodMaximum (Config example_reconciler))
   \<and> deletionOnFailureGraceDuration example_reconciler example_aw
       \<noteq> limitDuration example_reconciler (SuccessTTL (Config example_reconciler))
   \<and> override example_reconciler example_aw SuccessTTLAnnotation = None
   \<and> timeToLiveAfterSucceededDuration example_reconciler example_aw
       \<noteq> limitDuration example_reconciler (SuccessTTL (Config example_reconciler))"
  by (simp add: deletionOnFailureGraceDuration_override
        timeToLiveAfterSucceededDuration_override example_no_annotations
        example_config_fields example_limits)
    (simp add: Second_def)

section \<open>Properties of the bounded-retry gate\<close>

lemma sint_succ:
  fixes a b :: int32
  assumes "a <s b"
  shows "sint (a + 1) = sint a + 1"
proof -
  have lt: "sint a < sint b" using assms by (simp add: word_sless_alt)
  have ub: "sint b < 2 ^ 31" using sint_lt [of b] by simp
  have lb: "- (2 ^ 31) \<le> sint a" using sint_ge [of a] by simp
  have "sint (a + 1) = signed_take_bit 31 (sint a + 1)"
    by (simp add: sint_word_ariths)
  also have "\<dots> = sint a + 1"
    using lt ub lb by (simp add: signed_take_bit_int_eq_self)
  finally show ?thesis .
qed

lemma status_withPhase [simp]:
  "Phase (status (withPhase a p)) = p"
  "Retries (status (withPhase a p)) = Retries (status a)"
  "Conditions (status (withPhase a p)) = Conditions (status a)"
  "ComponentStatus (status (withPhase a p)) = ComponentStatus (status a)"
  "Annotations (withPhase a p) = Annotations a"
  "Finalizers (withPhase a p) = Finalizers a"
  "Suspend (withPhase a p) = Suspend a"
  "DeletionTimestamp (withPhase a p) = DeletionTimestamp a"
  by (simp_all add: withPhase_def)

lemma status_withRetries [simp]:
  "Phase (status (withRetries a n)) = Phase (status a)"
  "Retries (status (withRetries a n)) = n"
  "Conditions (status (withRetries a n)) = Conditions (status a)"
  "Annotations (withRetries a n) = Annotations a"
  by (simp_all add: withRetries_def)

lemma updateStatus_cases:
  "updateStatus env st phase =
     (case statusUpdateError env of
        Some err \<Rightarrow> (st\<lparr>aw := withPhase (aw st) phase\<rparr>, 0, Some err)
      | None \<Rightarrow>
          (let written = (stored st)\<lparr>status := status (withPhase (aw st) phase)\<rparr>
           in (\<lparr>aw = written, stored = written\<rparr>, 0, None)))"
  by (simp add: updateStatus_def StatusUpdate_def Let_def split: option.split)

text \<open>
  C1. The reset-or-fail gate, with \<open>limit\<close> the resolved retry limit (the annotation's
  integer when present and parseable, the configured limit otherwise): if the retries are
  strictly below the limit, they grow by exactly one, stay within the limit, and the phase
  is set to \<open>Resetting\<close>; otherwise the phase is set to \<open>Failed\<close> and the retries are
  unchanged. So retries within the limit stay within it. The new status is the stored one
  when the status update succeeds; when it fails, the store is unchanged and the error is
  returned.
\<close>

theorem resetOrFail_bounded:
  "(case resetOrFail r env st of
      (st', requeueAfter, err) \<Rightarrow>
        (Retries (status (aw st)) <s retryLimit r (aw st) \<longrightarrow>
           sint (Retries (status (aw st'))) = sint (Retries (status (aw st))) + 1
           \<and> Retries (status (aw st')) \<le>s retryLimit r (aw st)
           \<and> Phase (status (aw st')) = AppWrapperResetting)
        \<and> (\<not> Retries (status (aw st)) <s retryLimit r (aw st) \<longrightarrow>
             Retries (status (aw st')) = Retries (status (aw st))
             \<and> Phase (status (aw st')) = AppWrapperFailed)
        \<and> (Retries (status (aw st)) \<le>s retryLimit r (aw st) \<longrightarrow>
             Retries (status (aw st')) \<le>s retryLimit r (aw st))
        \<and> (statusUpdateError env = None \<longrightarrow>
             err = None \<and> status (stored st') = status (aw st'))
        \<and> (statusUpdateError env \<noteq> None \<longrightarrow>
             err = statusUpdateError env \<and> stored st' = stored st))"
proof (cases "Retries (status (aw st)) <s retryLimit r (aw st)")
  case True
  have le: "Retries (status (aw st)) + 1 \<le>s retryLimit r (aw st)"
    using True sint_succ [OF True] by (simp add: word_sle_eq word_sless_alt)
  show ?thesis
    using True le sint_succ [OF True]
    by (auto simp add: resetOrFail_def updateStatus_cases Let_def word_sle_eq word_sless_alt
          split: option.split)
next
  case False
  then show ?thesis
    by (auto simp add: resetOrFail_def updateStatus_cases Let_def split: option.split)
qed

lemma example_in_fields [simp]:
  "Phase (status (example_in phase n cs)) = phase"
  "Retries (status (example_in phase n cs)) = n"
  "Conditions (status (example_in phase n cs)) = cs"
  "Annotations (example_in phase n cs) = Map.empty"
  "Suspend (example_in phase n cs) = False"
  "DeletionTimestamp (example_in phase n cs) = None"
  "Finalizers (example_in phase n cs) = []"
  by (simp_all add: example_in_def example_aw_def)

lemma example_retryLimit [simp]:
  "retryLimit example_reconciler (example_in phase n cs) = 3"
  by (simp add: retryLimit_def example_config_fields)

lemma example_env_fields [simp]:
  "statusUpdateError example_env = None"
  "updateError example_env = None"
  "ensureError example_env = None"
  "createComponents example_env = None"
  "deleteComponents example_env"
  "getComponent example_env k = None"
  "listPods example_env = Inr [PodSucceeded, PodUnknown]"
  "ExpectedPodCount example_env = 1"
  "now example_env = 1000000000000"
  by (simp_all add: example_env_def Second_def)

theorem resetOrFail_bounded_witness:
  "Retries (status (example_in AppWrapperRunning 2 [])) <s
     retryLimit example_reconciler (example_in AppWrapperRunning 2 [])
   \<and> sint (Retries (status (stored (fst (resetOrFail example_reconciler example_env
        \<lparr>aw = example_in AppWrapperRunning 2 [],
         stored = example_in AppWrapperRunning 2 []\<rparr>))))) = 3
   \<and> Phase (status (stored (fst (resetOrFail example_reconciler example_env
        \<lparr>aw = example_in AppWrapperRunning 2 [],
         stored = example_in AppWrapperRunning 2 []\<rparr>)))) = AppWrapperResetting
   \<and> \<not> Retries (status (example_in AppWrapperRunning 3 [])) <s
     retryLimit example_reconciler (example_in AppWrapperRunning 3 [])
   \<and> Retries (status (stored (fst (resetOrFail example_reconciler example_env
        \<lparr>aw = example_in AppWrapperRunning 3 [],
         stored = example_in AppWrapperRunning 3 []\<rparr>)))) = 3
   \<and> Phase (status (stored (fst (resetOrFail example_reconciler example_env
        \<lparr>aw = example_in AppWrapperRunning 3 [],
         stored = example_in AppWrapperRunning 3 []\<rparr>)))) = AppWrapperFailed"
  using resetOrFail_bounded [where r = example_reconciler and env = example_env
          and st = "\<lparr>aw = example_in AppWrapperRunning 2 [],
                     stored = example_in AppWrapperRunning 2 []\<rparr>"]
        resetOrFail_bounded [where r = example_reconciler and env = example_env
          and st = "\<lparr>aw = example_in AppWrapperRunning 3 [],
                     stored = example_in AppWrapperRunning 3 []\<rparr>"]
  by (simp add: word_sless_alt split: prod.splits)

section \<open>Properties of the entry of a reconciliation\<close>

text \<open>
  C9 fails on the code: whatever the error of the initial fetch is (not found, conflict,
  unavailable), the invocation ends with an empty result and no error, having written
  nothing. A transient error is not propagated.
\<close>

theorem fetch_error_is_swallowed:
  "Reconcile r env (Inl err) = (None, 0, None)"
  by (simp add: Reconcile_def)

section \<open>Properties of the Condition Ledger\<close>

lemma condition_types_distinct [simp]:
  "QuotaReserved \<noteq> ResourcesDeployed" "QuotaReserved \<noteq> PodsReady"
  "QuotaReserved \<noteq> Unhealthy" "QuotaReserved \<noteq> DeletingResources"
  "ResourcesDeployed \<noteq> QuotaReserved" "ResourcesDeployed \<noteq> PodsReady"
  "ResourcesDeployed \<noteq> Unhealthy" "ResourcesDeployed \<noteq> DeletingResources"
  "PodsReady \<noteq> QuotaReserved" "PodsReady \<noteq> ResourcesDeployed"
  "PodsReady \<noteq> Unhealthy" "PodsReady \<noteq> DeletingResources"
  "Unhealthy \<noteq> QuotaReserved" "Unhealthy \<noteq> ResourcesDeployed"
  "Unhealthy \<noteq> PodsReady" "Unhealthy \<noteq> DeletingResources"
  "DeletingResources \<noteq> QuotaReserved" "DeletingResources \<noteq> ResourcesDeployed"
  "DeletingResources \<noteq> PodsReady" "DeletingResources \<noteq> Unhealthy"
  by (simp_all add: QuotaReserved_def ResourcesDeployed_def PodsReady_def Unhealthy_def
        DeletingResources_def)

lemma mkCondition_fields [simp]:
  "Type (mkCondition t s reason message) = t"
  "Status (mkCondition t s reason message) = s"
  "Reason (mkCondition t s reason message) = reason"
  "Message (mkCondition t s reason message) = message"
  "ObservedGeneration (mkCondition t s reason message) = 0"
  "LastTransitionTime (mkCondition t s reason message) = 0"
  by (simp_all add: mkCondition_def)

lemma updateExisting_fields [simp]:
  "Type (updateExisting tm e n) = Type e"
  "Status (updateExisting tm e n) = Status n"
  "Reason (updateExisting tm e n) = Reason n"
  "Message (updateExisting tm e n) = Message n"
  "ObservedGeneration (updateExisting tm e n) = ObservedGeneration n"
  by (simp_all add: updateExisting_def Let_def)

lemma updateExisting_time:
  "LastTransitionTime (updateExisting tm e n) =
     (if Status e = Status n then LastTransitionTime e
      else if IsZero (LastTransitionTime n) then tm else LastTransitionTime n)"
  by (simp add: updateExisting_def Let_def)

text \<open>Setting a condition leaves the conditions of every other type as they are.\<close>

lemma Find_Set_other:
  "t \<noteq> Type c \<Longrightarrow>
     FindStatusCondition (SetStatusCondition tm cs c) t = FindStatusCondition cs t"
  by (induction cs) auto

text \<open>After setting a condition, the first condition of its type carries the new status,
  reason and message.\<close>

lemma Find_Set_same:
  "\<exists>e. FindStatusCondition (SetStatusCondition tm cs c) (Type c) = Some e
        \<and> Type e = Type c \<and> Status e = Status c \<and> Reason e = Reason c
        \<and> Message e = Message c \<and> ObservedGeneration e = ObservedGeneration c"
  by (induction cs) auto

lemma Find_Type: "FindStatusCondition cs t = Some e \<Longrightarrow> Type e = t"
  by (induction cs) (auto split: if_splits)

lemma IsTrue_Set_other [simp]:
  "t \<noteq> Type c \<Longrightarrow>
     IsStatusConditionTrue (SetStatusCondition tm cs c) t = IsStatusConditionTrue cs t"
  by (simp add: IsStatusConditionTrue_def Find_Set_other)

lemma IsTrue_Set_same [simp]:
  "Type c = t \<Longrightarrow>
     IsStatusConditionTrue (SetStatusCondition tm cs c) t = (Status c = ConditionTrue)"
  using Find_Set_same [of tm cs c] by (auto simp add: IsStatusConditionTrue_def)

lemma records_Set_same [simp]:
  "records (SetStatusCondition tm cs (mkCondition t s reason message)) t s reason message"
  using Find_Set_same [of tm cs "mkCondition t s reason message"]
  by (auto simp add: records_def)

lemma records_Set_other [simp]:
  "t \<noteq> Type c \<Longrightarrow>
     records (SetStatusCondition tm cs c) t s reason message = records cs t s reason message"
  by (simp add: records_def Find_Set_other)

text \<open>
  A condition agrees with the ledger when the first condition of its type already has its
  status, reason, message and generation; setting it then changes nothing.
\<close>

lemma Set_unchanged:
  "FindStatusCondition cs (Type c) = Some e \<Longrightarrow> Status e = Status c \<Longrightarrow>
   Reason e = Reason c \<Longrightarrow> Message e = Message c \<Longrightarrow>
   ObservedGeneration e = ObservedGeneration c \<Longrightarrow>
     SetStatusCondition tm cs c = cs"
  by (induction cs) (auto simp add: updateExisting_def split: if_splits)

lemma Set_idempotent:
  "SetStatusCondition tm (SetStatusCondition tm cs c) c = SetStatusCondition tm cs c"
  using Find_Set_same [of tm cs c] by (auto intro: Set_unchanged)

section \<open>Effects of the state operations\<close>

lemma withConditions_fields [simp]:
  "Conditions (status (withConditions a cs)) = cs"
  "Phase (status (withConditions a cs)) = Phase (status a)"
  "Retries (status (withConditions a cs)) = Retries (status a)"
  "ComponentStatus (status (withConditions a cs)) = ComponentStatus (status a)"
  "Annotations (withConditions a cs) = Annotations a"
  "Finalizers (withConditions a cs) = Finalizers a"
  "Suspend (withConditions a cs) = Suspend a"
  "DeletionTimestamp (withConditions a cs) = DeletionTimestamp a"
  by (simp_all add: withConditions_def)

lemma withComponentStatus_fields [simp]:
  "Conditions (status (withComponentStatus a cs)) = Conditions (status a)"
  "Phase (status (withComponentStatus a cs)) = Phase (status a)"
  "Retries (status (withComponentStatus a cs)) = Retries (status a)"
  "ComponentStatus (status (withComponentStatus a cs)) = cs"
  "Annotations (withComponentStatus a cs) = Annotations a"
  "Finalizers (withComponentStatus a cs) = Finalizers a"
  "Suspend (withComponentStatus a cs) = Suspend a"
  "DeletionTimestamp (withComponentStatus a cs) = DeletionTimestamp a"
  by (simp_all add: withComponentStatus_def)

lemma setCondition_fields [simp]:
  "Conditions (status (setCondition tm a c)) = SetStatusCondition tm (Conditions (status a)) c"
  "Phase (status (setCondition tm a c)) = Phase (status a)"
  "Retries (status (setCondition tm a c)) = Retries (status a)"
  "ComponentStatus (status (setCondition tm a c)) = ComponentStatus (status a)"
  "Annotations (setCondition tm a c) = Annotations a"
  "Finalizers (setCondition tm a c) = Finalizers a"
  "Suspend (setCondition tm a c) = Suspend a"
  "DeletionTimestamp (setCondition tm a c) = DeletionTimestamp a"
  by (simp_all add: setCondition_def)

lemma clearCondition_fields [simp]:
  "Phase (status (clearCondition tm a t reason message)) = Phase (status a)"
  "Retries (status (clearCondition tm a t reason message)) = Retries (status a)"
  "ComponentStatus (status (clearCondition tm a t reason message)) = ComponentStatus (status a)"
  "Annotations (clearCondition tm a t reason message) = Annotations a"
  "Finalizers (clearCondition tm a t reason message) = Finalizers a"
  "Suspend (clearCondition tm a t reason message) = Suspend a"
  "DeletionTimestamp (clearCondition tm a t reason message) = DeletionTimestamp a"
  by (simp_all add: clearCondition_def)

lemma clearCondition_conditions:
  "Conditions (status (clearCondition tm a t reason message)) =
     (if IsStatusConditionTrue (Conditions (status a)) t
      then SetStatusCondition tm (Conditions (status a))
             (mkCondition t ConditionFalse reason message)
      else Conditions (status a))"
  by (simp add: clearCondition_def)

lemma clearCondition_not_true [simp]:
  "\<not> IsStatusConditionTrue (Conditions (status (clearCondition tm a t reason message))) t"
  by (simp add: clearCondition_conditions)

lemma clearCondition_other_true [simp]:
  "t' \<noteq> t \<Longrightarrow>
     IsStatusConditionTrue (Conditions (status (clearCondition tm a t reason message))) t'
       = IsStatusConditionTrue (Conditions (status a)) t'"
  by (simp add: clearCondition_conditions)

lemma clearCondition_other_find [simp]:
  "t' \<noteq> t \<Longrightarrow>
     FindStatusCondition (Conditions (status (clearCondition tm a t reason message))) t'
       = FindStatusCondition (Conditions (status a)) t'"
  by (simp add: clearCondition_conditions Find_Set_other)

lemma setCond_fields [simp]:
  "aw (setCond env st c) = setCondition (now env) (aw st) c"
  "stored (setCond env st c) = stored st"
  by (simp_all add: setCond_def)

lemma clearCond_fields [simp]:
  "aw (clearCond env st t reason message) = clearCondition (now env) (aw st) t reason message"
  "stored (clearCond env st t reason message) = stored st"
  by (simp_all add: clearCond_def)

lemma requeueWithStatusUpdate_cases:
  "requeueWithStatusUpdate env st d =
     (case statusUpdateError env of
        Some err \<Rightarrow> (st, d, Some err)
      | None \<Rightarrow>
          (let written = (stored st)\<lparr>status := status (aw st)\<rparr>
           in (\<lparr>aw = written, stored = written\<rparr>, d, None)))"
  by (simp add: requeueWithStatusUpdate_def StatusUpdate_def Let_def split: option.split)

section \<open>Properties of the Status Aggregator\<close>

lemma countPods_ignores_unknown:
  "countPods pods s = countPods (filter (\<lambda>p. p \<noteq> PodUnknown) pods) s"
  by (induction pods arbitrary: s) (auto split: PodPhase.split)

lemma getComponentStatus_frame:
  assumes "getComponentStatus env a = (res, a')"
  shows "Conditions (status a') = Conditions (status a)
       \<and> Phase (status a') = Phase (status a)
       \<and> Retries (status a') = Retries (status a)
       \<and> Annotations a' = Annotations a
       \<and> Suspend a' = Suspend a
       \<and> Finalizers a' = Finalizers a"
  using assms
  by (auto simp add: getComponentStatus_def Let_def split: prod.splits sum.splits)

lemma example_getComponentStatus:
  "getComponentStatus example_env (example_in phase n cs) =
     (Inr \<lparr>expectedComponents = 1, deployed = 1\<rparr>, example_in phase n cs)"
  by (simp add: getComponentStatus_def example_in_def example_aw_def withComponentStatus_def)

lemma example_getPodStatus:
  "getPodStatus example_env =
     Inr \<lparr>expected = 1, pending = 0, running = 0, succeeded = 1, failed = 0\<rparr>"
  by (simp add: getPodStatus_def)

lemma example_not_deleted [simp]: "\<not> deletionRequested (example_in phase n cs)"
  by (simp add: deletionRequested_def)

text \<open>
  C10. A pod in the \<open>Unknown\<close> phase changes no counter of the pod-status summary: the
  summary of a list of pods is that of the list without them, and there is a list whose
  counters sum to less than its length. A workload in \<open>Running\<close> whose summary passes the
  success test goes to \<open>Succeeded\<close> although one of the matching pods is \<open>Unknown\<close>.
\<close>

theorem unknown_pods_not_counted:
  "countPods pods s = countPods (filter (\<lambda>p. p \<noteq> PodUnknown) pods) s
   \<and> (\<exists>pods'. counted (countPods pods'
                  \<lparr>expected = n, pending = 0, running = 0, succeeded = 0, failed = 0\<rparr>)
                < int (length pods'))
   \<and> (Phase (status a) = AppWrapperRunning \<and> \<not> deletionRequested a \<and> \<not> Suspend a
        \<and> getComponentStatus env a = (Inr compStatus, a')
        \<and> deployed compStatus = expectedComponents compStatus
        \<and> listPods env = Inr podList \<and> PodUnknown \<in> set podList
        \<and> getPodStatus env = Inr podStatus
        \<and> expected podStatus \<le>s succeeded podStatus
        \<and> pending podStatus + running podStatus + failed podStatus = 0
        \<and> statusUpdateError env = None
      \<longrightarrow> Phase (status (stored (fst (reconcileAppWrapper r env a)))) = AppWrapperSucceeded)"
proof -
  have "counted (countPods [PodUnknown]
                  \<lparr>expected = n, pending = 0, running = 0, succeeded = 0, failed = 0\<rparr>)
          < int (length [PodUnknown])"
    by (simp add: counted_def)
  then have ex: "\<exists>pods'. counted (countPods pods'
                  \<lparr>expected = n, pending = 0, running = 0, succeeded = 0, failed = 0\<rparr>)
                < int (length pods')"
    by blast
  have "Phase (status (stored (fst (reconcileAppWrapper r env a)))) = AppWrapperSucceeded"
    if "Phase (status a) = AppWrapperRunning" "\<not> deletionRequested a" "\<not> Suspend a"
       "getComponentStatus env a = (Inr compStatus, a')"
       "deployed compStatus = expectedComponents compStatus"
       "getPodStatus env = Inr podStatus"
       "expected podStatus \<le>s succeeded podStatus"
       "pending podStatus + running podStatus + failed podStatus = 0"
       "statusUpdateError env = None"
    using that
    by (simp add: reconcileAppWrapper_def reconcileRunning_def reconcileRunningPods_def
          updateStatus_cases Let_def)
  with ex show ?thesis
    using countPods_ignores_unknown [of pods s] by blast
qed

theorem unknown_pods_not_counted_witness:
  "listPods example_env = Inr [PodSucceeded, PodUnknown]
   \<and> getPodStatus example_env
       = Inr \<lparr>expected = 1, pending = 0, running = 0, succeeded = 1, failed = 0\<rparr>
   \<and> counted \<lparr>expected = 1, pending = 0, running = 0, succeeded = 1, failed = 0\<rparr> = 1
   \<and> Phase (status (stored (fst (reconcileAppWrapper example_reconciler example_env
        (example_in AppWrapperRunning 0 example_resumed))))) = AppWrapperSucceeded"
  using unknown_pods_not_counted [where a = "example_in AppWrapperRunning 0 example_resumed"
          and env = example_env and r = example_reconciler
          and compStatus = "\<lparr>expectedComponents = 1, deployed = 1\<rparr>"
          and a' = "example_in AppWrapperRunning 0 example_resumed"
          and podList = "[PodSucceeded, PodUnknown]"
          and podStatus = "\<lparr>expected = 1, pending = 0, running = 0, succeeded = 1, failed = 0\<rparr>"]
  by (simp add: example_getComponentStatus example_getPodStatus counted_def word_sle_eq)

section \<open>Properties of the phase \<open>Running\<close>\<close>

text \<open>
  C7. A workload in \<open>Running\<close> that is not suspended, and whose component-status summary
  reports fewer deployed components than expected: the reconciliation records
  \<open>Unhealthy\<close> as true with the reason \<open>MissingComponent\<close> and sets the phase to \<open>Failed\<close>
  at once, whatever the clock reads, asking for no requeue; the retries are unchanged.
  The new status is the stored one when the status update succeeds; when it fails, the
  store is unchanged and the error is returned.
\<close>

theorem missing_component_fails:
  assumes "Phase (status a) = AppWrapperRunning"
    and "\<not> deletionRequested a"
    and "\<not> Suspend a"
    and "getComponentStatus env a = (Inr compStatus, a')"
    and "deployed compStatus <s expectedComponents compStatus"
  shows "case reconcileAppWrapper r env a of
           (st', requeueAfter, err) \<Rightarrow>
             Phase (status (aw st')) = AppWrapperFailed
             \<and> Retries (status (aw st')) = Retries (status a)
             \<and> records (conds st') Unhealthy ConditionTrue ''MissingComponent''
                 (''Only found '' @ string_of_int32 (deployed compStatus)
                    @ '' deployed components, but was expecting ''
                    @ string_of_int32 (expectedComponents compStatus))
             \<and> requeueAfter = 0
             \<and> (statusUpdateError env = None \<longrightarrow>
                  err = None \<and> status (stored st') = status (aw st'))
             \<and> (statusUpdateError env \<noteq> None \<longrightarrow>
                  err = statusUpdateError env \<and> stored st' = a)"
proof -
  have ne: "deployed compStatus \<noteq> expectedComponents compStatus"
    using assms(5) by (auto simp add: word_sless_alt)
  note frame = getComponentStatus_frame [OF assms(4)]
  show ?thesis
    using assms(1-4) ne frame
    by (auto simp add: reconcileAppWrapper_def reconcileRunning_def updateStatus_cases
          Let_def conds_def split: option.split)
qed

lemma example_missing_component:
  "fst (getComponentStatus (example_env\<lparr>getComponent := (\<lambda>k. Some NotFound)\<rparr>)
          (example_in phase n cs))
     = Inr \<lparr>expectedComponents = 1, deployed = 0\<rparr>"
  by (simp add: getComponentStatus_def example_in_def example_aw_def)

theorem missing_component_fails_witness:
  "deployed \<lparr>expectedComponents = 1, deployed = 0\<rparr>
     <s expectedComponents \<lparr>expectedComponents = 1, deployed = 0\<rparr>
   \<and> Phase (status (stored (fst (reconcileAppWrapper example_reconciler
        (example_env\<lparr>getComponent := (\<lambda>k. Some NotFound)\<rparr>)
        (example_in AppWrapperRunning 1 example_resumed))))) = AppWrapperFailed
   \<and> Retries (status (stored (fst (reconcileAppWrapper example_reconciler
        (example_env\<lparr>getComponent := (\<lambda>k. Some NotFound)\<rparr>)
        (example_in AppWrapperRunning 1 example_resumed))))) = 1
   \<and> records (Conditions (status (stored (fst (reconcileAppWrapper example_reconciler
        (example_env\<lparr>getComponent := (\<lambda>k. Some NotFound)\<rparr>)
        (example_in AppWrapperRunning 1 example_resumed))))))
       Unhealthy ConditionTrue ''MissingComponent''
       ''Only found 0 deployed components, but was expecting 1''"
proof -
  let ?env = "example_env\<lparr>getComponent := (\<lambda>k. Some NotFound)\<rparr>"
  let ?a = "example_in AppWrapperRunning 1 example_resumed"
  have lt: "deployed \<lparr>expectedComponents = 1, deployed = 0\<rparr>
              <s expectedComponents \<lparr>expectedComponents = 1, deployed = 0\<rparr>"
    by (simp add: word_sless_alt)
  have get: "getComponentStatus ?env ?a
               = (Inr \<lparr>expectedComponents = 1, deployed = 0\<rparr>, snd (getComponentStatus ?env ?a))"
    using example_missing_component [of AppWrapperRunning 1 example_resumed]
    by (simp add: prod_eq_iff)
  have upd: "statusUpdateError ?env = None"
    by simp
  have strs: "string_of_int32 0 = ''0''" "string_of_int32 1 = ''1''"
    by (simp_all add: string_of_int32_def digit_char_def)
  show ?thesis
    using missing_component_fails [where r = example_reconciler, OF _ _ _ get lt] lt upd
    by (simp add: conds_def strs split: prod.splits)
qed

lemma nonneg_sum_zero:
  fixes p q :: int32
  assumes "0 \<le>s p" and "0 \<le>s q" and "p + q = 0"
  shows "p = 0 \<and> q = 0"
proof -
  have p: "0 \<le> sint p" and q: "0 \<le> sint q"
    using assms(1,2) by (simp_all add: word_sle_eq)
  have pu: "sint p < 2 ^ 31" using sint_lt [of p] by simp
  have qu: "sint q < 2 ^ 31" using sint_lt [of q] by simp
  have "sint (p + q) = signed_take_bit 31 (sint p + sint q)"
    by (simp add: sint_word_ariths)
  then have "signed_take_bit 31 (sint p + sint q) = signed_take_bit 31 0"
    using assms(3) by simp
  then have "take_bit (Suc 31) (sint p + sint q) = take_bit (Suc 31) (0::int)"
    by (simp only: signed_take_bit_eq_iff_take_bit_eq)
  then have "take_bit 32 (sint p + sint q) = take_bit 32 (0::int)"
    by simp
  then have "(sint p + sint q) mod 2 ^ 32 = 0"
    by (simp add: take_bit_eq_mod)
  then have "sint p + sint q = 0"
    using p q pu qu by simp
  then have "sint p = 0" "sint q = 0"
    using p q by simp_all
  then show ?thesis
    by (simp add: signed_eq_0_iff)
qed

lemma grace_depends_on_annotations:
  assumes "Annotations a1 = Annotations a2"
  shows "warmupGraceDuration r a1 = warmupGraceDuration r a2"
    and "admissionGraceDuration r a1 = admissionGraceDuration r a2"
    and "failureGraceDuration r a1 = failureGraceDuration r a2"
    and "retryPauseDuration r a1 = retryPauseDuration r a2"
    and "deletionOnFailureGraceDuration r a1 = deletionOnFailureGraceDuration r a2"
    and "timeToLiveAfterSucceededDuration r a1 = timeToLiveAfterSucceededDuration r a2"
    and "retryLimit r a1 = retryLimit r a2"
  using assms
  by (simp_all add: warmupGraceDuration_def admissionGraceDuration_def
        failureGraceDuration_def retryPauseDuration_def deletionOnFailureGraceDuration_def
        timeToLiveAfterSucceededDuration_def retryLimit_def)

lemma not_ready_within_grace_step:
  assumes "Phase (status a) = AppWrapperRunning"
    and "\<not> deletionRequested a"
    and "\<not> Suspend a"
    and "getComponentStatus env a = (Inr compStatus, a')"
    and "deployed compStatus = expectedComponents compStatus"
    and "getPodStatus env = Inr podStatus"
    and "failed podStatus = 0"
    and "0 \<le>s pending podStatus"
    and "0 \<le>s running podStatus"
    and "\<not> expected podStatus \<le>s running podStatus + succeeded podStatus"
    and "FindStatusCondition (Conditions (status a)) ResourcesDeployed = Some c"
    and "Time_Before (now env)
           (Time_Add (LastTransitionTime c)
              (if expected podStatus
                    \<le>s pending podStatus + running podStatus + succeeded podStatus
               then warmupGraceDuration r a else admissionGraceDuration r a))"
  shows "reconcileAppWrapper r env a =
           requeueWithStatusUpdate env
             \<lparr>aw = clearCondition (now env)
                     (clearCondition (now env) a' Unhealthy ''FoundNoFailedPods'' [])
                     PodsReady ''InsufficientPodsReady'' (podDetailsMessage podStatus),
              stored = a\<rparr>
             (5 * Second)"
proof -
  note frame = getComponentStatus_frame [OF assms(4)]
  have no_success:
    "\<not> (expected podStatus \<le>s succeeded podStatus
        \<and> pending podStatus + running podStatus + failed podStatus = 0)"
  proof
    assume s: "expected podStatus \<le>s succeeded podStatus
        \<and> pending podStatus + running podStatus + failed podStatus = 0"
    then have "pending podStatus + running podStatus = 0"
      using assms(7) by simp
    then have "running podStatus = 0"
      using nonneg_sum_zero [OF assms(8) assms(9)] by simp
    with s assms(10) show False by simp
  qed
  have no_failed: "\<not> 0 <s failed podStatus"
    using assms(7) by (simp add: word_sless_alt)
  let ?a1 = "clearCondition (now env) a' Unhealthy ''FoundNoFailedPods'' []"
  let ?msg = "podDetailsMessage podStatus"
  let ?a2 = "clearCondition (now env) ?a1 PodsReady ''InsufficientPodsReady'' ?msg"
  have ann: "Annotations ?a2 = Annotations a"
    using frame by simp
  have find: "FindStatusCondition (Conditions (status ?a2)) ResourcesDeployed = Some c"
    using frame assms(11) by simp
  have before: "Time_Before (now env)
           (Time_Add (LastTransitionTime c)
              (if expected podStatus
                    \<le>s pending podStatus + running podStatus + succeeded podStatus
               then warmupGraceDuration r ?a2 else admissionGraceDuration r ?a2))"
    unfolding grace_depends_on_annotations(1,2) [OF ann, of r] by (rule assms(12))
  have pods: "reconcileRunningPods r env \<lparr>aw = a', stored = a\<rparr>
                = requeueWithStatusUpdate env \<lparr>aw = ?a2, stored = a\<rparr> (5 * Second)"
    using assms(6) assms(10) no_success no_failed find before
    by (cases "expected podStatus \<le>s succeeded podStatus")
       (auto simp add: reconcileRunningPods_def Let_def conds_def clearCond_def
          split: if_splits)
  have run: "reconcileAppWrapper r env a
                = requeueWithStatusUpdate env \<lparr>aw = ?a2, stored = a\<rparr> (5 * Second)"
    using assms(1-5) pods
    by (simp add: reconcileAppWrapper_def reconcileRunning_def Let_def)
  show ?thesis by (rule run)
qed

text \<open>
  C8 (as amended). A workload in \<open>Running\<close> that is not suspended, with all its components
  deployed, no failed pod and fewer ready pods than expected, while the applicable grace
  period (warmup when pending, running and succeeded pods together reach the expected
  count, admission otherwise) has not elapsed since \<open>ResourcesDeployed\<close> last changed:
  the phase remains \<open>Running\<close>; \<open>PodsReady\<close> is not true afterwards (it is set to false with
  the reason \<open>InsufficientPodsReady\<close> and the pod counts as message if it was true, and is
  left as it was otherwise); and the requeue delay is five seconds, whatever time remains
  until the deadline.
\<close>

theorem not_ready_within_grace_polls:
  assumes "Phase (status a) = AppWrapperRunning"
    and "\<not> deletionRequested a"
    and "\<not> Suspend a"
    and "getComponentStatus env a = (Inr compStatus, a')"
    and "deployed compStatus = expectedComponents compStatus"
    and "getPodStatus env = Inr podStatus"
    and "failed podStatus = 0"
    and "0 \<le>s pending podStatus"
    and "0 \<le>s running podStatus"
    and "\<not> expected podStatus \<le>s running podStatus + succeeded podStatus"
    and "FindStatusCondition (Conditions (status a)) ResourcesDeployed = Some c"
    and "Time_Before (now env)
           (Time_Add (LastTransitionTime c)
              (if expected podStatus
                    \<le>s pending podStatus + running podStatus + succeeded podStatus
               then warmupGraceDuration r a else admissionGraceDuration r a))"
  shows "case reconcileAppWrapper r env a of
           (st', requeueAfter, err) \<Rightarrow>
             requeueAfter = 5 * Second
             \<and> Phase (status (aw st')) = AppWrapperRunning
             \<and> \<not> IsStatusConditionTrue (conds st') PodsReady
             \<and> (IsStatusConditionTrue (Conditions (status a)) PodsReady \<longrightarrow>
                  records (conds st') PodsReady ConditionFalse ''InsufficientPodsReady''
                    (podDetailsMessage podStatus))
             \<and> (\<not> IsStatusConditionTrue (Conditions (status a)) PodsReady \<longrightarrow>
                  FindStatusCondition (conds st') PodsReady
                    = FindStatusCondition (Conditions (status a)) PodsReady)
             \<and> err = statusUpdateError env
             \<and> (statusUpdateError env = None \<longrightarrow> status (stored st') = status (aw st'))
             \<and> (statusUpdateError env \<noteq> None \<longrightarrow> stored st' = a)"
proof -
  note frame = getComponentStatus_frame [OF assms(4)]
  let ?a1 = "clearCondition (now env) a' Unhealthy ''FoundNoFailedPods'' []"
  let ?msg = "podDetailsMessage podStatus"
  let ?a2 = "clearCondition (now env) ?a1 PodsReady ''InsufficientPodsReady'' ?msg"
  note run = not_ready_within_grace_step [OF assms]
  have ready_was_true:
    "records (Conditions (status ?a2)) PodsReady ConditionFalse ''InsufficientPodsReady'' ?msg"
    if "IsStatusConditionTrue (Conditions (status a)) PodsReady"
    using that frame by (simp add: clearCondition_conditions [of _ ?a1])
  have ready_was_not_true:
    "FindStatusCondition (Conditions (status ?a2)) PodsReady
       = FindStatusCondition (Conditions (status a)) PodsReady"
    if "\<not> IsStatusConditionTrue (Conditions (status a)) PodsReady"
    using that frame by (simp add: clearCondition_conditions [of _ ?a1])
  have phase: "Phase (status ?a2) = AppWrapperRunning"
    using frame assms(1) by simp
  have not_ready: "\<not> IsStatusConditionTrue (Conditions (status ?a2)) PodsReady"
    by simp
  show ?thesis
    unfolding run requeueWithStatusUpdate_cases
    using ready_was_true ready_was_not_true phase not_ready
    by (simp add: Let_def conds_def split: option.split)
qed

lemma example_components_found:
  assumes "getComponent env = (\<lambda>k. None)"
  shows "getComponentStatus env (example_in phase n cs) =
           (Inr \<lparr>expectedComponents = 1, deployed = 1\<rparr>, example_in phase n cs)"
  using assms
  by (simp add: getComponentStatus_def example_in_def example_aw_def withComponentStatus_def)

lemma example_resumed_find:
  "FindStatusCondition example_resumed ResourcesDeployed =
     Some \<lparr>Type = ResourcesDeployed, Status = ConditionTrue, ObservedGeneration = 0,
           LastTransitionTime = 990000000000,
           Reason = ''Resuming'', Message = ''Suspend is false''\<rparr>"
  by (simp add: example_resumed_def)

lemma example_warmup:
  "warmupGraceDuration example_reconciler (example_in phase n cs) = 300 * Second"
  by (simp add: warmupGraceDuration_def example_config_fields example_limits)

lemma example_pending_pod:
  "getPodStatus (example_env\<lparr>listPods := Inr [PodPending]\<rparr>) =
     Inr \<lparr>expected = 1, pending = 1, running = 0, succeeded = 0, failed = 0\<rparr>"
  by (simp add: getPodStatus_def)

lemma example_within_warmup:
  "Time_Before (now (example_env\<lparr>listPods := Inr [PodPending]\<rparr>))
     (Time_Add 990000000000 (300 * Second))"
  "Time_Sub (Time_Add 990000000000 (300 * Second))
     (now (example_env\<lparr>listPods := Inr [PodPending]\<rparr>)) = 290 * Second"
  by (simp_all add: Time_Before_def Time_Add_def Time_Sub_def Second_def)

theorem not_ready_within_grace_polls_witness:
  "Time_Before (now (example_env\<lparr>listPods := Inr [PodPending]\<rparr>))
     (Time_Add 990000000000 (300 * Second))
   \<and> fst (snd (reconcileAppWrapper example_reconciler
        (example_env\<lparr>listPods := Inr [PodPending]\<rparr>)
        (example_in AppWrapperRunning 0 example_resumed))) = 5 * Second
   \<and> Phase (status (stored (fst (reconcileAppWrapper example_reconciler
        (example_env\<lparr>listPods := Inr [PodPending]\<rparr>)
        (example_in AppWrapperRunning 0 example_resumed))))) = AppWrapperRunning
   \<and> \<not> IsStatusConditionTrue (Conditions (status (stored (fst (reconcileAppWrapper
        example_reconciler (example_env\<lparr>listPods := Inr [PodPending]\<rparr>)
        (example_in AppWrapperRunning 0 example_resumed)))))) PodsReady"
proof -
  let ?env = "example_env\<lparr>listPods := Inr [PodPending]\<rparr>"
  let ?a = "example_in AppWrapperRunning 0 example_resumed"
  let ?ps = "\<lparr>expected = 1, pending = 1, running = 0, succeeded = 0, failed = 0 :: int32\<rparr>"
  have comp: "getComponentStatus ?env ?a = (Inr \<lparr>expectedComponents = 1, deployed = 1\<rparr>, ?a)"
    by (rule example_components_found) (simp add: fun_eq_iff)
  have before: "Time_Before (now ?env)
           (Time_Add (LastTransitionTime
               \<lparr>Type = ResourcesDeployed, Status = ConditionTrue, ObservedGeneration = 0,
                LastTransitionTime = 990000000000,
                Reason = ''Resuming'', Message = ''Suspend is false''\<rparr>)
              (if expected ?ps \<le>s pending ?ps + running ?ps + succeeded ?ps
               then warmupGraceDuration example_reconciler ?a
               else admissionGraceDuration example_reconciler ?a))"
    using example_within_warmup(1) by (simp add: example_warmup word_sle_eq)
  have find: "FindStatusCondition (Conditions (status ?a)) ResourcesDeployed =
     Some \<lparr>Type = ResourcesDeployed, Status = ConditionTrue, ObservedGeneration = 0,
           LastTransitionTime = 990000000000,
           Reason = ''Resuming'', Message = ''Suspend is false''\<rparr>"
    by (simp add: example_resumed_find)
  have "case reconcileAppWrapper example_reconciler ?env ?a of
           (st', requeueAfter, err) \<Rightarrow>
             requeueAfter = 5 * Second
             \<and> Phase (status (aw st')) = AppWrapperRunning
             \<and> \<not> IsStatusConditionTrue (conds st') PodsReady
             \<and> (statusUpdateError ?env = None \<longrightarrow> status (stored st') = status (aw st'))"
    using not_ready_within_grace_polls [where r = example_reconciler and env = ?env and a = ?a
        and podStatus = ?ps, OF _ _ _ comp _ example_pending_pod _ _ _ _ find before]
    by (simp add: word_sle_eq split: prod.splits)
  then show ?thesis
    using example_within_warmup(1) by (simp add: conds_def split: prod.splits)
qed

text \<open>
  C8 as stated fails on the requeue delay. The example workload is \<open>Running\<close> with its
  resources deployed since the time of 990 seconds; at the time of 1000 seconds its one
  expected pod is pending, so the warmup grace period of 300 seconds applies and 290
  seconds remain until the deadline. The reconciliation asks for a requeue after 5 seconds.
\<close>

theorem not_ready_within_grace_counterexample:
  "getPodStatus (example_env\<lparr>listPods := Inr [PodPending]\<rparr>) =
     Inr \<lparr>expected = 1, pending = 1, running = 0, succeeded = 0, failed = 0\<rparr>
   \<and> warmupGraceDuration example_reconciler (example_in AppWrapperRunning 0 example_resumed)
       = 300 * Second
   \<and> Time_Before (now (example_env\<lparr>listPods := Inr [PodPending]\<rparr>))
       (Time_Add 990000000000 (300 * Second))
   \<and> Time_Sub (Time_Add 990000000000 (300 * Second))
       (now (example_env\<lparr>listPods := Inr [PodPending]\<rparr>)) = 290 * Second
   \<and> fst (snd (reconcileAppWrapper example_reconciler
        (example_env\<lparr>listPods := Inr [PodPending]\<rparr>)
        (example_in AppWrapperRunning 0 example_resumed))) = 5 * Second
   \<and> 5 * Second \<noteq> 290 * Second"
proof -
  let ?env = "example_env\<lparr>listPods := Inr [PodPending]\<rparr>"
  let ?a = "example_in AppWrapperRunning 0 example_resumed"
  let ?ps = "\<lparr>expected = 1, pending = 1, running = 0, succeeded = 0, failed = 0 :: int32\<rparr>"
  have comp: "getComponentStatus ?env ?a = (Inr \<lparr>expectedComponents = 1, deployed = 1\<rparr>, ?a)"
    by (rule example_components_found) (simp add: fun_eq_iff)
  have before: "Time_Before (now ?env)
           (Time_Add (LastTransitionTime
               \<lparr>Type = ResourcesDeployed, Status = ConditionTrue, ObservedGeneration = 0,
                LastTransitionTime = 990000000000,
                Reason = ''Resuming'', Message = ''Suspend is false''\<rparr>)
              (if expected ?ps \<le>s pending ?ps + running ?ps + succeeded ?ps
               then warmupGraceDuration example_reconciler ?a
               else admissionGraceDuration example_reconciler ?a))"
    using example_within_warmup(1) by (simp add: example_warmup word_sle_eq)
  have find: "FindStatusCondition (Conditions (status ?a)) ResourcesDeployed =
     Some \<lparr>Type = ResourcesDeployed, Status = ConditionTrue, ObservedGeneration = 0,
           LastTransitionTime = 990000000000,
           Reason = ''Resuming'', Message = ''Suspend is false''\<rparr>"
    by (simp add: example_resumed_find)
  have "fst (snd (reconcileAppWrapper example_reconciler ?env ?a)) = 5 * Second"
    using not_ready_within_grace_step [where r = example_reconciler and env = ?env and a = ?a
        and podStatus = ?ps, OF _ _ _ comp _ example_pending_pod _ _ _ _ find before]
    by (simp add: word_sle_eq requeueWithStatusUpdate_cases Let_def)
  moreover have "5 * Second \<noteq> 290 * Second"
    by (simp add: Second_def)
  ultimately show ?thesis
    using example_pending_pod example_warmup example_within_warmup by simp
qed

section \<open>Properties of the deletion protocol\<close>

lemma filter_length_changed:
  "length xs \<noteq> length (filter (\<lambda>x. x \<noteq> f) xs) \<longleftrightarrow> f \<in> set xs"
proof -
  have "length (filter (\<lambda>x. x \<noteq> f) xs) + length (filter (\<lambda>x. \<not> x \<noteq> f) xs) = length xs"
    by (rule sum_length_filter_compl)
  moreover have "length (filter (\<lambda>x. \<not> x \<noteq> f) xs) = 0 \<longleftrightarrow> f \<notin> set xs"
    by (auto simp add: filter_empty_conv)
  ultimately show ?thesis
    by linarith
qed

lemma RemoveFinalizer_removes:
  "\<not> ContainsFinalizer (fst (RemoveFinalizer a f)) f"
  "snd (RemoveFinalizer a f) = ContainsFinalizer a f"
  "status (fst (RemoveFinalizer a f)) = status a"
  by (simp_all add: RemoveFinalizer_def ContainsFinalizer_def Let_def filter_length_changed)

text \<open>
  C2. A workload marked for deletion that carries the finalizer. If \<open>ResourcesDeployed\<close>
  is true and the deletion of the children is not complete, the reconciliation asks for a
  requeue after five seconds, returns no error and leaves the stored finalizers as they
  are. If the finalizer is gone from the stored object afterwards, then the deletion of
  the children was complete whenever \<open>ResourcesDeployed\<close> was true, and neither
  \<open>ResourcesDeployed\<close> nor \<open>QuotaReserved\<close> is true in the stored status: each is recorded
  as false there if it was true before. And when the children are gone and the store
  accepts the writes, the finalizer is removed.
\<close>

theorem deletion_protocol:
  assumes "deletionRequested a"
    and "ContainsFinalizer a AppWrapperFinalizer"
  shows "case reconcileAppWrapper r env a of
           (st', requeueAfter, err) \<Rightarrow>
             (IsStatusConditionTrue (Conditions (status a)) ResourcesDeployed
                \<and> \<not> deleteComponents env \<longrightarrow>
                requeueAfter = 5 * Second \<and> err = None
                \<and> Finalizers (stored st') = Finalizers a)
             \<and> (\<not> ContainsFinalizer (stored st') AppWrapperFinalizer \<longrightarrow>
                  (IsStatusConditionTrue (Conditions (status a)) ResourcesDeployed
                     \<longrightarrow> deleteComponents env)
                  \<and> \<not> IsStatusConditionTrue (Conditions (status (stored st')))
                        ResourcesDeployed
                  \<and> \<not> IsStatusConditionTrue (Conditions (status (stored st')))
                        QuotaReserved
                  \<and> (IsStatusConditionTrue (Conditions (status a)) ResourcesDeployed \<longrightarrow>
                       records (Conditions (status (stored st'))) ResourcesDeployed
                         ConditionFalse ''Terminating'' ''Resources successfully deleted'')
                  \<and> (IsStatusConditionTrue (Conditions (status a)) QuotaReserved \<longrightarrow>
                       records (Conditions (status (stored st'))) QuotaReserved
                         ConditionFalse ''Terminating'' ''No resources deployed''))
             \<and> ((IsStatusConditionTrue (Conditions (status a)) ResourcesDeployed
                    \<longrightarrow> deleteComponents env)
                  \<and> statusUpdateError env = None \<and> updateError env = None \<longrightarrow>
                  \<not> ContainsFinalizer (stored st') AppWrapperFinalizer
                  \<and> requeueAfter = 0 \<and> err = None)"
proof (cases "IsStatusConditionTrue (Conditions (status a)) ResourcesDeployed
                \<and> \<not> deleteComponents env")
  case True
  then show ?thesis
    using assms
    by (auto simp add: reconcileAppWrapper_def reconcileDeletion_def conds_def
          StatusUpdate_def Let_def ContainsFinalizer_def split: option.split)
next
  case False
  show ?thesis
    using assms False
    by (auto simp add: reconcileAppWrapper_def reconcileDeletion_def conds_def
          StatusUpdate_def Update_def Let_def RemoveFinalizer_def ContainsFinalizer_def
          filter_length_changed split: option.split prod.split)
qed

lemma example_deleting_fields [simp]:
  "deletionRequested example_deleting"
  "ContainsFinalizer example_deleting AppWrapperFinalizer"
  "Finalizers example_deleting = [AppWrapperFinalizer]"
  "Conditions (status example_deleting) = example_resumed"
  "Phase (status example_deleting) = AppWrapperRunning"
  by (simp_all add: example_deleting_def deletionRequested_def IsZero_def ContainsFinalizer_def)

lemma example_resumed_true [simp]:
  "IsStatusConditionTrue example_resumed ResourcesDeployed"
  "IsStatusConditionTrue example_resumed QuotaReserved"
  by (simp_all add: example_resumed_def IsStatusConditionTrue_def)

theorem deletion_protocol_witness:
  "deletionRequested example_deleting
   \<and> ContainsFinalizer example_deleting AppWrapperFinalizer
   \<and> IsStatusConditionTrue (Conditions (status example_deleting)) ResourcesDeployed
   \<and> fst (snd (reconcileAppWrapper example_reconciler
        (example_env\<lparr>deleteComponents := False\<rparr>) example_deleting)) = 5 * Second
   \<and> Finalizers (stored (fst (reconcileAppWrapper example_reconciler
        (example_env\<lparr>deleteComponents := False\<rparr>) example_deleting)))
       = [AppWrapperFinalizer]
   \<and> \<not> ContainsFinalizer (stored (fst (reconcileAppWrapper example_reconciler
        example_env example_deleting))) AppWrapperFinalizer
   \<and> records (Conditions (status (stored (fst (reconcileAppWrapper example_reconciler
        example_env example_deleting))))) ResourcesDeployed
        ConditionFalse ''Terminating'' ''Resources successfully deleted''
   \<and> records (Conditions (status (stored (fst (reconcileAppWrapper example_reconciler
        example_env example_deleting))))) QuotaReserved
        ConditionFalse ''Terminating'' ''No resources deployed''"
  using deletion_protocol [where r = example_reconciler and a = example_deleting
          and env = "example_env\<lparr>deleteComponents := False\<rparr>"]
        deletion_protocol [where r = example_reconciler and a = example_deleting
          and env = example_env]
  by (simp split: prod.splits)

section \<open>Reconciling again\<close>

subsection \<open>The ledger under repeated writes\<close>

lemma agrees_Set_same [simp]: "agrees (SetStatusCondition tm cs c) c"
  using Find_Set_same [of tm cs c] by (auto simp add: agrees_def)

lemma agrees_Set_other [simp]:
  "Type c \<noteq> Type c' \<Longrightarrow> agrees (SetStatusCondition tm cs c') c = agrees cs c"
  by (simp add: agrees_def Find_Set_other)

lemma Set_agrees: "agrees cs c \<Longrightarrow> SetStatusCondition tm cs c = cs"
  by (auto simp add: agrees_def intro: Set_unchanged split: option.splits)

lemma Find_Set_distinct [simp]:
  "Type c \<noteq> t \<Longrightarrow>
     FindStatusCondition (SetStatusCondition tm cs c) t = FindStatusCondition cs t"
  by (rule Find_Set_other) auto

lemma Find_Set_exists:
  "Type c = t \<Longrightarrow> \<exists>e. FindStatusCondition (SetStatusCondition tm cs c) t = Some e"
  using Find_Set_same [of tm cs c] by auto

lemma cleared_not_true [simp]: "\<not> IsStatusConditionTrue (cleared tm cs t reason message) t"
  by (simp add: cleared_def)

lemma cleared_other_true [simp]:
  "t' \<noteq> t \<Longrightarrow>
     IsStatusConditionTrue (cleared tm cs t reason message) t' = IsStatusConditionTrue cs t'"
  by (simp add: cleared_def)

lemma cleared_other_find [simp]:
  "t' \<noteq> t \<Longrightarrow>
     FindStatusCondition (cleared tm cs t reason message) t' = FindStatusCondition cs t'"
  by (simp add: cleared_def)

lemma cleared_other_agrees [simp]:
  "Type c \<noteq> t \<Longrightarrow> agrees (cleared tm cs t reason message) c = agrees cs c"
  by (simp add: cleared_def)

lemma cleared_unchanged:
  "\<not> IsStatusConditionTrue cs t \<Longrightarrow> cleared tm cs t reason message = cs"
  by (simp add: cleared_def)

lemma clearCondition_cleared:
  "clearCondition tm a t reason message
     = withConditions a (cleared tm (Conditions (status a)) t reason message)"
  by (simp add: clearCondition_def cleared_def setCondition_def withConditions_def)

lemma store_withConditions [simp]:
  "a\<lparr>status := status (withConditions a cs)\<rparr> = withConditions a cs"
  "withConditions (withConditions a cs) cs' = withConditions a cs'"
  "withConditions a (Conditions (status a)) = a"
  by (simp_all add: withConditions_def)

lemma grace_of_withConditions [simp]:
  "deletionOnFailureGraceDuration r (withConditions a cs) = deletionOnFailureGraceDuration r a"
  "retryPauseDuration r (withConditions a cs) = retryPauseDuration r a"
  "failureGraceDuration r (withConditions a cs) = failureGraceDuration r a"
  "warmupGraceDuration r (withConditions a cs) = warmupGraceDuration r a"
  "admissionGraceDuration r (withConditions a cs) = admissionGraceDuration r a"
  "timeToLiveAfterSucceededDuration r (withConditions a cs)
     = timeToLiveAfterSucceededDuration r a"
  "retryLimit r (withConditions a cs) = retryLimit r a"
  by (simp_all add: withConditions_def warmupGraceDuration_def admissionGraceDuration_def
        failureGraceDuration_def retryPauseDuration_def deletionOnFailureGraceDuration_def
        timeToLiveAfterSucceededDuration_def retryLimit_def)

subsection \<open>The phase \<open>Failed\<close>\<close>

text \<open>What the phase \<open>Failed\<close> leaves in the store.\<close>

lemma failed_persisted:
  assumes delay: "delay = deletionOnFailureGraceDuration r a"
    and dC: "dC = mkCondition DeletingResources ConditionFalse ''DeletionPaused''
               (DeletionOnFailureGracePeriodAnnotation @ '' has value ''
                  @ DurationString r delay)"
    and rC: "rC = mkCondition ResourcesDeployed ConditionFalse (phase_string AppWrapperFailed)
               (if 0 <s delay \<and> Suspend a
                then ''Kueue forced resource deletion by suspending AppWrapper''
                else ''Resources deleted for failed AppWrapper'')"
    and qC: "qC = mkCondition QuotaReserved ConditionFalse (phase_string AppWrapperFailed)
               ''No resources deployed''"
    and paused: "paused = (0 <s delay \<and> \<not> Suspend a)"
    and cs1: "cs1 = (if paused then SetStatusCondition (now env) (Conditions (status a)) dC
                     else Conditions (status a))"
    and wait: "wait = (paused \<and>
                 (case FindStatusCondition cs1 DeletingResources of
                    None \<Rightarrow> False
                  | Some c \<Rightarrow> Time_Before (now env) (Time_Add (LastTransitionTime c) delay)))"
    and cs3: "cs3 = SetStatusCondition (now env)
                (if IsStatusConditionTrue cs1 ResourcesDeployed
                 then SetStatusCondition (now env) cs1 rC else cs1) qC"
  shows "stored (fst (reconcileFailed r env \<lparr>aw = a, stored = a\<rparr>)) =
           (if statusUpdateError env \<noteq> None
               \<or> (\<not> wait \<and> IsStatusConditionTrue cs1 ResourcesDeployed
                    \<and> \<not> deleteComponents env)
            then a
            else withConditions a (if wait then cs1 else cs3))"
proof -
  define m1 where "m1 = ''DeletionPaused''"
  define m2 where "m2 = '' has value ''"
  define m3 where "m3 = ''Kueue forced resource deletion by suspending AppWrapper''"
  define m4 where "m4 = ''Resources deleted for failed AppWrapper''"
  define m5 where "m5 = ''No resources deployed''"
  note folds = m1_def [symmetric] m2_def [symmetric] m3_def [symmetric] m4_def [symmetric]
    m5_def [symmetric]
  have found: "\<exists>c. FindStatusCondition cs1 DeletingResources = Some c" if paused
    using that by (simp add: cs1 dC Find_Set_exists del: phase_string.simps)
  show ?thesis
  proof (cases paused)
    case True
    obtain c where c: "FindStatusCondition cs1 DeletingResources = Some c"
      using found [OF True] by blast
    show ?thesis
      using True c
      unfolding cs3 wait cs1 rC qC dC paused delay
        reconcileFailed_def reconcileFailedCleanup_def folds
      by (simp add: requeueWithStatusUpdate_cases Let_def conds_def setCond_def
            setCondition_def del: phase_string.simps split: option.split)
  next
    case False
    show ?thesis
      using False
      unfolding cs3 wait cs1 rC qC dC paused delay
        reconcileFailed_def reconcileFailedCleanup_def folds
      by (simp add: requeueWithStatusUpdate_cases Let_def conds_def setCond_def
            setCondition_def del: phase_string.simps split: option.split)
  qed
qed

lemma failed_again:
  assumes a1: "a1 = stored (fst (reconcileFailed r env \<lparr>aw = a, stored = a\<rparr>))"
  shows "stored (fst (reconcileFailed r env \<lparr>aw = a1, stored = a1\<rparr>)) = a1
       \<and> DeletionTimestamp a1 = DeletionTimestamp a
       \<and> Phase (status a1) = Phase (status a)"
proof -
  define delay where "delay = deletionOnFailureGraceDuration r a"
  define dC where "dC = mkCondition DeletingResources ConditionFalse ''DeletionPaused''
               (DeletionOnFailureGracePeriodAnnotation @ '' has value ''
                  @ DurationString r delay)"
  define rC where "rC = mkCondition ResourcesDeployed ConditionFalse
               (phase_string AppWrapperFailed)
               (if 0 <s delay \<and> Suspend a
                then ''Kueue forced resource deletion by suspending AppWrapper''
                else ''Resources deleted for failed AppWrapper'')"
  define qC where "qC = mkCondition QuotaReserved ConditionFalse
               (phase_string AppWrapperFailed) ''No resources deployed''"
  define paused where "paused = (0 <s delay \<and> \<not> Suspend a)"
  define cs where "cs = Conditions (status a)"
  define cs1 where "cs1 = (if paused then SetStatusCondition (now env) (Conditions (status a)) dC
                     else Conditions (status a))"
  define wait where "wait = (paused \<and>
                 (case FindStatusCondition cs1 DeletingResources of
                    None \<Rightarrow> False
                  | Some c \<Rightarrow> Time_Before (now env) (Time_Add (LastTransitionTime c) delay)))"
  define cs3 where "cs3 = SetStatusCondition (now env)
                (if IsStatusConditionTrue cs1 ResourcesDeployed
                 then SetStatusCondition (now env) cs1 rC else cs1) qC"
  have types [simp]: "Type dC = DeletingResources" "Type rC = ResourcesDeployed"
    "Type qC = QuotaReserved" "Status rC = ConditionFalse" "Status qC = ConditionFalse"
    by (simp_all add: dC_def rC_def qC_def del: phase_string.simps)
  note first = failed_persisted [OF delay_def dC_def rC_def qC_def paused_def cs1_def
      wait_def cs3_def, folded a1]
  show ?thesis
  proof (cases "a1 = a")
    case True
    then show ?thesis using a1 by simp
  next
    case False
    define csX where "csX = (if wait then cs1 else cs3)"
    have ok: "statusUpdateError env = None" and form: "a1 = withConditions a csX"
      using first False by (auto simp add: csX_def split: if_splits)
    have dagrees: "agrees cs1 dC" if paused
      using that by (simp add: cs1_def)
    have agreesX: "agrees csX dC" if paused
      using that dagrees by (simp add: csX_def cs3_def)
    have findX: "FindStatusCondition csX DeletingResources
                   = FindStatusCondition cs1 DeletingResources"
      by (simp add: csX_def cs3_def)
    have delay1: "delay = deletionOnFailureGraceDuration r a1"
      by (simp add: form delay_def)
    have rC1: "rC = mkCondition ResourcesDeployed ConditionFalse
               (phase_string AppWrapperFailed)
               (if 0 <s delay \<and> Suspend a1
                then ''Kueue forced resource deletion by suspending AppWrapper''
                else ''Resources deleted for failed AppWrapper'')"
      unfolding rC_def form by (simp del: phase_string.simps)
    have paused1: "paused = (0 <s delay \<and> \<not> Suspend a1)"
      by (simp add: form paused_def)
    have cs1': "csX = (if paused then SetStatusCondition (now env) (Conditions (status a1)) dC
                     else Conditions (status a1))"
      using agreesX by (simp add: form Set_agrees)
    have wait1: "wait = (paused \<and>
                 (case FindStatusCondition csX DeletingResources of
                    None \<Rightarrow> False
                  | Some c \<Rightarrow> Time_Before (now env) (Time_Add (LastTransitionTime c) delay)))"
      by (simp add: findX wait_def)
    have not_deployed: "\<not> IsStatusConditionTrue csX ResourcesDeployed" if "\<not> wait"
      using that by (simp add: csX_def cs3_def)
    have cs3': "csX = SetStatusCondition (now env)
                (if IsStatusConditionTrue csX ResourcesDeployed
                 then SetStatusCondition (now env) csX rC else csX) qC" if "\<not> wait"
      using that not_deployed by (simp add: csX_def cs3_def Set_agrees)
    have second: "stored (fst (reconcileFailed r env \<lparr>aw = a1, stored = a1\<rparr>)) = a1"
    proof (cases wait)
      case True
      define cs3x where "cs3x = SetStatusCondition (now env)
                (if IsStatusConditionTrue csX ResourcesDeployed
                 then SetStatusCondition (now env) csX rC else csX) qC"
      show ?thesis
        using failed_persisted [OF delay1 dC_def rC1 qC_def paused1 cs1' wait1 cs3x_def]
          True ok
        by (simp add: form)
    next
      case False
      show ?thesis
        using failed_persisted [OF delay1 dC_def rC1 qC_def paused1 cs1' wait1
            cs3' [OF False]] False ok not_deployed
        by (simp add: form)
    qed
    show ?thesis
      using second by (simp add: form)
  qed
qed

subsection \<open>The phase \<open>Running\<close>\<close>

lemma store_withPhase [simp]:
  "a\<lparr>status := status (withPhase b p)\<rparr> = withPhase (a\<lparr>status := status b\<rparr>) p"
  "Phase (status (a\<lparr>status := status b\<rparr>)) = Phase (status b)"
  "a\<lparr>status := status a\<rparr> = a"
  by (simp_all add: withPhase_def)

lemma resetOrFail_persisted:
  "stored (fst (resetOrFail r env st)) = stored st
   \<or> Phase (status (stored (fst (resetOrFail r env st))))
        \<in> {AppWrapperResetting, AppWrapperFailed}"
  by (simp add: resetOrFail_def updateStatus_cases Let_def split: option.split)

text \<open>
  What the pod-level part of the phase \<open>Running\<close> leaves in the store: on three of its
  paths it stays in the phase and writes the conditions \<open>csX\<close>; on the others the store is
  unchanged or the phase moves.
\<close>

lemma pods_persisted:
  assumes ps: "getPodStatus env = Inr ps"
    and uC: "uC = mkCondition Unhealthy ConditionTrue ''FoundFailedPods'' []"
    and pC: "pC = mkCondition PodsReady ConditionTrue ''SufficientPodsReady''
               (string_of_int32 (running ps) @ '' pods running; ''
                  @ string_of_int32 (succeeded ps) @ '' pods succeeded'')"
    and cs0: "cs0 = SetStatusCondition (now env) (Conditions (status am)) uC"
    and cs1: "cs1 = cleared (now env) (Conditions (status am)) Unhealthy ''FoundNoFailedPods'' []"
    and cs2: "cs2 = cleared (now env) cs1 PodsReady ''InsufficientPodsReady''
                (podDetailsMessage ps)"
    and graceW: "graceW = (if expected ps \<le>s pending ps + running ps + succeeded ps
                           then warmupGraceDuration r am else admissionGraceDuration r am)"
    and stay: "stay =
       (if expected ps \<le>s succeeded ps \<and> pending ps + running ps + failed ps = 0 then None
        else if 0 <s failed ps then
          (case FindStatusCondition cs0 Unhealthy of
             None \<Rightarrow> None
           | Some c \<Rightarrow>
               if Time_Before (now env)
                    (Time_Add (LastTransitionTime c) (failureGraceDuration r am))
               then Some cs0 else None)
        else if expected ps \<le>s running ps + succeeded ps then
          Some (SetStatusCondition (now env) cs1 pC)
        else
          (case FindStatusCondition cs2 ResourcesDeployed of
             None \<Rightarrow> None
           | Some c \<Rightarrow>
               if Time_Before (now env) (Time_Add (LastTransitionTime c) graceW)
               then Some cs2 else None))"
  shows "case stay of
           Some csX \<Rightarrow>
             stored (fst (reconcileRunningPods r env \<lparr>aw = am, stored = a\<rparr>)) =
               (if statusUpdateError env = None
                then a\<lparr>status := status (withConditions am csX)\<rparr> else a)
         | None \<Rightarrow>
             stored (fst (reconcileRunningPods r env \<lparr>aw = am, stored = a\<rparr>)) = a
             \<or> Phase (status (stored (fst (reconcileRunningPods r env
                                             \<lparr>aw = am, stored = a\<rparr>))))
                  \<in> {AppWrapperSucceeded, AppWrapperResetting, AppWrapperFailed}"
proof -
  define m1 where "m1 = ''FoundFailedPods''"
  define m2 where "m2 = ''SufficientPodsReady''"
  define m3 where "m3 = '' pods running; ''"
  define m4 where "m4 = '' pods succeeded''"
  define m5 where "m5 = ''FoundNoFailedPods''"
  define m6 where "m6 = ''InsufficientPodsReady''"
  define m7 where "m7 = '' pods succeeded and no running, pending, or failed pods''"
  note folds = m1_def [symmetric] m2_def [symmetric] m3_def [symmetric] m4_def [symmetric]
    m5_def [symmetric] m6_def [symmetric] m7_def [symmetric]
  have annotations [simp]:
    "failureGraceDuration r (withConditions am cs) = failureGraceDuration r am"
    "warmupGraceDuration r (withConditions am cs) = warmupGraceDuration r am"
    "admissionGraceDuration r (withConditions am cs) = admissionGraceDuration r am" for cs
    by simp_all
  consider (success) "expected ps \<le>s succeeded ps \<and> pending ps + running ps + failed ps = 0"
    | (failed) "\<not> (expected ps \<le>s succeeded ps \<and> pending ps + running ps + failed ps = 0)"
        "0 <s failed ps"
    | (sufficient) "\<not> (expected ps \<le>s succeeded ps \<and> pending ps + running ps + failed ps = 0)"
        "\<not> 0 <s failed ps" "expected ps \<le>s running ps + succeeded ps"
    | (waiting) "\<not> (expected ps \<le>s succeeded ps \<and> pending ps + running ps + failed ps = 0)"
        "\<not> 0 <s failed ps" "\<not> expected ps \<le>s running ps + succeeded ps"
    by blast
  then show ?thesis
  proof cases
    case success
    then show ?thesis
      unfolding stay reconcileRunningPods_def folds
      by (simp add: ps updateStatus_cases Let_def del: phase_string.simps
            split: option.split)
  next
    case failed
    have nsucc: "(expected ps \<le>s succeeded ps
                  \<and> pending ps + running ps + failed ps = 0) = False"
      using failed(1) by simp
    obtain c where c: "FindStatusCondition cs0 Unhealthy = Some c"
      using Find_Set_exists [of uC Unhealthy "now env" "Conditions (status am)"]
      by (auto simp add: cs0 uC)
    have rof: "stored (fst (resetOrFail r env \<lparr>aw = withConditions am cs0, stored = a\<rparr>)) = a
        \<or> Phase (status (stored (fst (resetOrFail r env
                \<lparr>aw = withConditions am cs0, stored = a\<rparr>))))
             \<in> {AppWrapperResetting, AppWrapperFailed}"
      using resetOrFail_persisted [of r env "\<lparr>aw = withConditions am cs0, stored = a\<rparr>"]
      by simp
    show ?thesis
      using failed(2) c rof
      unfolding stay cs0 uC reconcileRunningPods_def folds
      by (auto simp add: nsucc ps requeueWithStatusUpdate_cases Let_def conds_def setCond_def
            setCondition_def simp del: phase_string.simps split: option.split)
  next
    case sufficient
    have nsucc: "(expected ps \<le>s succeeded ps
                  \<and> pending ps + running ps + failed ps = 0) = False"
      using sufficient(1) by simp
    show ?thesis
      using sufficient(2,3)
      unfolding stay cs1 pC reconcileRunningPods_def folds
      by (simp add: nsucc ps requeueWithStatusUpdate_cases Let_def conds_def setCond_def
            clearCond_def clearCondition_cleared setCondition_def
            del: phase_string.simps split: option.split)
  next
    case waiting
    have nsucc: "(expected ps \<le>s succeeded ps
                  \<and> pending ps + running ps + failed ps = 0) = False"
      using waiting(1) by simp
    define uI where "uI = mkCondition Unhealthy ConditionTrue ''InsufficientPodsReady''
                            (podDetailsMessage ps)"
    have rof: "stored (fst (resetOrFail r env
                 \<lparr>aw = withConditions am (SetStatusCondition (now env) cs2 uI), stored = a\<rparr>)) = a
        \<or> Phase (status (stored (fst (resetOrFail r env
                 \<lparr>aw = withConditions am (SetStatusCondition (now env) cs2 uI), stored = a\<rparr>))))
             \<in> {AppWrapperResetting, AppWrapperFailed}"
      using resetOrFail_persisted [of r env
          "\<lparr>aw = withConditions am (SetStatusCondition (now env) cs2 uI), stored = a\<rparr>"]
      by simp
    show ?thesis
      using waiting(2,3) rof
      unfolding stay cs2 cs1 graceW uI_def reconcileRunningPods_def folds
      by (auto simp add: nsucc ps requeueWithStatusUpdate_cases Let_def conds_def setCond_def
            clearCond_def clearCondition_cleared setCondition_def
            simp del: phase_string.simps split: option.split)
  qed
qed

text \<open>Running the component loop on its own output finds the same children and changes
  nothing.\<close>

lemma componentLoop_again:
  "componentLoop env css n = (Inr d, css') \<Longrightarrow>
     componentLoop env css' n = (Inr d, css') \<and> length css' = length css"
proof (induction css arbitrary: n d css')
  case Nil
  then show ?case by simp
next
  case (Cons cs rest)
  show ?case
  proof (cases "getComponent env (Kind cs, APIVersion cs, Name cs)")
    case None
    obtain res rest' where rec: "componentLoop env rest (n + 1) = (res, rest')"
      by (cases "componentLoop env rest (n + 1)")
    with Cons.prems None have res: "res = Inr d" and css': "css' = cs # rest'"
      by simp_all
    from Cons.IH [OF rec [unfolded res]] None show ?thesis
      by (simp add: css')
  next
    case (Some err)
    with Cons.prems have nf: "err = NotFound"
      by (auto split: if_splits)
    define cs' where "cs' = cs\<lparr>ComponentConditions :=
                               SetStatusCondition (now env) (ComponentConditions cs)
                                 (mkCondition Unhealthy ConditionTrue ''ComponentNotFound'' [])\<rparr>"
    obtain res rest' where rec: "componentLoop env rest n = (res, rest')"
      by (cases "componentLoop env rest n")
    with Cons.prems Some nf have res: "res = Inr d" and css': "css' = cs' # rest'"
      by (simp_all add: cs'_def)
    have again: "cs'\<lparr>ComponentConditions :=
                    SetStatusCondition (now env) (ComponentConditions cs')
                      (mkCondition Unhealthy ConditionTrue ''ComponentNotFound'' [])\<rparr> = cs'"
      by (simp add: cs'_def Set_idempotent)
    have key: "getComponent env (Kind cs', APIVersion cs', Name cs') = Some NotFound"
      using Some nf by (simp add: cs'_def)
    from Cons.IH [OF rec [unfolded res]] key again show ?thesis
      by (simp add: css')
  qed
qed

lemma getComponentStatus_again:
  assumes "getComponentStatus env a = (Inr s, a')"
    and "ComponentStatus (status a1) = ComponentStatus (status a')"
  shows "getComponentStatus env a1 = (Inr s, a1)"
proof -
  obtain res css where loop: "componentLoop env (ComponentStatus (status a)) 0 = (res, css)"
    by (cases "componentLoop env (ComponentStatus (status a)) 0")
  from assms(1) loop obtain d where res: "res = Inr d"
    and s: "s = \<lparr>expectedComponents = of_nat (length (ComponentStatus (status a))),
                 deployed = d\<rparr>"
    and a': "a' = withComponentStatus a css"
    by (auto simp add: getComponentStatus_def Let_def split: sum.splits)
  have css: "ComponentStatus (status a1) = css"
    using assms(2) a' by simp
  from componentLoop_again [OF loop [unfolded res]]
  have "componentLoop env css 0 = (Inr d, css)" and "length css = length (ComponentStatus (status a))"
    by simp_all
  moreover have "withComponentStatus a1 css = a1"
    using css by (simp add: withComponentStatus_def)
  ultimately show ?thesis
    by (simp add: getComponentStatus_def css s)
qed

lemma running_again:
  assumes a1: "a1 = stored (fst (reconcileRunning r env \<lparr>aw = a, stored = a\<rparr>))"
    and phase: "Phase (status a) = AppWrapperRunning"
    and same: "Phase (status a1) = Phase (status a)"
  shows "stored (fst (reconcileRunning r env \<lparr>aw = a1, stored = a1\<rparr>)) = a1
       \<and> DeletionTimestamp a1 = DeletionTimestamp a"
proof (cases "a1 = a")
  case True
  then show ?thesis using a1 by simp
next
  case False
  have not_suspended: "\<not> Suspend a"
    using False same phase unfolding a1
    by (auto simp add: reconcileRunning_def updateStatus_cases Let_def split: option.splits)
  obtain res a' where comp: "getComponentStatus env a = (res, a')"
    by (cases "getComponentStatus env a")
  note frame = getComponentStatus_frame [OF comp]
  have a'_form: "a' = withComponentStatus a (ComponentStatus (status a'))"
    using comp by (auto simp add: getComponentStatus_def Let_def withComponentStatus_def
        split: prod.splits sum.splits)
  obtain s where res: "res = Inr s" and all: "deployed s = expectedComponents s"
    using False same phase not_suspended comp unfolding a1
    by (cases res)
       (auto simp add: reconcileRunning_def updateStatus_cases Let_def
          simp del: phase_string.simps split: option.splits if_splits)
  have pods: "a1 = stored (fst (reconcileRunningPods r env \<lparr>aw = a', stored = a\<rparr>))"
    unfolding a1 using not_suspended comp res all
    by (simp add: reconcileRunning_def Let_def)
  obtain ps where ps: "getPodStatus env = Inr ps"
    using pods False by (cases "getPodStatus env") (auto simp add: reconcileRunningPods_def)
  define uC where "uC = mkCondition Unhealthy ConditionTrue ''FoundFailedPods'' []"
  define pC where "pC = mkCondition PodsReady ConditionTrue ''SufficientPodsReady''
               (string_of_int32 (running ps) @ '' pods running; ''
                  @ string_of_int32 (succeeded ps) @ '' pods succeeded'')"
  define m5 where "m5 = ''FoundNoFailedPods''"
  define m6 where "m6 = ''InsufficientPodsReady''"
  define cs0 where "cs0 = SetStatusCondition (now env) (Conditions (status a')) uC"
  define cs1 where "cs1 = cleared (now env) (Conditions (status a')) Unhealthy m5 []"
  define cs2 where "cs2 = cleared (now env) cs1 PodsReady m6 (podDetailsMessage ps)"
  define graceW where "graceW = (if expected ps \<le>s pending ps + running ps + succeeded ps
                           then warmupGraceDuration r a' else admissionGraceDuration r a')"
  define stay where "stay =
       (if expected ps \<le>s succeeded ps \<and> pending ps + running ps + failed ps = 0 then None
        else if 0 <s failed ps then
          (case FindStatusCondition cs0 Unhealthy of
             None \<Rightarrow> None
           | Some c \<Rightarrow>
               if Time_Before (now env)
                    (Time_Add (LastTransitionTime c) (failureGraceDuration r a'))
               then Some cs0 else None)
        else if expected ps \<le>s running ps + succeeded ps then
          Some (SetStatusCondition (now env) cs1 pC)
        else
          (case FindStatusCondition cs2 ResourcesDeployed of
             None \<Rightarrow> None
           | Some c \<Rightarrow>
               if Time_Before (now env) (Time_Add (LastTransitionTime c) graceW)
               then Some cs2 else None))"
  have types [simp]: "Type uC = Unhealthy" "Type pC = PodsReady"
    by (simp_all add: uC_def pC_def)
  note first = pods_persisted [OF ps uC_def pC_def cs0_def
      cs1_def [unfolded m5_def] cs2_def [unfolded m6_def cs1_def m5_def, folded cs1_def [unfolded m5_def]]
      graceW_def stay_def, of a, folded pods]
  obtain csX where stayX: "stay = Some csX" and ok: "statusUpdateError env = None"
    and form: "a1 = a\<lparr>status := status (withConditions a' csX)\<rparr>"
    using first False same phase by (cases stay) (auto split: if_splits)
  have conds1: "Conditions (status a1) = csX"
    and comps1: "ComponentStatus (status a1) = ComponentStatus (status a')"
    and susp1: "Suspend a1 = Suspend a" and del1: "DeletionTimestamp a1 = DeletionTimestamp a"
    and ann1: "Annotations a1 = Annotations a'"
    using frame by (simp_all add: form)
  note comp1 = getComponentStatus_again [OF comp [unfolded res] comps1]
  have reduce: "reconcileRunning r env \<lparr>aw = a1, stored = a1\<rparr>
                  = reconcileRunningPods r env \<lparr>aw = a1, stored = a1\<rparr>"
    using not_suspended susp1 comp1 all by (simp add: reconcileRunning_def Let_def)
  have graceF1: "failureGraceDuration r a1 = failureGraceDuration r a'"
    and graceW1: "graceW = (if expected ps \<le>s pending ps + running ps + succeeded ps
                           then warmupGraceDuration r a1 else admissionGraceDuration r a1)"
    using grace_depends_on_annotations(1,2,3) [OF ann1, of r] by (simp_all add: graceW_def)
  define cs0' where "cs0' = SetStatusCondition (now env) (Conditions (status a1)) uC"
  define cs1' where "cs1' = cleared (now env) (Conditions (status a1)) Unhealthy m5 []"
  define cs2' where "cs2' = cleared (now env) cs1' PodsReady m6 (podDetailsMessage ps)"
  define stay' where "stay' =
       (if expected ps \<le>s succeeded ps \<and> pending ps + running ps + failed ps = 0 then None
        else if 0 <s failed ps then
          (case FindStatusCondition cs0' Unhealthy of
             None \<Rightarrow> None
           | Some c \<Rightarrow>
               if Time_Before (now env)
                    (Time_Add (LastTransitionTime c) (failureGraceDuration r a1))
               then Some cs0' else None)
        else if expected ps \<le>s running ps + succeeded ps then
          Some (SetStatusCondition (now env) cs1' pC)
        else
          (case FindStatusCondition cs2' ResourcesDeployed of
             None \<Rightarrow> None
           | Some c \<Rightarrow>
               if Time_Before (now env) (Time_Add (LastTransitionTime c) graceW)
               then Some cs2' else None))"
  have stay_again: "stay' = Some csX"
  proof -
    consider (success) "expected ps \<le>s succeeded ps \<and> pending ps + running ps + failed ps = 0"
      | (failed) "\<not> (expected ps \<le>s succeeded ps \<and> pending ps + running ps + failed ps = 0)"
          "0 <s failed ps"
      | (sufficient) "\<not> (expected ps \<le>s succeeded ps \<and> pending ps + running ps + failed ps = 0)"
          "\<not> 0 <s failed ps" "expected ps \<le>s running ps + succeeded ps"
      | (waiting) "\<not> (expected ps \<le>s succeeded ps \<and> pending ps + running ps + failed ps = 0)"
          "\<not> 0 <s failed ps" "\<not> expected ps \<le>s running ps + succeeded ps"
      by blast
    then show ?thesis
    proof cases
      case success
      then show ?thesis using stayX by (simp add: stay_def)
    next
      case failed
      have nsucc: "(expected ps \<le>s succeeded ps
                  \<and> pending ps + running ps + failed ps = 0) = False"
        using failed(1) by simp
      have X: "csX = cs0"
        using stayX failed(2) by (simp add: stay_def nsucc split: option.splits if_splits)
      have zero: "cs0' = cs0"
        by (simp add: cs0'_def conds1 X cs0_def Set_idempotent)
      have "stay' = stay"
        unfolding stay'_def stay_def zero graceF1
        using failed(2) by simp
      then show ?thesis
        using stayX by simp
    next
      case sufficient
      have nsucc: "(expected ps \<le>s succeeded ps
                  \<and> pending ps + running ps + failed ps = 0) = False"
        using sufficient(1) by simp
      have X: "csX = SetStatusCondition (now env) cs1 pC"
        using stayX sufficient(2,3) by (simp add: stay_def nsucc)
      have one: "cs1' = SetStatusCondition (now env) cs1 pC"
        by (simp add: cs1'_def conds1 X cs1_def cleared_unchanged)
      show ?thesis
        by (simp add: stay'_def nsucc sufficient(2,3) one X Set_idempotent)
    next
      case waiting
      have nsucc: "(expected ps \<le>s succeeded ps
                  \<and> pending ps + running ps + failed ps = 0) = False"
        using waiting(1) by simp
      have X: "csX = cs2"
        using stayX waiting(2,3) by (simp add: stay_def nsucc split: option.splits if_splits)
      have one: "cs1' = cs2"
        by (simp add: cs1'_def conds1 X cs2_def cs1_def cleared_unchanged)
      have two: "cs2' = cs2"
        by (simp add: cs2'_def one) (simp add: cs2_def cleared_unchanged)
      have "stay' = stay"
        unfolding stay'_def stay_def two nsucc
        using waiting(2,3) by simp
      then show ?thesis
        using stayX by simp
    qed
  qed
  note second = pods_persisted [OF ps uC_def pC_def cs0'_def
      cs1'_def [unfolded m5_def]
      cs2'_def [unfolded m6_def cs1'_def m5_def, folded cs1'_def [unfolded m5_def]]
      graceW1 stay'_def, of a1, unfolded stay_again]
  have "stored (fst (reconcileRunningPods r env \<lparr>aw = a1, stored = a1\<rparr>)) = a1"
    using second ok conds1 by (simp add: withConditions_def)
  then show ?thesis
    using reduce del1 by simp
qed

subsection \<open>The other phases\<close>

lemma succeeded_again:
  assumes a1: "a1 = stored (fst (reconcileSucceeded r env \<lparr>aw = a, stored = a\<rparr>))"
  shows "stored (fst (reconcileSucceeded r env \<lparr>aw = a1, stored = a1\<rparr>)) = a1
       \<and> DeletionTimestamp a1 = DeletionTimestamp a"
proof -
  define rC where "rC = mkCondition ResourcesDeployed ConditionFalse
      (phase_string AppWrapperSucceeded)
      (''Time to live after success of ''
         @ DurationString r (timeToLiveAfterSucceededDuration r a) @ '' expired'')"
  have types [simp]: "Type rC = ResourcesDeployed" "Status rC = ConditionFalse"
    by (simp_all add: rC_def del: phase_string.simps)
  have first: "a1 = a \<or> a1 = withConditions a
                               (SetStatusCondition (now env) (Conditions (status a)) rC)"
    unfolding a1 rC_def reconcileSucceeded_def
    by (simp add: requeueWithStatusUpdate_cases Let_def conds_def setCond_def
          setCondition_def del: phase_string.simps split: option.split)
  then show ?thesis
  proof
    assume "a1 = a"
    then show ?thesis using a1 by simp
  next
    assume form: "a1 = withConditions a
                          (SetStatusCondition (now env) (Conditions (status a)) rC)"
    have "\<not> IsStatusConditionTrue (Conditions (status a1)) ResourcesDeployed"
      by (simp add: form)
    then show ?thesis
      by (simp add: reconcileSucceeded_def conds_def form)
  qed
qed

lemma resetting_again:
  assumes a1: "a1 = stored (fst (reconcileResetting r env \<lparr>aw = a, stored = a\<rparr>))"
    and phase: "Phase (status a) = AppWrapperResetting"
    and same: "Phase (status a1) = Phase (status a)"
  shows "stored (fst (reconcileResetting r env \<lparr>aw = a1, stored = a1\<rparr>)) = a1
       \<and> DeletionTimestamp a1 = DeletionTimestamp a"
proof -
  define m1 where "m1 = ''Resources deleted for resetting AppWrapper''"
  define m2 where "m2 = ''Reset complete; resuming''"
  define rC where "rC = mkCondition ResourcesDeployed ConditionFalse
      (phase_string AppWrapperResetting) m1"
  define cs1 where "cs1 = cleared (now env) (Conditions (status a)) PodsReady
      (phase_string AppWrapperResetting) []"
  define cs2 where "cs2 = (if IsStatusConditionTrue cs1 ResourcesDeployed
      then SetStatusCondition (now env) cs1 rC else cs1)"
  have types [simp]: "Type rC = ResourcesDeployed" "Status rC = ConditionFalse"
    by (simp_all add: rC_def del: phase_string.simps)
  note folds = m1_def [symmetric] m2_def [symmetric]
  have first: "a1 = a
    \<or> Phase (status a1) \<in> {AppWrapperSuspending, AppWrapperResuming}
    \<or> (\<not> Suspend a \<and> statusUpdateError env = None
        \<and> \<not> (IsStatusConditionTrue cs1 ResourcesDeployed \<and> \<not> deleteComponents env)
        \<and> (\<exists>c. FindStatusCondition cs2 Unhealthy = Some c
               \<and> Time_Before (now env)
                    (Time_Add (LastTransitionTime c) (retryPauseDuration r a)))
        \<and> a1 = withConditions a cs2)"
    unfolding a1 cs2_def cs1_def rC_def reconcileResetting_def folds
    by (simp add: requeueWithStatusUpdate_cases updateStatus_cases Let_def conds_def
          setCond_def clearCond_def clearCondition_cleared setCondition_def
          del: phase_string.simps split: option.split)
  have moved: ?thesis if "Phase (status a1) \<in> {AppWrapperSuspending, AppWrapperResuming}"
    using that same phase by simp
  have stays: ?thesis
    if stay: "\<not> Suspend a" "statusUpdateError env = None"
        "FindStatusCondition cs2 Unhealthy = Some c"
        "Time_Before (now env) (Time_Add (LastTransitionTime c) (retryPauseDuration r a))"
        "a1 = withConditions a cs2" for c
  proof -
    have ready: "\<not> IsStatusConditionTrue cs2 PodsReady"
      by (simp add: cs2_def cs1_def)
    have deployed: "\<not> IsStatusConditionTrue cs2 ResourcesDeployed"
      by (simp add: cs2_def)
    have one: "cleared (now env) cs2 PodsReady (phase_string AppWrapperResetting) [] = cs2"
      using ready by (rule cleared_unchanged)
    have "reconcileResetting r env \<lparr>aw = a1, stored = a1\<rparr>
            = requeueWithStatusUpdate env \<lparr>aw = a1, stored = a1\<rparr>
                (Time_Sub (Time_Add (LastTransitionTime c) (retryPauseDuration r a)) (now env))"
      unfolding reconcileResetting_def folds
      using stay(1) deployed stay(3) stay(4)
      by (simp add: stay(5) Let_def conds_def clearCond_def clearCondition_cleared one
            del: phase_string.simps)
    then show ?thesis
      using stay(2) by (simp add: requeueWithStatusUpdate_cases stay(5) Let_def)
  qed
  from first show ?thesis
  proof (elim disjE conjE exE)
    assume "a1 = a"
    then show ?thesis using a1 by simp
  next
    assume "Phase (status a1) \<in> {AppWrapperSuspending, AppWrapperResuming}"
    then show ?thesis by (rule moved)
  next
    fix c
    assume "\<not> Suspend a" "statusUpdateError env = None"
      "FindStatusCondition cs2 Unhealthy = Some c"
      "Time_Before (now env) (Time_Add (LastTransitionTime c) (retryPauseDuration r a))"
      "a1 = withConditions a cs2"
    then show ?thesis by (rule stays)
  qed
qed

lemma empty_again:
  assumes a1: "a1 = stored (fst (reconcileEmpty env \<lparr>aw = a, stored = a\<rparr>))"
    and phase: "Phase (status a) = AppWrapperEmpty"
    and same: "Phase (status a1) = Phase (status a)"
  shows "stored (fst (reconcileEmpty env \<lparr>aw = a1, stored = a1\<rparr>)) = a1
       \<and> DeletionTimestamp a1 = DeletionTimestamp a"
proof -
  define b where "b = a\<lparr>Finalizers := Finalizers a @ [AppWrapperFinalizer]\<rparr>"
  have first: "a1 = a
    \<or> Phase (status a1) = AppWrapperSuspended
    \<or> (a1 = b \<and> updateError env = None
        \<and> (ensureError env \<noteq> None \<or> statusUpdateError env \<noteq> None))"
    unfolding a1 b_def reconcileEmpty_def
    by (auto simp add: AddFinalizer_def Update_def EnsureComponentStatusInitialized_def
          updateStatus_cases Let_def split: option.split)
  then consider "a1 = a" | "Phase (status a1) = AppWrapperSuspended"
    | (stay) "a1 = b" "ensureError env \<noteq> None \<or> statusUpdateError env \<noteq> None"
    by blast
  then show ?thesis
  proof cases
    case 1
    then show ?thesis using a1 by simp
  next
    case 2
    then show ?thesis using same phase by simp
  next
    case stay
    have "AppWrapperFinalizer \<in> set (Finalizers a1)"
      by (simp add: stay(1) b_def)
    then have "stored (fst (reconcileEmpty env \<lparr>aw = a1, stored = a1\<rparr>)) = a1"
      using stay(2)
      by (auto simp add: reconcileEmpty_def AddFinalizer_def
            EnsureComponentStatusInitialized_def updateStatus_cases Let_def
            split: option.split)
    then show ?thesis
      by (simp add: stay(1) b_def)
  qed
qed

lemma finalizers_then_status:
  "(b\<lparr>Finalizers := g\<rparr>)\<lparr>status := status b\<rparr> = b\<lparr>Finalizers := g\<rparr>"
  by (cases b) simp

text \<open>What the deletion protocol leaves in the store once no child remains.\<close>

lemma deletion_persisted:
  assumes contains: "ContainsFinalizer a AppWrapperFinalizer"
    and rC: "rC = mkCondition ResourcesDeployed ConditionFalse
               (phase_string AppWrapperTerminating) ''Resources successfully deleted''"
    and qC: "qC = mkCondition QuotaReserved ConditionFalse
               (phase_string AppWrapperTerminating) ''No resources deployed''"
    and rd: "rd = IsStatusConditionTrue (Conditions (status a)) ResourcesDeployed"
    and cs1: "cs1 = (if rd then SetStatusCondition (now env) (Conditions (status a)) rC
                     else Conditions (status a))"
    and qr: "qr = IsStatusConditionTrue cs1 QuotaReserved"
    and cs2: "cs2 = (if qr then SetStatusCondition (now env) cs1 qC else cs1)"
    and proceed: "\<not> (rd \<and> \<not> deleteComponents env)"
  shows "stored (fst (reconcileDeletion env \<lparr>aw = a, stored = a\<rparr>)) =
           (if (rd \<or> qr) \<and> statusUpdateError env \<noteq> None then a
            else if updateError env \<noteq> None then withConditions a cs2
            else (withConditions a cs2)
                   \<lparr>Finalizers := filter (\<lambda>x. x \<noteq> AppWrapperFinalizer) (Finalizers a)\<rparr>)"
proof -
  define m1 where "m1 = ''Resources successfully deleted''"
  define m2 where "m2 = ''No resources deployed''"
  note folds = m1_def [symmetric] m2_def [symmetric]
  define W where "W = withConditions a cs2"
  define gone where "gone = filter (\<lambda>x. x \<noteq> AppWrapperFinalizer) (Finalizers a)"
  have W_fields: "Finalizers W = Finalizers a" "a\<lparr>status := status W\<rparr> = W"
    by (simp_all add: W_def)
  have unchanged: "W = a" if "\<not> rd" "\<not> qr"
    using that by (simp add: W_def cs2 cs1)
  have no_quota: "(if rd then setCond env \<lparr>aw = a, stored = a\<rparr> rC
                    else \<lparr>aw = a, stored = a\<rparr>)
                   = \<lparr>aw = withConditions a cs1, stored = a\<rparr>"
    by (simp add: setCond_def setCondition_def cs1)
  have quota: "IsStatusConditionTrue
                 (Conditions (status (aw (if rd then setCond env \<lparr>aw = a, stored = a\<rparr> rC
                                          else \<lparr>aw = a, stored = a\<rparr>))))
                 QuotaReserved = qr"
    by (simp add: no_quota qr)
  have st2: "(if qr then setCond env (if rd then setCond env \<lparr>aw = a, stored = a\<rparr> rC
                                       else \<lparr>aw = a, stored = a\<rparr>) qC
              else (if rd then setCond env \<lparr>aw = a, stored = a\<rparr> rC
                    else \<lparr>aw = a, stored = a\<rparr>))
               = \<lparr>aw = W, stored = a\<rparr>"
    by (simp add: no_quota cs2 W_def setCond_def setCondition_def)
  have run: "reconcileDeletion env \<lparr>aw = a, stored = a\<rparr> =
      (case (if rd \<or> qr then StatusUpdate env \<lparr>aw = W, stored = a\<rparr>
             else (\<lparr>aw = W, stored = a\<rparr>, None)) of
         (st3, Some err) \<Rightarrow> (st3, 0, Some err)
       | (st3, None) \<Rightarrow>
           (let (a', removed) = RemoveFinalizer (aw st3) AppWrapperFinalizer
            in if removed
               then (case Update env (st3\<lparr>aw := a'\<rparr>) of
                       (st4, Some err) \<Rightarrow> (st4, 0, Some err)
                     | (st4, None) \<Rightarrow> (st4, 0, None))
               else (st3\<lparr>aw := a'\<rparr>, 0, None)))"
    unfolding reconcileDeletion_def folds
      rC [unfolded folds, symmetric] qC [unfolded folds, symmetric]
    using contains proceed
    by (simp only: if_True if_False Let_def quota st2 conds_def rstate.simps
          rd [symmetric])
  have su: "StatusUpdate env \<lparr>aw = W, stored = a\<rparr> =
      (case statusUpdateError env of
         Some e \<Rightarrow> (\<lparr>aw = W, stored = a\<rparr>, Some e)
       | None \<Rightarrow> (\<lparr>aw = W, stored = W\<rparr>, None))"
    by (simp add: StatusUpdate_def W_fields Let_def split: option.split)
  have rf: "RemoveFinalizer W AppWrapperFinalizer = (W\<lparr>Finalizers := gone\<rparr>, True)"
    using contains
    by (simp add: RemoveFinalizer_def Let_def gone_def W_fields filter_length_changed
          ContainsFinalizer_def)
  have up: "Update env \<lparr>aw = W\<lparr>Finalizers := gone\<rparr>, stored = W\<rparr> =
      (case updateError env of
         Some e \<Rightarrow> (\<lparr>aw = W\<lparr>Finalizers := gone\<rparr>, stored = W\<rparr>, Some e)
       | None \<Rightarrow> (\<lparr>aw = W\<lparr>Finalizers := gone\<rparr>, stored = W\<lparr>Finalizers := gone\<rparr>\<rparr>, None))"
    by (simp add: Update_def finalizers_then_status Let_def split: option.split)
  have "stored (fst (reconcileDeletion env \<lparr>aw = a, stored = a\<rparr>)) =
           (if (rd \<or> qr) \<and> statusUpdateError env \<noteq> None then a
            else if updateError env \<noteq> None then W else W\<lparr>Finalizers := gone\<rparr>)"
  proof (cases "rd \<or> qr")
    case True
    then show ?thesis
      unfolding run by (simp add: su rf up split: option.split)
  next
    case False
    then have "W = a" using unchanged by simp
    with False show ?thesis
      unfolding run using rf up by (simp split: option.split)
  qed
  then show ?thesis
    by (simp only: W_def gone_def)
qed

lemma deletion_again:
  assumes a1: "a1 = stored (fst (reconcileDeletion env \<lparr>aw = a, stored = a\<rparr>))"
    and same: "Phase (status a1) = Phase (status a)"
  shows "stored (fst (reconcileDeletion env \<lparr>aw = a1, stored = a1\<rparr>)) = a1
       \<and> DeletionTimestamp a1 = DeletionTimestamp a"
proof (cases "ContainsFinalizer a AppWrapperFinalizer")
  case False
  then have "a1 = a"
    unfolding a1 by (simp add: reconcileDeletion_def)
  then show ?thesis using a1 by simp
next
  case True
  define rC where "rC = mkCondition ResourcesDeployed ConditionFalse
      (phase_string AppWrapperTerminating) ''Resources successfully deleted''"
  define qC where "qC = mkCondition QuotaReserved ConditionFalse
      (phase_string AppWrapperTerminating) ''No resources deployed''"
  define rd where "rd = IsStatusConditionTrue (Conditions (status a)) ResourcesDeployed"
  define cs1 where "cs1 = (if rd then SetStatusCondition (now env) (Conditions (status a)) rC
                           else Conditions (status a))"
  define qr where "qr = IsStatusConditionTrue cs1 QuotaReserved"
  define cs2 where "cs2 = (if qr then SetStatusCondition (now env) cs1 qC else cs1)"
  define gone where "gone = filter (\<lambda>x. x \<noteq> AppWrapperFinalizer) (Finalizers a)"
  have types [simp]: "Type rC = ResourcesDeployed" "Status rC = ConditionFalse"
    "Type qC = QuotaReserved" "Status qC = ConditionFalse"
    by (simp_all add: rC_def qC_def del: phase_string.simps)
  have clean: "\<not> IsStatusConditionTrue cs2 ResourcesDeployed"
    "\<not> IsStatusConditionTrue cs2 QuotaReserved"
    by (simp_all add: cs2_def cs1_def qr_def rd_def)
  show ?thesis
  proof (cases "rd \<and> \<not> deleteComponents env")
    case blocked: True
    have "a1 = a \<or> Phase (status a1) \<noteq> Phase (status a)"
      unfolding a1 reconcileDeletion_def
      using True blocked
      by (simp add: StatusUpdate_def Let_def conds_def rd_def split: option.split)
    then show ?thesis using a1 same by auto
  next
    case proceed: False
    note first = deletion_persisted [OF True rC_def qC_def rd_def cs1_def qr_def cs2_def
        proceed, folded a1 gone_def]
    show ?thesis
    proof (cases "a1 = a")
      case True
      then show ?thesis using a1 by simp
    next
      case changed: False
      show ?thesis
      proof (cases "updateError env")
        case None
        then have form: "a1 = (withConditions a cs2)\<lparr>Finalizers := gone\<rparr>"
          using first changed by (simp split: if_splits)
        have "\<not> ContainsFinalizer a1 AppWrapperFinalizer"
          by (simp add: form gone_def ContainsFinalizer_def)
        then show ?thesis
          by (simp add: reconcileDeletion_def form)
      next
        case (Some e)
        then have form: "a1 = withConditions a cs2"
          using first changed by (simp split: if_splits)
        have contains1: "ContainsFinalizer a1 AppWrapperFinalizer"
          using True by (simp add: form ContainsFinalizer_def)
        have rd1: "False = IsStatusConditionTrue (Conditions (status a1)) ResourcesDeployed"
          using clean(1) by (simp add: form)
        have cs11: "cs2 = (if False then SetStatusCondition (now env) (Conditions (status a1)) rC
                           else Conditions (status a1))"
          by (simp add: form)
        have qr1: "False = IsStatusConditionTrue cs2 QuotaReserved"
          using clean(2) by simp
        have cs21: "cs2 = (if False then SetStatusCondition (now env) cs2 qC else cs2)"
          by simp
        have "stored (fst (reconcileDeletion env \<lparr>aw = a1, stored = a1\<rparr>)) = a1"
          using deletion_persisted [OF contains1 rC_def qC_def rd1 cs11 qr1 cs21] Some
          by (simp add: form)
        then show ?thesis by (simp add: form)
      qed
    qed
  qed
qed

lemma suspended_again:
  assumes "a1 = stored (fst (reconcileSuspended env \<lparr>aw = a, stored = a\<rparr>))"
  shows "a1 = a \<or> Phase (status a1) = AppWrapperResuming"
  unfolding assms reconcileSuspended_def
  by (simp add: updateStatus_cases Let_def del: phase_string.simps split: option.split)

lemma resuming_again:
  assumes a1: "a1 = stored (fst (reconcileResuming r env \<lparr>aw = a, stored = a\<rparr>))"
  shows "a1 = a \<or> Phase (status a1) \<in> {AppWrapperSuspending, AppWrapperFailed,
           AppWrapperResetting, AppWrapperRunning}"
proof (cases "createComponents env")
  case None
  then show ?thesis
    unfolding a1 reconcileResuming_def
    by (simp add: updateStatus_cases Let_def split: option.split)
next
  case (Some failure)
  obtain err fatal where failure: "failure = (err, fatal)"
    by (cases failure)
  define st1 where "st1 = setCond env \<lparr>aw = a, stored = a\<rparr>
      (mkCondition Unhealthy ConditionTrue ''CreateFailed''
         (''error creating components: '' @ err))"
  have kept: "stored st1 = a"
    by (simp add: st1_def)
  have moved: "stored (fst (updateStatus env st p)) = stored st
        \<or> Phase (status (stored (fst (updateStatus env st p)))) = p" for st p
    by (simp add: updateStatus_cases Let_def split: option.split)
  have run: "reconcileResuming r env \<lparr>aw = a, stored = a\<rparr> =
      (if Suspend a then updateStatus env \<lparr>aw = a, stored = a\<rparr> AppWrapperSuspending
       else if fatal then updateStatus env st1 AppWrapperFailed
       else resetOrFail r env st1)"
    unfolding reconcileResuming_def st1_def
    by (simp add: Some failure Let_def)
  show ?thesis
  proof (cases "Suspend a")
    case True
    then have "a1 = stored (fst (updateStatus env \<lparr>aw = a, stored = a\<rparr> AppWrapperSuspending))"
      by (simp add: a1 run)
    with moved [of "\<lparr>aw = a, stored = a\<rparr>" AppWrapperSuspending] show ?thesis
      by auto
  next
    case False
    show ?thesis
    proof (cases fatal)
      case True
      then have "a1 = stored (fst (updateStatus env st1 AppWrapperFailed))"
        using False by (simp add: a1 run)
      with moved [of st1 AppWrapperFailed] kept show ?thesis
        by auto
    next
      case notfatal: False
      then have "a1 = stored (fst (resetOrFail r env st1))"
        using False by (simp add: a1 run)
      with resetOrFail_persisted [of r env st1] kept show ?thesis
        by auto
    qed
  qed
qed

lemma suspending_again:
  assumes "a1 = stored (fst (reconcileSuspending env \<lparr>aw = a, stored = a\<rparr>))"
  shows "a1 = a \<or> Phase (status a1) = AppWrapperSuspended"
  unfolding assms reconcileSuspending_def
  by (simp add: updateStatus_cases Let_def del: phase_string.simps split: option.split)

lemma deletionRequested_cong:
  "DeletionTimestamp a1 = DeletionTimestamp a \<Longrightarrow> deletionRequested a1 = deletionRequested a"
  by (simp add: deletionRequested_def)

lemma empty_moves:
  assumes "\<not> deletionRequested a" and "Phase (status a) = AppWrapperEmpty"
    and "updateError env = None" and "ensureError env = None"
    and "statusUpdateError env = None"
  shows "Phase (status (persisted r env a)) = AppWrapperSuspended
       \<and> Suspend (persisted r env a) = Suspend a
       \<and> DeletionTimestamp (persisted r env a) = DeletionTimestamp a"
  using assms
  by (simp add: persisted_def reconcileAppWrapper_def reconcileEmpty_def AddFinalizer_def
        Update_def EnsureComponentStatusInitialized_def updateStatus_cases Let_def)

lemma suspended_moves:
  assumes "\<not> deletionRequested a" and "Phase (status a) = AppWrapperSuspended"
    and "\<not> Suspend a" and "statusUpdateError env = None"
  shows "Phase (status (persisted r env a)) = AppWrapperResuming"
  using assms
  unfolding persisted_def reconcileAppWrapper_def reconcileSuspended_def
  by (simp add: updateStatus_cases Let_def del: phase_string.simps)

subsection \<open>Another reading of the clock\<close>

lemma agrees_fixed: "SetStatusCondition tm cs c = cs \<Longrightarrow> agrees cs c"
  using agrees_Set_same [of tm cs c] by simp

lemma Set_other_clock:
  "SetStatusCondition tm cs c = cs \<Longrightarrow> SetStatusCondition tm' cs c = cs"
  by (rule Set_agrees) (rule agrees_fixed)

lemma cleared_fixed:
  "cleared tm cs t reason message = cs \<Longrightarrow> \<not> IsStatusConditionTrue cs t"
  using cleared_not_true [of tm cs t reason message] by simp

lemma Set_transition_time:
  assumes "LastTransitionTime c = 0"
  shows "\<exists>e'. FindStatusCondition (SetStatusCondition tm cs c) (Type c) = Some e'
          \<and> LastTransitionTime e' =
              (case FindStatusCondition cs (Type c) of
                 None \<Rightarrow> tm
               | Some e \<Rightarrow> if Status e = Status c then LastTransitionTime e else tm)"
  using assms by (induction cs) (auto simp add: IsZero_def updateExisting_time)

text \<open>
  The test of a deadline on a condition just set: a transition stamped by this very
  invocation is \<open>d\<close> before its deadline whatever the clock reads.
\<close>

lemma deadline_after_Set:
  assumes "LastTransitionTime c = 0"
  shows "(case FindStatusCondition (SetStatusCondition tm cs c) (Type c) of
            None \<Rightarrow> False
          | Some e \<Rightarrow> Time_Before tm (Time_Add (LastTransitionTime e) d))
       = (case FindStatusCondition cs (Type c) of
            None \<Rightarrow> 0 < sint d
          | Some e \<Rightarrow> if Status e = Status c
                       then Time_Before tm (Time_Add (LastTransitionTime e) d)
                       else 0 < sint d)"
proof -
  obtain e' where e': "FindStatusCondition (SetStatusCondition tm cs c) (Type c) = Some e'"
    and t: "LastTransitionTime e' =
              (case FindStatusCondition cs (Type c) of
                 None \<Rightarrow> tm
               | Some e \<Rightarrow> if Status e = Status c then LastTransitionTime e else tm)"
    using Set_transition_time [OF assms, of tm cs] by blast
  show ?thesis
    unfolding e' option.case t
    by (simp add: Time_Before_def Time_Add_def split: option.split)
qed

lemma deadline_clock:
  assumes "LastTransitionTime c = 0"
    and "\<And>e. FindStatusCondition cs (Type c) = Some e \<Longrightarrow>
           Time_Before tm (Time_Add (LastTransitionTime e) d)
             = Time_Before tm' (Time_Add (LastTransitionTime e) d)"
  shows "(case FindStatusCondition (SetStatusCondition tm cs c) (Type c) of
            None \<Rightarrow> False
          | Some e \<Rightarrow> Time_Before tm (Time_Add (LastTransitionTime e) d))
       = (case FindStatusCondition (SetStatusCondition tm' cs c) (Type c) of
            None \<Rightarrow> False
          | Some e \<Rightarrow> Time_Before tm' (Time_Add (LastTransitionTime e) d))"
  unfolding deadline_after_Set [OF assms(1)]
  using assms(2) by (simp split: option.split)

lemma withConditions_fixed: "withConditions b cs = b \<Longrightarrow> cs = Conditions (status b)"
  by (metis withConditions_fields(1))

lemma resetOrFail_moves:
  "statusUpdateError env = None \<Longrightarrow>
     Phase (status (stored (fst (resetOrFail r env st))))
       \<in> {AppWrapperResetting, AppWrapperFailed}"
  by (simp add: resetOrFail_def updateStatus_cases Let_def)

lemma resetOrFail_refused:
  "statusUpdateError env \<noteq> None \<Longrightarrow> stored (fst (resetOrFail r env st)) = stored st"
  by (auto simp add: resetOrFail_def updateStatus_cases Let_def)

lemma updateStatus_refused:
  "statusUpdateError env \<noteq> None \<Longrightarrow> stored (fst (updateStatus env st p)) = stored st"
  by (auto simp add: updateStatus_cases)

lemma requeue_refused:
  "statusUpdateError env \<noteq> None \<Longrightarrow>
     stored (fst (requeueWithStatusUpdate env st d)) = stored st"
  by (auto simp add: requeueWithStatusUpdate_cases)

subsection \<open>The phase \<open>Succeeded\<close> at another time\<close>

lemma succeeded_persisted:
  assumes rC: "rC = mkCondition ResourcesDeployed ConditionFalse
      (phase_string AppWrapperSucceeded)
      (''Time to live after success of ''
         @ DurationString r (timeToLiveAfterSucceededDuration r a) @ '' expired'')"
    and expired: "expired =
      (case FindStatusCondition (Conditions (status a)) ResourcesDeployed of
         None \<Rightarrow> False
       | Some c \<Rightarrow> \<not> Time_Before (now env)
                      (Time_Add (LastTransitionTime c) (timeToLiveAfterSucceededDuration r a)))"
  shows "stored (fst (reconcileSucceeded r env \<lparr>aw = a, stored = a\<rparr>)) =
           (if IsStatusConditionTrue (Conditions (status a)) ResourcesDeployed \<and> expired
               \<and> deleteComponents env \<and> statusUpdateError env = None
            then withConditions a (SetStatusCondition (now env) (Conditions (status a)) rC)
            else a)"
  unfolding rC expired reconcileSucceeded_def
  by (simp add: requeueWithStatusUpdate_cases Let_def conds_def setCond_def
        setCondition_def del: phase_string.simps split: option.split)

lemma succeeded_clock:
  assumes fixed: "stored (fst (reconcileSucceeded r env \<lparr>aw = b, stored = b\<rparr>)) = b"
    and clock: "\<And>c. FindStatusCondition (Conditions (status b)) ResourcesDeployed = Some c \<Longrightarrow>
        Time_Before (now env)
            (Time_Add (LastTransitionTime c) (timeToLiveAfterSucceededDuration r b))
          = Time_Before tm
              (Time_Add (LastTransitionTime c) (timeToLiveAfterSucceededDuration r b))"
  shows "stored (fst (reconcileSucceeded r (env\<lparr>now := tm\<rparr>) \<lparr>aw = b, stored = b\<rparr>)) = b"
proof -
  define rC where "rC = mkCondition ResourcesDeployed ConditionFalse
      (phase_string AppWrapperSucceeded)
      (''Time to live after success of ''
         @ DurationString r (timeToLiveAfterSucceededDuration r b) @ '' expired'')"
  define expired where "expired =
      (case FindStatusCondition (Conditions (status b)) ResourcesDeployed of
         None \<Rightarrow> False
       | Some c \<Rightarrow> \<not> Time_Before (now env)
                      (Time_Add (LastTransitionTime c) (timeToLiveAfterSucceededDuration r b)))"
  define expired' where "expired' =
      (case FindStatusCondition (Conditions (status b)) ResourcesDeployed of
         None \<Rightarrow> False
       | Some c \<Rightarrow> \<not> Time_Before (now (env\<lparr>now := tm\<rparr>))
                      (Time_Add (LastTransitionTime c) (timeToLiveAfterSucceededDuration r b)))"
  have types [simp]: "Type rC = ResourcesDeployed" "Status rC = ConditionFalse"
    by (simp_all add: rC_def del: phase_string.simps)
  have same: "expired' = expired"
    using clock by (simp add: expired'_def expired_def split: option.split)
  note first = succeeded_persisted [OF rC_def expired_def, unfolded fixed]
  note second = succeeded_persisted [OF rC_def expired'_def, unfolded same]
  have changed: "withConditions b (SetStatusCondition (now env) (Conditions (status b)) rC) \<noteq> b"
    if "IsStatusConditionTrue (Conditions (status b)) ResourcesDeployed"
  proof
    assume "withConditions b (SetStatusCondition (now env) (Conditions (status b)) rC) = b"
    then have "SetStatusCondition (now env) (Conditions (status b)) rC = Conditions (status b)"
      by (rule withConditions_fixed)
    then have "\<not> IsStatusConditionTrue (Conditions (status b)) ResourcesDeployed"
      by (metis IsTrue_Set_same types ConditionStatus.distinct(1))
    with that show False by simp
  qed
  have "(IsStatusConditionTrue (Conditions (status b)) ResourcesDeployed \<and> expired
               \<and> deleteComponents env \<and> statusUpdateError env = None) = False"
    using first changed by (auto split: if_splits)
  moreover have "deleteComponents (env\<lparr>now := tm\<rparr>) = deleteComponents env"
    "statusUpdateError (env\<lparr>now := tm\<rparr>) = statusUpdateError env"
    by simp_all
  ultimately show ?thesis
    unfolding second by (simp only: if_False)
qed

subsection \<open>The phase \<open>Failed\<close> at another time\<close>

lemma failed_clock:
  assumes fixed: "stored (fst (reconcileFailed r env \<lparr>aw = b, stored = b\<rparr>)) = b"
    and clock: "\<And>c. FindStatusCondition (Conditions (status b)) DeletingResources = Some c \<Longrightarrow>
        Time_Before (now env)
            (Time_Add (LastTransitionTime c) (deletionOnFailureGraceDuration r b))
          = Time_Before tm
              (Time_Add (LastTransitionTime c) (deletionOnFailureGraceDuration r b))"
  shows "stored (fst (reconcileFailed r (env\<lparr>now := tm\<rparr>) \<lparr>aw = b, stored = b\<rparr>)) = b"
proof -
  define delay where "delay = deletionOnFailureGraceDuration r b"
  define dC where "dC = mkCondition DeletingResources ConditionFalse ''DeletionPaused''
               (DeletionOnFailureGracePeriodAnnotation @ '' has value ''
                  @ DurationString r delay)"
  define rC where "rC = mkCondition ResourcesDeployed ConditionFalse
               (phase_string AppWrapperFailed)
               (if 0 <s delay \<and> Suspend b
                then ''Kueue forced resource deletion by suspending AppWrapper''
                else ''Resources deleted for failed AppWrapper'')"
  define qC where "qC = mkCondition QuotaReserved ConditionFalse
               (phase_string AppWrapperFailed) ''No resources deployed''"
  define paused where "paused = (0 <s delay \<and> \<not> Suspend b)"
  define cs where "cs = Conditions (status b)"
  define env' where "env' = env\<lparr>now := tm\<rparr>"
  define cs1 where "cs1 = (if paused then SetStatusCondition (now env) (Conditions (status b)) dC
                     else Conditions (status b))"
  define wait where "wait = (paused \<and>
                 (case FindStatusCondition cs1 DeletingResources of
                    None \<Rightarrow> False
                  | Some c \<Rightarrow> Time_Before (now env) (Time_Add (LastTransitionTime c) delay)))"
  define cs3 where "cs3 = SetStatusCondition (now env)
                (if IsStatusConditionTrue cs1 ResourcesDeployed
                 then SetStatusCondition (now env) cs1 rC else cs1) qC"
  define cs1' where "cs1' = (if paused then SetStatusCondition (now env') (Conditions (status b)) dC
                     else Conditions (status b))"
  define wait' where "wait' = (paused \<and>
                 (case FindStatusCondition cs1' DeletingResources of
                    None \<Rightarrow> False
                  | Some c \<Rightarrow> Time_Before (now env') (Time_Add (LastTransitionTime c) delay)))"
  define cs3' where "cs3' = SetStatusCondition (now env')
                (if IsStatusConditionTrue cs1' ResourcesDeployed
                 then SetStatusCondition (now env') cs1' rC else cs1') qC"
  have types [simp]: "Type dC = DeletingResources" "Type rC = ResourcesDeployed"
    "Type qC = QuotaReserved" "Status rC = ConditionFalse" "Status qC = ConditionFalse"
    "LastTransitionTime dC = 0"
    by (simp_all add: dC_def rC_def qC_def del: phase_string.simps)
  have env' [simp]: "now env' = tm" "statusUpdateError env' = statusUpdateError env"
    "deleteComponents env' = deleteComponents env"
    by (simp_all add: env'_def)
  note first = failed_persisted [OF delay_def dC_def rC_def qC_def paused_def cs1_def
      wait_def cs3_def, unfolded fixed]
  note second = failed_persisted [OF delay_def dC_def rC_def qC_def paused_def cs1'_def
      wait'_def cs3'_def]
  have same_wait: "wait' = wait"
  proof (cases paused)
    case True
    have "(case FindStatusCondition (SetStatusCondition (now env) cs dC) (Type dC) of
            None \<Rightarrow> False
          | Some e \<Rightarrow> Time_Before (now env) (Time_Add (LastTransitionTime e) delay))
       = (case FindStatusCondition (SetStatusCondition tm cs dC) (Type dC) of
            None \<Rightarrow> False
          | Some e \<Rightarrow> Time_Before tm (Time_Add (LastTransitionTime e) delay))"
      by (rule deadline_clock) (simp_all add: clock cs_def delay_def)
    then show ?thesis
      unfolding wait'_def wait_def cs1'_def cs1_def cs_def env' types
      using True by simp
  next
    case False
    then show ?thesis by (simp add: wait'_def wait_def)
  qed
  have deployed: "IsStatusConditionTrue cs1' ResourcesDeployed
                    = IsStatusConditionTrue cs1 ResourcesDeployed"
    by (simp add: cs1'_def cs1_def)
  show ?thesis
  proof (cases "statusUpdateError env \<noteq> None
               \<or> (\<not> wait \<and> IsStatusConditionTrue cs1 ResourcesDeployed
                    \<and> \<not> deleteComponents env)")
    case True
    then show ?thesis
      using second by (simp add: same_wait deployed env'_def [symmetric])
  next
    case False
    then have "(statusUpdateError env \<noteq> None
               \<or> (\<not> wait \<and> IsStatusConditionTrue cs1 ResourcesDeployed
                    \<and> \<not> deleteComponents env)) = False"
      by simp
    from first [unfolded this if_False]
    have "withConditions b (if wait then cs1 else cs3) = b" by simp
    then have csX: "(if wait then cs1 else cs3) = cs"
      unfolding cs_def by (rule withConditions_fixed)
    have one: "cs1' = cs \<and> cs1 = cs"
    proof (cases paused)
      case True
      have "agrees (if wait then cs1 else cs3) dC"
        using True by (simp add: cs1_def cs3_def)
      with csX have "agrees cs dC" by simp
      then show ?thesis
        by (simp add: cs1'_def cs1_def cs_def [symmetric] Set_agrees)
    next
      case False
      then show ?thesis by (simp add: cs1'_def cs1_def cs_def)
    qed
    have three: "cs3' = cs" if "\<not> wait"
    proof -
      from that csX have fix3: "cs3 = cs" by simp
      have "\<not> IsStatusConditionTrue cs3 ResourcesDeployed"
        by (simp add: cs3_def)
      with fix3 have nd: "\<not> IsStatusConditionTrue cs ResourcesDeployed"
        by simp
      have "agrees cs3 qC" by (simp add: cs3_def)
      with fix3 have "agrees cs qC" by simp
      then show ?thesis
        using nd one by (simp add: cs3'_def Set_agrees)
    qed
    show ?thesis
      using second False one three
      by (simp add: same_wait deployed env'_def [symmetric] cs_def)
  qed
qed

subsection \<open>The phases that wait for no deadline\<close>

lemma store_clock:
  "StatusUpdate (env\<lparr>now := tm\<rparr>) st = StatusUpdate env st"
  "Update (env\<lparr>now := tm\<rparr>) st = Update env st"
  "EnsureComponentStatusInitialized (env\<lparr>now := tm\<rparr>) a
     = EnsureComponentStatusInitialized env a"
  "updateStatus (env\<lparr>now := tm\<rparr>) st p = updateStatus env st p"
  by (simp_all add: updateStatus_def StatusUpdate_def Update_def
        EnsureComponentStatusInitialized_def)

lemma empty_clock:
  "reconcileEmpty (env\<lparr>now := tm\<rparr>) st = reconcileEmpty env st"
  unfolding reconcileEmpty_def store_clock by (rule refl)

lemma suspended_persisted:
  "if Suspend a \<or> statusUpdateError env \<noteq> None
   then stored (fst (reconcileSuspended env \<lparr>aw = a, stored = a\<rparr>)) = a
   else Phase (status (stored (fst (reconcileSuspended env \<lparr>aw = a, stored = a\<rparr>))))
          = AppWrapperResuming"
proof (cases "statusUpdateError env")
  case None
  then show ?thesis
    unfolding reconcileSuspended_def
    by (simp add: updateStatus_cases Let_def del: phase_string.simps)
next
  case (Some e)
  then show ?thesis
    unfolding reconcileSuspended_def
    by (simp add: updateStatus_cases Let_def del: phase_string.simps)
qed

lemma suspending_persisted:
  "if (IsStatusConditionTrue (Conditions (status a)) ResourcesDeployed
         \<and> \<not> deleteComponents env) \<or> statusUpdateError env \<noteq> None
   then stored (fst (reconcileSuspending env \<lparr>aw = a, stored = a\<rparr>)) = a
   else Phase (status (stored (fst (reconcileSuspending env \<lparr>aw = a, stored = a\<rparr>))))
          = AppWrapperSuspended"
proof (cases "statusUpdateError env")
  case None
  then show ?thesis
    unfolding reconcileSuspending_def
    by (simp add: updateStatus_cases Let_def conds_def del: phase_string.simps)
next
  case (Some e)
  then show ?thesis
    unfolding reconcileSuspending_def
    by (simp add: updateStatus_cases Let_def conds_def del: phase_string.simps)
qed

lemma resuming_persisted:
  "if statusUpdateError env \<noteq> None
   then stored (fst (reconcileResuming r env \<lparr>aw = a, stored = a\<rparr>)) = a
   else Phase (status (stored (fst (reconcileResuming r env \<lparr>aw = a, stored = a\<rparr>))))
          \<in> {AppWrapperSuspending, AppWrapperFailed, AppWrapperResetting, AppWrapperRunning}"
proof -
  define st where "st = \<lparr>aw = a, stored = a\<rparr>"
  define st1 where "st1 = (\<lambda>err. setCond env st
      (mkCondition Unhealthy ConditionTrue ''CreateFailed''
         (''error creating components: '' @ err)))"
  have kept: "stored (st1 err) = a" "stored st = a" for err
    by (simp_all add: st1_def st_def)
  have run: "reconcileResuming r env st =
      (if Suspend a then updateStatus env st AppWrapperSuspending
       else case createComponents env of
              Some (err, fatal) \<Rightarrow>
                if fatal then updateStatus env (st1 err) AppWrapperFailed
                else resetOrFail r env (st1 err)
            | None \<Rightarrow> updateStatus env st AppWrapperRunning)"
    unfolding reconcileResuming_def st1_def Let_def
    by (simp add: st_def)
  show ?thesis
  proof (cases "statusUpdateError env")
    case None
    have moved: "Phase (status (stored (fst (updateStatus env s p)))) = p" for s p
      using None by (simp add: updateStatus_cases Let_def)
    have rof: "Phase (status (stored (fst (resetOrFail r env s))))
                 \<in> {AppWrapperSuspending, AppWrapperFailed, AppWrapperResetting,
                     AppWrapperRunning}" for s
      using resetOrFail_moves [OF None, of r s] by auto
    show ?thesis
      unfolding st_def [symmetric] run
      using None rof by (auto simp add: moved split: option.split prod.split)
  next
    case (Some e)
    then have refused: "statusUpdateError env \<noteq> None" by simp
    show ?thesis
      unfolding st_def [symmetric] run
      using refused
      by (simp add: updateStatus_refused resetOrFail_refused kept
            split: option.split prod.split)
  qed
qed

subsection \<open>The phase \<open>Resetting\<close> at another time\<close>

lemma resetting_persisted:
  assumes rC: "rC = mkCondition ResourcesDeployed ConditionFalse
                 (phase_string AppWrapperResetting)
                 ''Resources deleted for resetting AppWrapper''"
    and cs1: "cs1 = cleared (now env) (Conditions (status a)) PodsReady
                 (phase_string AppWrapperResetting) []"
    and cs2: "cs2 = (if IsStatusConditionTrue cs1 ResourcesDeployed
                     then SetStatusCondition (now env) cs1 rC else cs1)"
    and pausing: "pausing =
       (case FindStatusCondition (Conditions (status a)) Unhealthy of
          None \<Rightarrow> False
        | Some c \<Rightarrow> Time_Before (now env)
                      (Time_Add (LastTransitionTime c) (retryPauseDuration r a)))"
  shows "if statusUpdateError env \<noteq> None
            \<or> (\<not> Suspend a
                 \<and> ((IsStatusConditionTrue (Conditions (status a)) ResourcesDeployed
                        \<and> \<not> deleteComponents env)
                      \<or> FindStatusCondition (Conditions (status a)) Unhealthy = None))
         then stored (fst (reconcileResetting r env \<lparr>aw = a, stored = a\<rparr>)) = a
         else if \<not> Suspend a \<and> pausing
         then stored (fst (reconcileResetting r env \<lparr>aw = a, stored = a\<rparr>))
                = withConditions a cs2
         else Phase (status (stored (fst (reconcileResetting r env \<lparr>aw = a, stored = a\<rparr>))))
                \<in> {AppWrapperSuspending, AppWrapperResuming}"
proof -
  define m1 where "m1 = ''Resources deleted for resetting AppWrapper''"
  define m2 where "m2 = ''Reset complete; resuming''"
  note folds = m1_def [symmetric] m2_def [symmetric]
  have types [simp]: "Type rC = ResourcesDeployed"
    by (simp add: rC del: phase_string.simps)
  show ?thesis
  proof (cases "statusUpdateError env")
    case None
    then show ?thesis
      unfolding pausing cs2 cs1 rC reconcileResetting_def folds
      by (simp add: requeueWithStatusUpdate_cases updateStatus_cases Let_def conds_def
            setCond_def clearCond_def clearCondition_cleared setCondition_def
            del: phase_string.simps split: option.split)
  next
    case (Some e)
    then show ?thesis
      unfolding pausing cs2 cs1 rC reconcileResetting_def folds
      by (simp add: requeueWithStatusUpdate_cases updateStatus_cases Let_def conds_def
            setCond_def clearCond_def clearCondition_cleared setCondition_def
            del: phase_string.simps split: option.split)
  qed
qed

lemma resetting_clock:
  assumes fixed: "stored (fst (reconcileResetting r env \<lparr>aw = b, stored = b\<rparr>)) = b"
    and phase: "Phase (status b) = AppWrapperResetting"
    and clock: "\<And>c. FindStatusCondition (Conditions (status b)) Unhealthy = Some c \<Longrightarrow>
        Time_Before (now env) (Time_Add (LastTransitionTime c) (retryPauseDuration r b))
          = Time_Before tm (Time_Add (LastTransitionTime c) (retryPauseDuration r b))"
  shows "stored (fst (reconcileResetting r (env\<lparr>now := tm\<rparr>) \<lparr>aw = b, stored = b\<rparr>)) = b"
proof -
  define env' where "env' = env\<lparr>now := tm\<rparr>"
  define cs where "cs = Conditions (status b)"
  define rC where "rC = mkCondition ResourcesDeployed ConditionFalse
                 (phase_string AppWrapperResetting)
                 ''Resources deleted for resetting AppWrapper''"
  define cs1 where "cs1 = cleared (now env) (Conditions (status b)) PodsReady
                 (phase_string AppWrapperResetting) []"
  define cs2 where "cs2 = (if IsStatusConditionTrue cs1 ResourcesDeployed
                     then SetStatusCondition (now env) cs1 rC else cs1)"
  define pausing where "pausing =
       (case FindStatusCondition (Conditions (status b)) Unhealthy of
          None \<Rightarrow> False
        | Some c \<Rightarrow> Time_Before (now env)
                      (Time_Add (LastTransitionTime c) (retryPauseDuration r b)))"
  define cs1' where "cs1' = cleared (now env') (Conditions (status b)) PodsReady
                 (phase_string AppWrapperResetting) []"
  define cs2' where "cs2' = (if IsStatusConditionTrue cs1' ResourcesDeployed
                     then SetStatusCondition (now env') cs1' rC else cs1')"
  define pausing' where "pausing' =
       (case FindStatusCondition (Conditions (status b)) Unhealthy of
          None \<Rightarrow> False
        | Some c \<Rightarrow> Time_Before (now env')
                      (Time_Add (LastTransitionTime c) (retryPauseDuration r b)))"
  define unchanged where "unchanged = (statusUpdateError env \<noteq> None
            \<or> (\<not> Suspend b
                 \<and> ((IsStatusConditionTrue (Conditions (status b)) ResourcesDeployed
                        \<and> \<not> deleteComponents env)
                      \<or> FindStatusCondition (Conditions (status b)) Unhealthy = None)))"
  have types [simp]: "Type rC = ResourcesDeployed" "Status rC = ConditionFalse"
    by (simp_all add: rC_def del: phase_string.simps)
  have env' [simp]: "now env' = tm" "statusUpdateError env' = statusUpdateError env"
    "deleteComponents env' = deleteComponents env"
    by (simp_all add: env'_def)
  have same: "pausing' = pausing"
    unfolding pausing'_def pausing_def env'(1)
    using clock by (simp split: option.split)
  note first = resetting_persisted [OF rC_def cs1_def cs2_def pausing_def,
      unfolded fixed unchanged_def [symmetric]]
  note second = resetting_persisted [OF rC_def cs1'_def cs2'_def pausing'_def,
      unfolded env' same unchanged_def [symmetric], folded env'_def]
  show ?thesis
  proof (cases unchanged)
    case True
    with second show ?thesis by (simp add: env'_def)
  next
    case False
    show ?thesis
    proof (cases "\<not> Suspend b \<and> pausing")
      case stays: True
      from first False stays have "b = withConditions b cs2"
        by simp
      then have fix2: "cs2 = cs"
        unfolding cs_def using withConditions_fixed [of b cs2] by simp
      have "\<not> IsStatusConditionTrue cs2 PodsReady"
        by (simp add: cs2_def cs1_def)
      with fix2 have ready: "\<not> IsStatusConditionTrue cs PodsReady" by simp
      have "\<not> IsStatusConditionTrue cs2 ResourcesDeployed"
        by (simp add: cs2_def)
      with fix2 have deployed: "\<not> IsStatusConditionTrue cs ResourcesDeployed" by simp
      have "cs1' = cs"
        using ready by (simp add: cs1'_def cs_def [symmetric] cleared_unchanged)
      then have "cs2' = cs"
        using deployed by (simp add: cs2'_def)
      with second False stays show ?thesis
        by (simp add: env'_def cs_def)
    next
      case moves: False
      from first False moves
      have "Phase (status b) \<in> {AppWrapperSuspending, AppWrapperResuming}"
        by (simp only: if_False)
      with phase show ?thesis by simp
    qed
  qed
qed

subsection \<open>The deletion protocol at another time\<close>

lemma deletion_clock:
  assumes fixed: "stored (fst (reconcileDeletion env \<lparr>aw = b, stored = b\<rparr>)) = b"
  shows "stored (fst (reconcileDeletion (env\<lparr>now := tm\<rparr>) \<lparr>aw = b, stored = b\<rparr>)) = b"
proof (cases "ContainsFinalizer b AppWrapperFinalizer")
  case False
  then show ?thesis by (simp add: reconcileDeletion_def)
next
  case True
  define env' where "env' = env\<lparr>now := tm\<rparr>"
  define cs where "cs = Conditions (status b)"
  define rC where "rC = mkCondition ResourcesDeployed ConditionFalse
      (phase_string AppWrapperTerminating) ''Resources successfully deleted''"
  define qC where "qC = mkCondition QuotaReserved ConditionFalse
      (phase_string AppWrapperTerminating) ''No resources deployed''"
  define rd where "rd = IsStatusConditionTrue (Conditions (status b)) ResourcesDeployed"
  define cs1 where "cs1 = (if rd then SetStatusCondition (now env) (Conditions (status b)) rC
                           else Conditions (status b))"
  define qr where "qr = IsStatusConditionTrue cs1 QuotaReserved"
  define cs2 where "cs2 = (if qr then SetStatusCondition (now env) cs1 qC else cs1)"
  define cs1' where "cs1' = (if rd then SetStatusCondition (now env') (Conditions (status b)) rC
                           else Conditions (status b))"
  define qr' where "qr' = IsStatusConditionTrue cs1' QuotaReserved"
  define cs2' where "cs2' = (if qr' then SetStatusCondition (now env') cs1' qC else cs1')"
  define gone where "gone = filter (\<lambda>x. x \<noteq> AppWrapperFinalizer) (Finalizers b)"
  have types [simp]: "Type rC = ResourcesDeployed" "Status rC = ConditionFalse"
    "Type qC = QuotaReserved" "Status qC = ConditionFalse"
    by (simp_all add: rC_def qC_def del: phase_string.simps)
  have env' [simp]: "now env' = tm" "statusUpdateError env' = statusUpdateError env"
    "deleteComponents env' = deleteComponents env" "updateError env' = updateError env"
    by (simp_all add: env'_def)
  have quota: "qr' = qr"
    by (simp add: qr'_def qr_def cs1'_def cs1_def)
  show ?thesis
  proof (cases "rd \<and> \<not> deleteComponents env")
    case blocked: True
    have "reconcileDeletion (env\<lparr>now := tm\<rparr>) \<lparr>aw = b, stored = b\<rparr>
            = reconcileDeletion env \<lparr>aw = b, stored = b\<rparr>"
      unfolding reconcileDeletion_def store_clock
      using True blocked by (simp add: Let_def conds_def rd_def)
    with fixed show ?thesis by simp
  next
    case proceed: False
    then have proceed': "\<not> (rd \<and> \<not> deleteComponents env')" by simp
    note first = deletion_persisted [OF True rC_def qC_def rd_def cs1_def qr_def cs2_def
        proceed, unfolded fixed, folded gone_def]
    note second = deletion_persisted [OF True rC_def qC_def rd_def cs1'_def qr'_def cs2'_def
        proceed', unfolded env' quota, folded gone_def env'_def]
    show ?thesis
    proof (cases "(rd \<or> qr) \<and> statusUpdateError env \<noteq> None")
      case True
      with second show ?thesis by (simp add: env'_def)
    next
      case written: False
      then have w: "((rd \<or> qr) \<and> statusUpdateError env \<noteq> None) = False"
        by simp
      note first' = first [unfolded w if_False]
      note second' = second [unfolded w if_False]
      have kept: "updateError env \<noteq> None"
      proof
        assume "updateError env = None"
        with first' have "b = (withConditions b cs2)\<lparr>Finalizers := gone\<rparr>"
          by simp
        then have "Finalizers b = Finalizers ((withConditions b cs2)\<lparr>Finalizers := gone\<rparr>)"
          by (rule arg_cong)
        then have "set (Finalizers b) = set gone"
          by simp
        moreover have "AppWrapperFinalizer \<notin> set gone"
          by (simp add: gone_def)
        ultimately show False
          using True by (simp add: ContainsFinalizer_def)
      qed
      with first' have "b = withConditions b cs2"
        by simp
      then have fix2: "cs2 = cs"
        unfolding cs_def using withConditions_fixed [of b cs2] by simp
      have "\<not> IsStatusConditionTrue cs2 ResourcesDeployed"
        "\<not> IsStatusConditionTrue cs2 QuotaReserved"
        by (simp_all add: cs2_def cs1_def qr_def rd_def)
      with fix2 have clean: "\<not> rd" "\<not> IsStatusConditionTrue cs QuotaReserved"
        by (simp_all add: rd_def cs_def)
      then have "\<not> qr" by (simp add: qr_def cs1_def cs_def)
      then have "cs2' = cs"
        using clean quota by (simp add: cs2'_def cs1'_def cs_def)
      with second' kept show ?thesis
        by (simp add: env'_def cs_def)
    qed
  qed
qed

subsection \<open>The phase \<open>Running\<close> at another time\<close>

lemma pods_refused:
  assumes "statusUpdateError env \<noteq> None"
  shows "stored (fst (reconcileRunningPods r env st)) = stored st"
proof -
  define m1 where "m1 = ''FoundFailedPods''"
  define m2 where "m2 = ''SufficientPodsReady''"
  define m3 where "m3 = '' pods running; ''"
  define m4 where "m4 = '' pods succeeded''"
  define m5 where "m5 = ''FoundNoFailedPods''"
  define m6 where "m6 = ''InsufficientPodsReady''"
  define m7 where "m7 = '' pods succeeded and no running, pending, or failed pods''"
  note folds = m1_def [symmetric] m2_def [symmetric] m3_def [symmetric] m4_def [symmetric]
    m5_def [symmetric] m6_def [symmetric] m7_def [symmetric]
  note refused = updateStatus_refused [OF assms] requeue_refused [OF assms]
    resetOrFail_refused [OF assms]
  show ?thesis
    unfolding reconcileRunningPods_def folds Let_def
    by (simp add: refused del: phase_string.simps split: sum.split option.split)
qed

lemma running_refused:
  assumes "statusUpdateError env \<noteq> None"
  shows "stored (fst (reconcileRunning r env st)) = stored st"
proof -
  define m1 where "m1 = ''MissingComponent''"
  define m2 where "m2 = ''Only found ''"
  define m3 where "m3 = '' deployed components, but was expecting ''"
  note folds = m1_def [symmetric] m2_def [symmetric] m3_def [symmetric]
  show ?thesis
    unfolding reconcileRunning_def folds Let_def
    by (simp add: updateStatus_refused [OF assms] pods_refused [OF assms]
          del: phase_string.simps split: sum.split prod.split)
qed

text \<open>
  The paths of the pod-level part on which the phase does not stay: unless the condition
  \<open>ResourcesDeployed\<close> is missing where its transition time is read, the phase moves.
\<close>

lemma pods_otherwise:
  assumes ps: "getPodStatus env = Inr ps"
    and uC: "uC = mkCondition Unhealthy ConditionTrue ''FoundFailedPods'' []"
    and cs0: "cs0 = SetStatusCondition (now env) (Conditions (status am)) uC"
    and graceW: "graceW = (if expected ps \<le>s pending ps + running ps + succeeded ps
                           then warmupGraceDuration r am else admissionGraceDuration r am)"
    and leaves: "leaves =
       (if expected ps \<le>s succeeded ps \<and> pending ps + running ps + failed ps = 0 then True
        else if 0 <s failed ps then
          (case FindStatusCondition cs0 Unhealthy of
             None \<Rightarrow> True
           | Some c \<Rightarrow>
               \<not> Time_Before (now env)
                    (Time_Add (LastTransitionTime c) (failureGraceDuration r am)))
        else if expected ps \<le>s running ps + succeeded ps then False
        else
          (case FindStatusCondition (Conditions (status am)) ResourcesDeployed of
             None \<Rightarrow> False
           | Some c \<Rightarrow>
               \<not> Time_Before (now env) (Time_Add (LastTransitionTime c) graceW)))"
    and missing: "missing =
       (\<not> (expected ps \<le>s succeeded ps \<and> pending ps + running ps + failed ps = 0)
        \<and> \<not> 0 <s failed ps \<and> \<not> expected ps \<le>s running ps + succeeded ps
        \<and> FindStatusCondition (Conditions (status am)) ResourcesDeployed = None)"
    and ok: "statusUpdateError env = None"
  shows "(leaves \<longrightarrow>
            Phase (status (stored (fst (reconcileRunningPods r env \<lparr>aw = am, stored = a\<rparr>))))
              \<in> {AppWrapperSucceeded, AppWrapperResetting, AppWrapperFailed})
       \<and> (missing \<longrightarrow>
            stored (fst (reconcileRunningPods r env \<lparr>aw = am, stored = a\<rparr>)) = a)"
proof -
  define m1 where "m1 = ''FoundFailedPods''"
  define m2 where "m2 = ''SufficientPodsReady''"
  define m3 where "m3 = '' pods running; ''"
  define m4 where "m4 = '' pods succeeded''"
  define m5 where "m5 = ''FoundNoFailedPods''"
  define m6 where "m6 = ''InsufficientPodsReady''"
  define m7 where "m7 = '' pods succeeded and no running, pending, or failed pods''"
  note folds = m1_def [symmetric] m2_def [symmetric] m3_def [symmetric] m4_def [symmetric]
    m5_def [symmetric] m6_def [symmetric] m7_def [symmetric]
  have annotations [simp]:
    "failureGraceDuration r (withConditions am cs) = failureGraceDuration r am"
    "warmupGraceDuration r (withConditions am cs) = warmupGraceDuration r am"
    "admissionGraceDuration r (withConditions am cs) = admissionGraceDuration r am" for cs
    by simp_all
  have rof: "Phase (status (stored (fst (resetOrFail r env st))))
               \<in> {AppWrapperSucceeded, AppWrapperResetting, AppWrapperFailed}" for st
    using resetOrFail_moves [OF ok, of r st] by auto
  consider (success) "expected ps \<le>s succeeded ps \<and> pending ps + running ps + failed ps = 0"
    | (failed) "\<not> (expected ps \<le>s succeeded ps \<and> pending ps + running ps + failed ps = 0)"
        "0 <s failed ps"
    | (sufficient) "\<not> (expected ps \<le>s succeeded ps \<and> pending ps + running ps + failed ps = 0)"
        "\<not> 0 <s failed ps" "expected ps \<le>s running ps + succeeded ps"
    | (waiting) "\<not> (expected ps \<le>s succeeded ps \<and> pending ps + running ps + failed ps = 0)"
        "\<not> 0 <s failed ps" "\<not> expected ps \<le>s running ps + succeeded ps"
    by blast
  then show ?thesis
  proof cases
    case success
    then show ?thesis
      unfolding leaves missing reconcileRunningPods_def folds
      by (simp add: ps ok updateStatus_cases Let_def del: phase_string.simps)
  next
    case failed
    have nsucc: "(expected ps \<le>s succeeded ps
                  \<and> pending ps + running ps + failed ps = 0) = False"
      using failed(1) by simp
    obtain c where c: "FindStatusCondition cs0 Unhealthy = Some c"
      using Find_Set_exists [of uC Unhealthy "now env" "Conditions (status am)"]
      by (auto simp add: cs0 uC)
    show ?thesis
      using failed(2) c rof
      unfolding leaves missing cs0 uC reconcileRunningPods_def folds
      by (auto simp add: nsucc ps ok requeueWithStatusUpdate_cases Let_def conds_def
            setCond_def setCondition_def simp del: phase_string.simps split: option.split)
  next
    case sufficient
    have nsucc: "(expected ps \<le>s succeeded ps
                  \<and> pending ps + running ps + failed ps = 0) = False"
      using sufficient(1) by simp
    show ?thesis
      using sufficient(2,3)
      unfolding leaves missing by (simp add: nsucc)
  next
    case waiting
    have nsucc: "(expected ps \<le>s succeeded ps
                  \<and> pending ps + running ps + failed ps = 0) = False"
      using waiting(1) by simp
    show ?thesis
      using waiting(2,3) rof
      unfolding leaves missing graceW reconcileRunningPods_def folds
      by (auto simp add: nsucc ps ok requeueWithStatusUpdate_cases Let_def conds_def
            setCond_def clearCond_def clearCondition_cleared setCondition_def
            simp del: phase_string.simps split: option.split)
  qed
qed

text \<open>The component loop reads the clock only to stamp the condition of a child that is
  not found.\<close>

lemma componentLoop_clock:
  "fst (componentLoop (env\<lparr>now := tm\<rparr>) css n) = fst (componentLoop env css n)"
  by (induction css arbitrary: n) (simp_all add: Let_def split_beta split: option.split)

lemma componentLoop_fixed_clock:
  "componentLoop env css n = (res, css) \<Longrightarrow>
     componentLoop (env\<lparr>now := tm\<rparr>) css n = (res, css)"
proof (induction css arbitrary: n res)
  case Nil
  then show ?case by simp
next
  case (Cons cs rest)
  show ?case
  proof (cases "getComponent env (Kind cs, APIVersion cs, Name cs)")
    case None
    obtain res' rest' where rec: "componentLoop env rest (n + 1) = (res', rest')"
      by (cases "componentLoop env rest (n + 1)")
    with Cons.prems None have "res' = res" "rest' = rest"
      by simp_all
    with rec have "componentLoop env rest (n + 1) = (res, rest)" by simp
    from Cons.IH [OF this] None show ?thesis by simp
  next
    case (Some err)
    show ?thesis
    proof (cases "err = NotFound")
      case True
      define uc where "uc = mkCondition Unhealthy ConditionTrue ''ComponentNotFound'' []"
      obtain res' rest' where rec: "componentLoop env rest n = (res', rest')"
        by (cases "componentLoop env rest n")
      with Cons.prems Some True
      have res: "res' = res" and rest: "rest' = rest"
        and cs: "cs\<lparr>ComponentConditions :=
                     SetStatusCondition (now env) (ComponentConditions cs) uc\<rparr> = cs"
        by (simp_all add: uc_def)
      from cs have "ComponentConditions (cs\<lparr>ComponentConditions :=
                     SetStatusCondition (now env) (ComponentConditions cs) uc\<rparr>)
                      = ComponentConditions cs"
        by (rule arg_cong)
      then have "SetStatusCondition (now env) (ComponentConditions cs) uc
                   = ComponentConditions cs"
        by simp
      then have "SetStatusCondition tm (ComponentConditions cs) uc = ComponentConditions cs"
        by (rule Set_other_clock)
      moreover from rec res rest have "componentLoop env rest n = (res, rest)" by simp
      note Cons.IH [OF this]
      ultimately show ?thesis
        using Some True by (simp add: uc_def)
    next
      case False
      with Cons.prems Some show ?thesis by simp
    qed
  qed
qed

lemma getComponentStatus_clock:
  "fst (getComponentStatus (env\<lparr>now := tm\<rparr>) a) = fst (getComponentStatus env a)"
proof -
  obtain res css where loop: "componentLoop env (ComponentStatus (status a)) 0 = (res, css)"
    by (cases "componentLoop env (ComponentStatus (status a)) 0")
  obtain res' css' where
    loop': "componentLoop (env\<lparr>now := tm\<rparr>) (ComponentStatus (status a)) 0 = (res', css')"
    by (cases "componentLoop (env\<lparr>now := tm\<rparr>) (ComponentStatus (status a)) 0")
  have "res' = res"
    using componentLoop_clock [where env = env and tm = tm
        and css = "ComponentStatus (status a)" and n = 0] loop loop'
    by simp
  then show ?thesis
    by (simp add: getComponentStatus_def loop loop' Let_def split: sum.split)
qed

lemma getComponentStatus_fixed_clock:
  assumes "getComponentStatus env b = (res, b)"
  shows "getComponentStatus (env\<lparr>now := tm\<rparr>) b = (res, b)"
proof -
  obtain res0 css where loop: "componentLoop env (ComponentStatus (status b)) 0 = (res0, css)"
    by (cases "componentLoop env (ComponentStatus (status b)) 0")
  from assms loop have "withComponentStatus b css = b"
    by (simp add: getComponentStatus_def Let_def split: sum.splits)
  then have "ComponentStatus (status (withComponentStatus b css)) = ComponentStatus (status b)"
    by simp
  then have css: "css = ComponentStatus (status b)"
    by simp
  from componentLoop_fixed_clock [OF loop [unfolded css]]
  have "componentLoop (env\<lparr>now := tm\<rparr>) (ComponentStatus (status b)) 0
          = (res0, ComponentStatus (status b))" .
  with assms loop css show ?thesis
    by (simp add: getComponentStatus_def Let_def)
qed

lemma getPodStatus_clock: "getPodStatus (env\<lparr>now := tm\<rparr>) = getPodStatus env"
  by (simp add: getPodStatus_def split: sum.split)

lemma withComponentStatus_same [simp]:
  "withComponentStatus a (ComponentStatus (status a)) = a"
  by (simp add: withComponentStatus_def)

lemma pods_clock:
  assumes fixed: "stored (fst (reconcileRunningPods r env \<lparr>aw = am, stored = b\<rparr>)) = b"
    and phase: "Phase (status b) = AppWrapperRunning"
    and ok: "statusUpdateError env = None"
    and conds: "Conditions (status am) = Conditions (status b)"
      "Conditions (status am') = Conditions (status b)"
    and anns: "Annotations am = Annotations b" "Annotations am' = Annotations b"
    and link: "ComponentStatus (status am) = ComponentStatus (status b) \<Longrightarrow> am' = b"
    and clockU: "\<And>c. FindStatusCondition (Conditions (status b)) Unhealthy = Some c \<Longrightarrow>
        Time_Before (now env) (Time_Add (LastTransitionTime c) (failureGraceDuration r b))
          = Time_Before tm (Time_Add (LastTransitionTime c) (failureGraceDuration r b))"
    and clockW: "\<And>c. FindStatusCondition (Conditions (status b)) ResourcesDeployed = Some c \<Longrightarrow>
        Time_Before (now env) (Time_Add (LastTransitionTime c) (warmupGraceDuration r b))
          = Time_Before tm (Time_Add (LastTransitionTime c) (warmupGraceDuration r b))"
    and clockA: "\<And>c. FindStatusCondition (Conditions (status b)) ResourcesDeployed = Some c \<Longrightarrow>
        Time_Before (now env) (Time_Add (LastTransitionTime c) (admissionGraceDuration r b))
          = Time_Before tm (Time_Add (LastTransitionTime c) (admissionGraceDuration r b))"
  shows "stored (fst (reconcileRunningPods r (env\<lparr>now := tm\<rparr>) \<lparr>aw = am', stored = b\<rparr>)) = b"
proof (cases "getPodStatus env")
  case (Inl err)
  then have "getPodStatus (env\<lparr>now := tm\<rparr>) = Inl err"
    by (simp add: getPodStatus_clock)
  then show ?thesis
    by (simp add: reconcileRunningPods_def)
next
  case (Inr ps)
  define env' where "env' = env\<lparr>now := tm\<rparr>"
  have ps: "getPodStatus env = Inr ps" by (rule Inr)
  have ps': "getPodStatus env' = Inr ps"
    using Inr by (simp add: getPodStatus_clock env'_def)
  have env' [simp]: "now env' = tm" "statusUpdateError env' = statusUpdateError env"
    by (simp_all add: env'_def)
  have ok': "statusUpdateError env' = None"
    using ok by simp
  define cs where "cs = Conditions (status b)"
  define uC where "uC = mkCondition Unhealthy ConditionTrue ''FoundFailedPods'' []"
  define pC where "pC = mkCondition PodsReady ConditionTrue ''SufficientPodsReady''
               (string_of_int32 (running ps) @ '' pods running; ''
                  @ string_of_int32 (succeeded ps) @ '' pods succeeded'')"
  define m5 where "m5 = ''FoundNoFailedPods''"
  define m6 where "m6 = ''InsufficientPodsReady''"
  define gF where "gF = failureGraceDuration r b"
  define gW where "gW = (if expected ps \<le>s pending ps + running ps + succeeded ps
                         then warmupGraceDuration r b else admissionGraceDuration r b)"
  have graceF: "failureGraceDuration r am = gF" "failureGraceDuration r am' = gF"
    using grace_depends_on_annotations(3) [OF anns(1), of r]
      grace_depends_on_annotations(3) [OF anns(2), of r]
    by (simp_all add: gF_def)
  have graceW: "gW = (if expected ps \<le>s pending ps + running ps + succeeded ps
                           then warmupGraceDuration r am else admissionGraceDuration r am)"
    and graceW': "gW = (if expected ps \<le>s pending ps + running ps + succeeded ps
                           then warmupGraceDuration r am' else admissionGraceDuration r am')"
    using grace_depends_on_annotations(1,2) [OF anns(1), of r]
      grace_depends_on_annotations(1,2) [OF anns(2), of r]
    by (simp_all add: gW_def)
  define cs0 where "cs0 = SetStatusCondition (now env) (Conditions (status am)) uC"
  define cs1 where "cs1 = cleared (now env) (Conditions (status am)) Unhealthy m5 []"
  define cs2 where "cs2 = cleared (now env) cs1 PodsReady m6 (podDetailsMessage ps)"
  define stay where "stay =
       (if expected ps \<le>s succeeded ps \<and> pending ps + running ps + failed ps = 0 then None
        else if 0 <s failed ps then
          (case FindStatusCondition cs0 Unhealthy of
             None \<Rightarrow> None
           | Some c \<Rightarrow>
               if Time_Before (now env)
                    (Time_Add (LastTransitionTime c) (failureGraceDuration r am))
               then Some cs0 else None)
        else if expected ps \<le>s running ps + succeeded ps then
          Some (SetStatusCondition (now env) cs1 pC)
        else
          (case FindStatusCondition cs2 ResourcesDeployed of
             None \<Rightarrow> None
           | Some c \<Rightarrow>
               if Time_Before (now env) (Time_Add (LastTransitionTime c) gW)
               then Some cs2 else None))"
  define leaves where "leaves =
       (if expected ps \<le>s succeeded ps \<and> pending ps + running ps + failed ps = 0 then True
        else if 0 <s failed ps then
          (case FindStatusCondition cs0 Unhealthy of
             None \<Rightarrow> True
           | Some c \<Rightarrow>
               \<not> Time_Before (now env)
                    (Time_Add (LastTransitionTime c) (failureGraceDuration r am)))
        else if expected ps \<le>s running ps + succeeded ps then False
        else
          (case FindStatusCondition (Conditions (status am)) ResourcesDeployed of
             None \<Rightarrow> False
           | Some c \<Rightarrow>
               \<not> Time_Before (now env) (Time_Add (LastTransitionTime c) gW)))"
  define missing where "missing =
       (\<not> (expected ps \<le>s succeeded ps \<and> pending ps + running ps + failed ps = 0)
        \<and> \<not> 0 <s failed ps \<and> \<not> expected ps \<le>s running ps + succeeded ps
        \<and> FindStatusCondition (Conditions (status am)) ResourcesDeployed = None)"
  define cs0' where "cs0' = SetStatusCondition (now env') (Conditions (status am')) uC"
  define cs1' where "cs1' = cleared (now env') (Conditions (status am')) Unhealthy m5 []"
  define cs2' where "cs2' = cleared (now env') cs1' PodsReady m6 (podDetailsMessage ps)"
  define stay' where "stay' =
       (if expected ps \<le>s succeeded ps \<and> pending ps + running ps + failed ps = 0 then None
        else if 0 <s failed ps then
          (case FindStatusCondition cs0' Unhealthy of
             None \<Rightarrow> None
           | Some c \<Rightarrow>
               if Time_Before (now env')
                    (Time_Add (LastTransitionTime c) (failureGraceDuration r am'))
               then Some cs0' else None)
        else if expected ps \<le>s running ps + succeeded ps then
          Some (SetStatusCondition (now env') cs1' pC)
        else
          (case FindStatusCondition cs2' ResourcesDeployed of
             None \<Rightarrow> None
           | Some c \<Rightarrow>
               if Time_Before (now env') (Time_Add (LastTransitionTime c) gW)
               then Some cs2' else None))"
  define missing' where "missing' =
       (\<not> (expected ps \<le>s succeeded ps \<and> pending ps + running ps + failed ps = 0)
        \<and> \<not> 0 <s failed ps \<and> \<not> expected ps \<le>s running ps + succeeded ps
        \<and> FindStatusCondition (Conditions (status am')) ResourcesDeployed = None)"
  have types [simp]: "Type uC = Unhealthy" "Type pC = PodsReady" "LastTransitionTime uC = 0"
    by (simp_all add: uC_def pC_def)
  note first = pods_persisted [OF ps uC_def pC_def cs0_def
      cs1_def [unfolded m5_def]
      cs2_def [unfolded m6_def cs1_def m5_def, folded cs1_def [unfolded m5_def]]
      graceW stay_def, of b, unfolded fixed]
  note second = pods_persisted [OF ps' uC_def pC_def cs0'_def
      cs1'_def [unfolded m5_def]
      cs2'_def [unfolded m6_def cs1'_def m5_def, folded cs1'_def [unfolded m5_def]]
      graceW' stay'_def, of b]
  note other = pods_otherwise [OF ps uC_def cs0_def graceW leaves_def missing_def ok, of b,
      unfolded fixed]
  have moved: False if leaves
    using other that phase by simp
  have written: "csX = cs \<and> am' = b" if "b = b\<lparr>status := status (withConditions am csX)\<rparr>"
    for csX
  proof -
    from that have "status b = status (b\<lparr>status := status (withConditions am csX)\<rparr>)"
      by (rule arg_cong)
    then have s: "status (withConditions am csX) = status b"
      by simp
    have "Conditions (status (withConditions am csX)) = Conditions (status b)"
      and "ComponentStatus (status (withConditions am csX)) = ComponentStatus (status b)"
      by (simp_all only: s)
    then show ?thesis
      using link by (simp add: cs_def)
  qed
  have stays: ?thesis if "stay' = Some cs" "am' = b"
  proof -
    from second [unfolded that(1)] have
      "stored (fst (reconcileRunningPods r env' \<lparr>aw = am', stored = b\<rparr>))
         = b\<lparr>status := status (withConditions am' cs)\<rparr>"
      using ok by simp
    then show ?thesis
      by (simp add: that(2) cs_def env'_def)
  qed
  consider (success) "expected ps \<le>s succeeded ps \<and> pending ps + running ps + failed ps = 0"
    | (failed) "\<not> (expected ps \<le>s succeeded ps \<and> pending ps + running ps + failed ps = 0)"
        "0 <s failed ps"
    | (sufficient) "\<not> (expected ps \<le>s succeeded ps \<and> pending ps + running ps + failed ps = 0)"
        "\<not> 0 <s failed ps" "expected ps \<le>s running ps + succeeded ps"
    | (waiting) "\<not> (expected ps \<le>s succeeded ps \<and> pending ps + running ps + failed ps = 0)"
        "\<not> 0 <s failed ps" "\<not> expected ps \<le>s running ps + succeeded ps"
    by blast
  then show ?thesis
  proof cases
    case success
    then have leaves by (simp add: leaves_def)
    then show ?thesis using moved by simp
  next
    case failed
    have nsucc: "(expected ps \<le>s succeeded ps
                  \<and> pending ps + running ps + failed ps = 0) = False"
      using failed(1) by simp
    define test where "test = (case FindStatusCondition cs0 Unhealthy of
            None \<Rightarrow> False
          | Some e \<Rightarrow> Time_Before (now env) (Time_Add (LastTransitionTime e) gF))"
    define test' where "test' = (case FindStatusCondition cs0' Unhealthy of
            None \<Rightarrow> False
          | Some e \<Rightarrow> Time_Before tm (Time_Add (LastTransitionTime e) gF))"
    have "(case FindStatusCondition (SetStatusCondition (now env) cs uC) (Type uC) of
            None \<Rightarrow> False
          | Some e \<Rightarrow> Time_Before (now env) (Time_Add (LastTransitionTime e) gF))
       = (case FindStatusCondition (SetStatusCondition tm cs uC) (Type uC) of
            None \<Rightarrow> False
          | Some e \<Rightarrow> Time_Before tm (Time_Add (LastTransitionTime e) gF))"
      by (rule deadline_clock) (simp_all add: clockU cs_def gF_def)
    then have same: "test' = test"
      unfolding test'_def test_def cs0'_def cs0_def conds env' types cs_def by simp
    have stay: "stay = (if test then Some cs0 else None)"
      unfolding stay_def test_def graceF nsucc
      using failed(2) by (simp split: option.split)
    have stay': "stay' = (if test then Some cs0' else None)"
      unfolding stay'_def same [symmetric] test'_def graceF nsucc env'
      using failed(2) by (simp split: option.split)
    have leaves: "leaves = (\<not> test)"
      unfolding leaves_def test_def graceF nsucc
      using failed(2) Find_Set_exists [of uC Unhealthy "now env" "Conditions (status am)"]
      by (auto simp add: cs0_def split: option.split)
    show ?thesis
    proof (cases test)
      case True
      from first [unfolded stay] True ok
      have "b = b\<lparr>status := status (withConditions am cs0)\<rparr>" by simp
      from written [OF this] have fix0: "cs0 = cs" and b: "am' = b" by simp_all
      have "agrees cs0 uC" by (simp add: cs0_def)
      with fix0 have "agrees cs uC" by simp
      then have "cs0' = cs"
        by (simp add: cs0'_def conds cs_def [symmetric] Set_agrees)
      with stay' True have "stay' = Some cs" by simp
      then show ?thesis using b by (rule stays)
    next
      case False
      with leaves moved show ?thesis by simp
    qed
  next
    case sufficient
    have nsucc: "(expected ps \<le>s succeeded ps
                  \<and> pending ps + running ps + failed ps = 0) = False"
      using sufficient(1) by simp
    define csX where "csX = SetStatusCondition (now env) cs1 pC"
    have stay: "stay = Some csX"
      unfolding stay_def nsucc csX_def using sufficient(2,3) by simp
    have stay': "stay' = Some (SetStatusCondition tm cs1' pC)"
      unfolding stay'_def nsucc env' using sufficient(2,3) by simp
    from first [unfolded stay] ok
    have "b = b\<lparr>status := status (withConditions am csX)\<rparr>" by simp
    from written [OF this] have fixX: "csX = cs" and b: "am' = b" by simp_all
    have "\<not> IsStatusConditionTrue csX Unhealthy" "agrees csX pC"
      by (simp_all add: csX_def cs1_def)
    with fixX have healthy: "\<not> IsStatusConditionTrue cs Unhealthy" and ready: "agrees cs pC"
      by simp_all
    have "cs1' = cs"
      using healthy by (simp add: cs1'_def conds cs_def [symmetric] cleared_unchanged)
    with stay' ready have "stay' = Some cs"
      by (simp add: Set_agrees)
    then show ?thesis using b by (rule stays)
  next
    case waiting
    have nsucc: "(expected ps \<le>s succeeded ps
                  \<and> pending ps + running ps + failed ps = 0) = False"
      using waiting(1) by simp
    have find2: "FindStatusCondition cs2 ResourcesDeployed
                   = FindStatusCondition cs ResourcesDeployed"
      "FindStatusCondition cs2' ResourcesDeployed = FindStatusCondition cs ResourcesDeployed"
      by (simp_all add: cs2_def cs1_def cs2'_def cs1'_def conds cs_def)
    show ?thesis
    proof (cases "FindStatusCondition cs ResourcesDeployed")
      case None
      then have "missing'" 
        using waiting by (simp add: missing'_def conds cs_def)
      define leaves' where "leaves' =
       (if expected ps \<le>s succeeded ps \<and> pending ps + running ps + failed ps = 0 then True
        else if 0 <s failed ps then
          (case FindStatusCondition cs0' Unhealthy of
             None \<Rightarrow> True
           | Some c \<Rightarrow>
               \<not> Time_Before (now env')
                    (Time_Add (LastTransitionTime c) (failureGraceDuration r am')))
        else if expected ps \<le>s running ps + succeeded ps then False
        else
          (case FindStatusCondition (Conditions (status am')) ResourcesDeployed of
             None \<Rightarrow> False
           | Some c \<Rightarrow>
               \<not> Time_Before (now env') (Time_Add (LastTransitionTime c) gW)))"
      from pods_otherwise [OF ps' uC_def cs0'_def graceW' leaves'_def missing'_def ok', of b]
        \<open>missing'\<close>
      show ?thesis by (simp add: env'_def)
    next
      case (Some c)
      define test where "test = Time_Before (now env) (Time_Add (LastTransitionTime c) gW)"
      have same: "Time_Before tm (Time_Add (LastTransitionTime c) gW) = test"
        using clockW [of c] clockA [of c] Some
        by (simp add: test_def gW_def cs_def)
      have stay: "stay = (if test then Some cs2 else None)"
        unfolding stay_def nsucc find2 Some test_def
        using waiting(2,3) by simp
      have stay': "stay' = (if test then Some cs2' else None)"
        unfolding stay'_def nsucc find2 Some env' option.case same
        using waiting(2,3) by simp
      have leaves: "leaves = (\<not> test)"
        unfolding leaves_def nsucc conds cs_def [symmetric] Some test_def
        using waiting(2,3) by simp
      show ?thesis
      proof (cases test)
        case True
        from first [unfolded stay] True ok
        have "b = b\<lparr>status := status (withConditions am cs2)\<rparr>" by simp
        from written [OF this] have fix2: "cs2 = cs" and b: "am' = b" by simp_all
        have "\<not> IsStatusConditionTrue cs2 Unhealthy" "\<not> IsStatusConditionTrue cs2 PodsReady"
          by (simp_all add: cs2_def cs1_def)
        with fix2 have healthy: "\<not> IsStatusConditionTrue cs Unhealthy"
          and unready: "\<not> IsStatusConditionTrue cs PodsReady"
          by simp_all
        have "cs1' = cs"
          using healthy by (simp add: cs1'_def conds cs_def [symmetric] cleared_unchanged)
        then have "cs2' = cs"
          using unready by (simp add: cs2'_def cleared_unchanged)
        with stay' True have "stay' = Some cs" by simp
        then show ?thesis using b by (rule stays)
      next
        case False
        with leaves moved show ?thesis by simp
      qed
    qed
  qed
qed

lemma running_clock:
  assumes fixed: "stored (fst (reconcileRunning r env \<lparr>aw = b, stored = b\<rparr>)) = b"
    and phase: "Phase (status b) = AppWrapperRunning"
    and clockU: "\<And>c. FindStatusCondition (Conditions (status b)) Unhealthy = Some c \<Longrightarrow>
        Time_Before (now env) (Time_Add (LastTransitionTime c) (failureGraceDuration r b))
          = Time_Before tm (Time_Add (LastTransitionTime c) (failureGraceDuration r b))"
    and clockW: "\<And>c. FindStatusCondition (Conditions (status b)) ResourcesDeployed = Some c \<Longrightarrow>
        Time_Before (now env) (Time_Add (LastTransitionTime c) (warmupGraceDuration r b))
          = Time_Before tm (Time_Add (LastTransitionTime c) (warmupGraceDuration r b))"
    and clockA: "\<And>c. FindStatusCondition (Conditions (status b)) ResourcesDeployed = Some c \<Longrightarrow>
        Time_Before (now env) (Time_Add (LastTransitionTime c) (admissionGraceDuration r b))
          = Time_Before tm (Time_Add (LastTransitionTime c) (admissionGraceDuration r b))"
  shows "stored (fst (reconcileRunning r (env\<lparr>now := tm\<rparr>) \<lparr>aw = b, stored = b\<rparr>)) = b"
proof (cases "statusUpdateError env")
  case (Some e)
  then have "statusUpdateError (env\<lparr>now := tm\<rparr>) \<noteq> None" by simp
  from running_refused [OF this] show ?thesis by simp
next
  case None
  define env' where "env' = env\<lparr>now := tm\<rparr>"
  define m1 where "m1 = ''MissingComponent''"
  define m2 where "m2 = ''Only found ''"
  define m3 where "m3 = '' deployed components, but was expecting ''"
  note folds = m1_def [symmetric] m2_def [symmetric] m3_def [symmetric]
  have not_suspended: "\<not> Suspend b"
  proof
    assume "Suspend b"
    then have "Phase (status (stored (fst (reconcileRunning r env \<lparr>aw = b, stored = b\<rparr>))))
                 = AppWrapperSuspending"
      using None by (simp add: reconcileRunning_def updateStatus_cases Let_def)
    with fixed phase show False by simp
  qed
  obtain res a' where comp: "getComponentStatus env b = (res, a')"
    by (cases "getComponentStatus env b")
  obtain res' a'' where comp0: "getComponentStatus env' b = (res', a'')"
    by (cases "getComponentStatus env' b")
  have "res' = res"
    using getComponentStatus_clock [where env = env and tm = tm and a = b] comp comp0 by (simp add: env'_def)
  with comp0 have comp': "getComponentStatus env' b = (res, a'')" by simp
  note frame = getComponentStatus_frame [OF comp]
  note frame' = getComponentStatus_frame [OF comp']
  have a'_form: "a' = withComponentStatus b (ComponentStatus (status a'))"
    using comp by (auto simp add: getComponentStatus_def Let_def withComponentStatus_def
        split: prod.splits sum.splits)
  have link: "a'' = b" if "ComponentStatus (status a') = ComponentStatus (status b)"
  proof -
    from that a'_form have "a' = b" by simp
    with comp have "getComponentStatus env b = (res, b)" by simp
    from getComponentStatus_fixed_clock [OF this, where tm = tm] comp' show ?thesis
      by (simp add: env'_def)
  qed
  show ?thesis
  proof (cases res)
    case (Inl err)
    then show ?thesis
      using not_suspended comp'
      by (simp add: reconcileRunning_def env'_def [symmetric])
  next
    case (Inr s)
    show ?thesis
    proof (cases "deployed s = expectedComponents s")
      case False
      have "Phase (status (stored (fst (reconcileRunning r env \<lparr>aw = b, stored = b\<rparr>))))
                 = AppWrapperFailed"
        unfolding reconcileRunning_def folds
        using not_suspended comp Inr False None
        by (simp add: updateStatus_cases Let_def del: phase_string.simps)
      with fixed phase show ?thesis by simp
    next
      case True
      have pods: "reconcileRunning r env \<lparr>aw = b, stored = b\<rparr>
                    = reconcileRunningPods r env \<lparr>aw = a', stored = b\<rparr>"
        using not_suspended comp Inr True by (simp add: reconcileRunning_def Let_def)
      have pods': "reconcileRunning r env' \<lparr>aw = b, stored = b\<rparr>
                    = reconcileRunningPods r env' \<lparr>aw = a'', stored = b\<rparr>"
        using not_suspended comp' Inr True by (simp add: reconcileRunning_def Let_def)
      from fixed have "stored (fst (reconcileRunningPods r env \<lparr>aw = a', stored = b\<rparr>)) = b"
        by (simp add: pods)
      from pods_clock [OF this phase None _ _ _ _ link clockU clockW clockA]
        frame frame'
      show ?thesis
        by (simp add: pods' [unfolded env'_def])
    qed
  qed
qed

subsection \<open>Any phase at another time\<close>

text \<open>
  An object that one reconciliation leaves as it is in the store is left as it is by a
  reconciliation at any other time that lies on the same side of each of its deadlines.
\<close>

lemma deadlineOf_member:
  "FindStatusCondition (Conditions (status a)) t = Some c \<Longrightarrow>
     Time_Add (LastTransitionTime c) d \<in> set (deadlineOf a t d)"
  by (simp add: deadlineOf_def)

lemma reconcile_clock:
  assumes fixed: "persisted r env b = b"
    and clock: "\<forall>dl \<in> set (deadlines r b). Time_Before (now env) dl = Time_Before tm dl"
  shows "persisted r (env\<lparr>now := tm\<rparr>) b = b"
proof (cases "deletionRequested b")
  case True
  with fixed have "stored (fst (reconcileDeletion env \<lparr>aw = b, stored = b\<rparr>)) = b"
    by (simp add: persisted_def reconcileAppWrapper_def)
  from deletion_clock [OF this, where tm = tm] True show ?thesis
    by (simp add: persisted_def reconcileAppWrapper_def)
next
  case False
  show ?thesis
  proof (cases "Phase (status b)")
    case AppWrapperEmpty
    with fixed False show ?thesis
      by (simp add: persisted_def reconcileAppWrapper_def empty_clock)
  next
    case AppWrapperSuspended
    with fixed False
    have step: "stored (fst (reconcileSuspended env \<lparr>aw = b, stored = b\<rparr>)) = b"
      by (simp add: persisted_def reconcileAppWrapper_def)
    have "Suspend b \<or> statusUpdateError env \<noteq> None"
      using suspended_persisted [where a = b and env = env] step AppWrapperSuspended
      by (auto split: if_splits)
    then have "stored (fst (reconcileSuspended (env\<lparr>now := tm\<rparr>) \<lparr>aw = b, stored = b\<rparr>)) = b"
      using suspended_persisted [where a = b and env = "env\<lparr>now := tm\<rparr>"] by auto
    with False AppWrapperSuspended show ?thesis
      by (simp add: persisted_def reconcileAppWrapper_def)
  next
    case AppWrapperResuming
    with fixed False
    have step: "stored (fst (reconcileResuming r env \<lparr>aw = b, stored = b\<rparr>)) = b"
      by (simp add: persisted_def reconcileAppWrapper_def)
    have "statusUpdateError env \<noteq> None"
      using resuming_persisted [where a = b and env = env and r = r] step AppWrapperResuming
      by (auto split: if_splits)
    then have "stored (fst (reconcileResuming r (env\<lparr>now := tm\<rparr>) \<lparr>aw = b, stored = b\<rparr>)) = b"
      using resuming_persisted [where a = b and env = "env\<lparr>now := tm\<rparr>" and r = r] by auto
    with False AppWrapperResuming show ?thesis
      by (simp add: persisted_def reconcileAppWrapper_def)
  next
    case AppWrapperRunning
    with fixed False
    have step: "stored (fst (reconcileRunning r env \<lparr>aw = b, stored = b\<rparr>)) = b"
      by (simp add: persisted_def reconcileAppWrapper_def)
    have dl: "deadlines r b = deadlineOf b Unhealthy (failureGraceDuration r b)
               @ deadlineOf b ResourcesDeployed (warmupGraceDuration r b)
               @ deadlineOf b ResourcesDeployed (admissionGraceDuration r b)"
      using False AppWrapperRunning by (simp add: deadlines_def)
    have "stored (fst (reconcileRunning r (env\<lparr>now := tm\<rparr>) \<lparr>aw = b, stored = b\<rparr>)) = b"
      using step AppWrapperRunning
    proof (rule running_clock)
      fix c assume "FindStatusCondition (Conditions (status b)) Unhealthy = Some c"
      from deadlineOf_member [OF this, where d = "failureGraceDuration r b"] clock
      show "Time_Before (now env) (Time_Add (LastTransitionTime c) (failureGraceDuration r b))
          = Time_Before tm (Time_Add (LastTransitionTime c) (failureGraceDuration r b))"
        by (simp add: dl)
    next
      fix c assume "FindStatusCondition (Conditions (status b)) ResourcesDeployed = Some c"
      from deadlineOf_member [OF this, where d = "warmupGraceDuration r b"] clock
      show "Time_Before (now env) (Time_Add (LastTransitionTime c) (warmupGraceDuration r b))
          = Time_Before tm (Time_Add (LastTransitionTime c) (warmupGraceDuration r b))"
        by (simp add: dl)
    next
      fix c assume "FindStatusCondition (Conditions (status b)) ResourcesDeployed = Some c"
      from deadlineOf_member [OF this, where d = "admissionGraceDuration r b"] clock
      show "Time_Before (now env) (Time_Add (LastTransitionTime c) (admissionGraceDuration r b))
          = Time_Before tm (Time_Add (LastTransitionTime c) (admissionGraceDuration r b))"
        by (simp add: dl)
    qed
    with False AppWrapperRunning show ?thesis
      by (simp add: persisted_def reconcileAppWrapper_def)
  next
    case AppWrapperSuspending
    with fixed False
    have step: "stored (fst (reconcileSuspending env \<lparr>aw = b, stored = b\<rparr>)) = b"
      by (simp add: persisted_def reconcileAppWrapper_def)
    have "(IsStatusConditionTrue (Conditions (status b)) ResourcesDeployed
             \<and> \<not> deleteComponents env) \<or> statusUpdateError env \<noteq> None"
      using suspending_persisted [where a = b and env = env] step AppWrapperSuspending
      by (auto split: if_splits)
    then have "stored (fst (reconcileSuspending (env\<lparr>now := tm\<rparr>) \<lparr>aw = b, stored = b\<rparr>)) = b"
      using suspending_persisted [where a = b and env = "env\<lparr>now := tm\<rparr>"] by auto
    with False AppWrapperSuspending show ?thesis
      by (simp add: persisted_def reconcileAppWrapper_def)
  next
    case AppWrapperResetting
    with fixed False
    have step: "stored (fst (reconcileResetting r env \<lparr>aw = b, stored = b\<rparr>)) = b"
      by (simp add: persisted_def reconcileAppWrapper_def)
    have dl: "deadlines r b = deadlineOf b Unhealthy (retryPauseDuration r b)"
      using False AppWrapperResetting by (simp add: deadlines_def)
    have "stored (fst (reconcileResetting r (env\<lparr>now := tm\<rparr>) \<lparr>aw = b, stored = b\<rparr>)) = b"
      using step AppWrapperResetting
    proof (rule resetting_clock)
      fix c assume "FindStatusCondition (Conditions (status b)) Unhealthy = Some c"
      from deadlineOf_member [OF this, where d = "retryPauseDuration r b"] clock
      show "Time_Before (now env) (Time_Add (LastTransitionTime c) (retryPauseDuration r b))
          = Time_Before tm (Time_Add (LastTransitionTime c) (retryPauseDuration r b))"
        by (simp add: dl)
    qed
    with False AppWrapperResetting show ?thesis
      by (simp add: persisted_def reconcileAppWrapper_def)
  next
    case AppWrapperFailed
    with fixed False
    have step: "stored (fst (reconcileFailed r env \<lparr>aw = b, stored = b\<rparr>)) = b"
      by (simp add: persisted_def reconcileAppWrapper_def)
    have dl: "deadlines r b = deadlineOf b DeletingResources (deletionOnFailureGraceDuration r b)"
      using False AppWrapperFailed by (simp add: deadlines_def)
    have "stored (fst (reconcileFailed r (env\<lparr>now := tm\<rparr>) \<lparr>aw = b, stored = b\<rparr>)) = b"
      using step
    proof (rule failed_clock)
      fix c assume "FindStatusCondition (Conditions (status b)) DeletingResources = Some c"
      from deadlineOf_member [OF this, where d = "deletionOnFailureGraceDuration r b"] clock
      show "Time_Before (now env)
              (Time_Add (LastTransitionTime c) (deletionOnFailureGraceDuration r b))
          = Time_Before tm
              (Time_Add (LastTransitionTime c) (deletionOnFailureGraceDuration r b))"
        by (simp add: dl)
    qed
    with False AppWrapperFailed show ?thesis
      by (simp add: persisted_def reconcileAppWrapper_def)
  next
    case AppWrapperSucceeded
    with fixed False
    have step: "stored (fst (reconcileSucceeded r env \<lparr>aw = b, stored = b\<rparr>)) = b"
      by (simp add: persisted_def reconcileAppWrapper_def)
    have dl: "deadlines r b
                = deadlineOf b ResourcesDeployed (timeToLiveAfterSucceededDuration r b)"
      using False AppWrapperSucceeded by (simp add: deadlines_def)
    have "stored (fst (reconcileSucceeded r (env\<lparr>now := tm\<rparr>) \<lparr>aw = b, stored = b\<rparr>)) = b"
      using step
    proof (rule succeeded_clock)
      fix c assume "FindStatusCondition (Conditions (status b)) ResourcesDeployed = Some c"
      from deadlineOf_member [OF this, where d = "timeToLiveAfterSucceededDuration r b"] clock
      show "Time_Before (now env)
              (Time_Add (LastTransitionTime c) (timeToLiveAfterSucceededDuration r b))
          = Time_Before tm
              (Time_Add (LastTransitionTime c) (timeToLiveAfterSucceededDuration r b))"
        by (simp add: dl)
    qed
    with False AppWrapperSucceeded show ?thesis
      by (simp add: persisted_def reconcileAppWrapper_def)
  next
    case AppWrapperTerminating
    with False show ?thesis
      by (simp add: persisted_def reconcileAppWrapper_def)
  qed
qed

text \<open>
  Under the very same observations, clock included, a reconciliation that leaves the phase
  as it was has reached a fixed point of the store.
\<close>

lemma reconcile_again:
  assumes same: "Phase (status (persisted r env a)) = Phase (status a)"
  shows "persisted r env (persisted r env a) = persisted r env a"
proof -
  define a1 where "a1 = persisted r env a"
  have same1: "Phase (status a1) = Phase (status a)"
    using same by (simp add: a1_def)
  have fixed: "persisted r env a1 = a1" if "a1 = a"
    using that a1_def by simp
  have "persisted r env a1 = a1"
  proof (cases "deletionRequested a")
    case True
    then have step: "a1 = stored (fst (reconcileDeletion env \<lparr>aw = a, stored = a\<rparr>))"
      by (simp add: a1_def persisted_def reconcileAppWrapper_def)
    note again = deletion_again [OF step same1]
    then have "deletionRequested a1"
      using True deletionRequested_cong by blast
    then show ?thesis
      using again by (simp add: persisted_def reconcileAppWrapper_def)
  next
    case False
    show ?thesis
    proof (cases "Phase (status a)")
      case AppWrapperEmpty
      then have step: "a1 = stored (fst (reconcileEmpty env \<lparr>aw = a, stored = a\<rparr>))"
        using False by (simp add: a1_def persisted_def reconcileAppWrapper_def)
      note again = empty_again [OF step AppWrapperEmpty same1]
      then have "\<not> deletionRequested a1"
        using False deletionRequested_cong by blast
      then show ?thesis
        using again same1 AppWrapperEmpty
        by (simp add: persisted_def reconcileAppWrapper_def)
    next
      case AppWrapperSuspended
      then have step: "a1 = stored (fst (reconcileSuspended env \<lparr>aw = a, stored = a\<rparr>))"
        using False by (simp add: a1_def persisted_def reconcileAppWrapper_def)
      from suspended_again [OF step] same1 AppWrapperSuspended have "a1 = a"
        by auto
      then show ?thesis by (rule fixed)
    next
      case AppWrapperResuming
      then have step: "a1 = stored (fst (reconcileResuming r env \<lparr>aw = a, stored = a\<rparr>))"
        using False by (simp add: a1_def persisted_def reconcileAppWrapper_def)
      from resuming_again [OF step] same1 AppWrapperResuming have "a1 = a"
        by auto
      then show ?thesis by (rule fixed)
    next
      case AppWrapperRunning
      then have step: "a1 = stored (fst (reconcileRunning r env \<lparr>aw = a, stored = a\<rparr>))"
        using False by (simp add: a1_def persisted_def reconcileAppWrapper_def)
      note again = running_again [OF step AppWrapperRunning same1]
      then have "\<not> deletionRequested a1"
        using False deletionRequested_cong by blast
      then show ?thesis
        using again same1 AppWrapperRunning
        by (simp add: persisted_def reconcileAppWrapper_def)
    next
      case AppWrapperResetting
      then have step: "a1 = stored (fst (reconcileResetting r env \<lparr>aw = a, stored = a\<rparr>))"
        using False by (simp add: a1_def persisted_def reconcileAppWrapper_def)
      note again = resetting_again [OF step AppWrapperResetting same1]
      then have "\<not> deletionRequested a1"
        using False deletionRequested_cong by blast
      then show ?thesis
        using again same1 AppWrapperResetting
        by (simp add: persisted_def reconcileAppWrapper_def)
    next
      case AppWrapperSuspending
      then have step: "a1 = stored (fst (reconcileSuspending env \<lparr>aw = a, stored = a\<rparr>))"
        using False by (simp add: a1_def persisted_def reconcileAppWrapper_def)
      from suspending_again [OF step] same1 AppWrapperSuspending have "a1 = a"
        by auto
      then show ?thesis by (rule fixed)
    next
      case AppWrapperSucceeded
      then have step: "a1 = stored (fst (reconcileSucceeded r env \<lparr>aw = a, stored = a\<rparr>))"
        using False by (simp add: a1_def persisted_def reconcileAppWrapper_def)
      note again = succeeded_again [OF step]
      then have "\<not> deletionRequested a1"
        using False deletionRequested_cong by blast
      then show ?thesis
        using again same1 AppWrapperSucceeded
        by (simp add: persisted_def reconcileAppWrapper_def)
    next
      case AppWrapperFailed
      then have step: "a1 = stored (fst (reconcileFailed r env \<lparr>aw = a, stored = a\<rparr>))"
        using False by (simp add: a1_def persisted_def reconcileAppWrapper_def)
      note again = failed_again [OF step]
      then have "\<not> deletionRequested a1"
        using False deletionRequested_cong by blast
      then show ?thesis
        using again same1 AppWrapperFailed
        by (simp add: persisted_def reconcileAppWrapper_def)
    next
      case AppWrapperTerminating
      then have "a1 = a"
        using False by (simp add: a1_def persisted_def reconcileAppWrapper_def)
      then show ?thesis by (rule fixed)
    qed
  qed
  then show ?thesis
    by (simp add: a1_def)
qed

subsection \<open>Steps that reach the store\<close>

lemma deletionRequested_withConditions [simp]:
  "deletionRequested (withConditions a cs) = deletionRequested a"
  by (simp add: deletionRequested_def)

text \<open>Enough pods are ready: the phase stays \<open>Running\<close> and \<open>PodsReady\<close> is recorded.\<close>

lemma sufficient_pods_persisted:
  assumes "\<not> deletionRequested a" and "Phase (status a) = AppWrapperRunning"
    and "\<not> Suspend a"
    and comp: "getComponentStatus env a = (Inr s, a)"
    and "deployed s = expectedComponents s"
    and ps: "getPodStatus env = Inr ps"
    and nsucc: "\<not> (expected ps \<le>s succeeded ps \<and> pending ps + running ps + failed ps = 0)"
    and nfail: "\<not> 0 <s failed ps"
    and enough: "expected ps \<le>s running ps + succeeded ps"
    and ok: "statusUpdateError env = None"
    and healthy: "\<not> IsStatusConditionTrue (Conditions (status a)) Unhealthy"
    and pC: "pC = mkCondition PodsReady ConditionTrue ''SufficientPodsReady''
               (string_of_int32 (running ps) @ '' pods running; ''
                  @ string_of_int32 (succeeded ps) @ '' pods succeeded'')"
  shows "persisted r env a
           = withConditions a (SetStatusCondition (now env) (Conditions (status a)) pC)"
proof -
  define uC where "uC = mkCondition Unhealthy ConditionTrue ''FoundFailedPods'' []"
  define m5 where "m5 = ''FoundNoFailedPods''"
  define m6 where "m6 = ''InsufficientPodsReady''"
  define cs0 where "cs0 = SetStatusCondition (now env) (Conditions (status a)) uC"
  define cs1 where "cs1 = cleared (now env) (Conditions (status a)) Unhealthy m5 []"
  define cs2 where "cs2 = cleared (now env) cs1 PodsReady m6 (podDetailsMessage ps)"
  define graceW where "graceW = (if expected ps \<le>s pending ps + running ps + succeeded ps
                           then warmupGraceDuration r a else admissionGraceDuration r a)"
  define stay where "stay =
       (if expected ps \<le>s succeeded ps \<and> pending ps + running ps + failed ps = 0 then None
        else if 0 <s failed ps then
          (case FindStatusCondition cs0 Unhealthy of
             None \<Rightarrow> None
           | Some c \<Rightarrow>
               if Time_Before (now env)
                    (Time_Add (LastTransitionTime c) (failureGraceDuration r a))
               then Some cs0 else None)
        else if expected ps \<le>s running ps + succeeded ps then
          Some (SetStatusCondition (now env) cs1 pC)
        else
          (case FindStatusCondition cs2 ResourcesDeployed of
             None \<Rightarrow> None
           | Some c \<Rightarrow>
               if Time_Before (now env) (Time_Add (LastTransitionTime c) graceW)
               then Some cs2 else None))"
  have n: "(expected ps \<le>s succeeded ps \<and> pending ps + running ps + failed ps = 0) = False"
    using nsucc by simp
  have one: "cs1 = Conditions (status a)"
    using healthy by (simp add: cs1_def cleared_unchanged)
  have stay: "stay = Some (SetStatusCondition (now env) (Conditions (status a)) pC)"
    unfolding stay_def n one using nfail enough by simp
  note first = pods_persisted [OF ps uC_def pC cs0_def
      cs1_def [unfolded m5_def]
      cs2_def [unfolded m6_def cs1_def m5_def, folded cs1_def [unfolded m5_def]]
      graceW_def stay_def, of a, unfolded stay]
  have "reconcileAppWrapper r env a = reconcileRunningPods r env \<lparr>aw = a, stored = a\<rparr>"
    using assms(1-5) by (simp add: reconcileAppWrapper_def reconcileRunning_def Let_def)
  then show ?thesis
    using first ok by (simp add: persisted_def)
qed

text \<open>In the phase \<open>Failed\<close> with a deletion delay, the first reconciliation records the
  pause and waits.\<close>

lemma failed_pauses:
  assumes "\<not> deletionRequested a" and "Phase (status a) = AppWrapperFailed"
    and active: "\<not> Suspend a"
    and delay: "delay = deletionOnFailureGraceDuration r a"
    and positive: "0 <s delay"
    and ok: "statusUpdateError env = None"
    and fresh: "FindStatusCondition (Conditions (status a)) DeletingResources = None"
    and dC: "dC = mkCondition DeletingResources ConditionFalse ''DeletionPaused''
               (DeletionOnFailureGracePeriodAnnotation @ '' has value ''
                  @ DurationString r delay)"
  shows "persisted r env a
           = withConditions a (SetStatusCondition (now env) (Conditions (status a)) dC)"
proof -
  define rC where "rC = mkCondition ResourcesDeployed ConditionFalse
               (phase_string AppWrapperFailed)
               (if 0 <s delay \<and> Suspend a
                then ''Kueue forced resource deletion by suspending AppWrapper''
                else ''Resources deleted for failed AppWrapper'')"
  define qC where "qC = mkCondition QuotaReserved ConditionFalse
               (phase_string AppWrapperFailed) ''No resources deployed''"
  define paused where "paused = (0 <s delay \<and> \<not> Suspend a)"
  define cs1 where "cs1 = (if paused then SetStatusCondition (now env) (Conditions (status a)) dC
                     else Conditions (status a))"
  define wait where "wait = (paused \<and>
                 (case FindStatusCondition cs1 DeletingResources of
                    None \<Rightarrow> False
                  | Some c \<Rightarrow> Time_Before (now env) (Time_Add (LastTransitionTime c) delay)))"
  define cs3 where "cs3 = SetStatusCondition (now env)
                (if IsStatusConditionTrue cs1 ResourcesDeployed
                 then SetStatusCondition (now env) cs1 rC else cs1) qC"
  have types [simp]: "Type dC = DeletingResources" "LastTransitionTime dC = 0"
    by (simp_all add: dC)
  have paused: paused
    using positive active by (simp add: paused_def)
  have one: "cs1 = SetStatusCondition (now env) (Conditions (status a)) dC"
    using paused by (simp add: cs1_def)
  have "(case FindStatusCondition
               (SetStatusCondition (now env) (Conditions (status a)) dC) (Type dC) of
            None \<Rightarrow> False
          | Some e \<Rightarrow> Time_Before (now env) (Time_Add (LastTransitionTime e) delay))
        = (0 < sint delay)"
    unfolding deadline_after_Set [where c = dC, OF types(2)]
    by (simp add: fresh)
  then have wait: wait
    unfolding wait_def one types(1) [symmetric]
    using paused positive by (simp add: word_sless_alt)
  note first = failed_persisted [OF delay dC rC_def qC_def paused_def cs1_def
      wait_def cs3_def]
  have "reconcileAppWrapper r env a = reconcileFailed r env \<lparr>aw = a, stored = a\<rparr>"
    using assms(1,2) by (simp add: reconcileAppWrapper_def)
  then show ?thesis
    using first ok wait by (simp add: persisted_def one)
qed

text \<open>Once the delay has passed, the next reconciliation deletes the resources: the phase
  is still \<open>Failed\<close>, and \<open>ResourcesDeployed\<close> is no longer true.\<close>

lemma failed_cleans:
  assumes "\<not> deletionRequested a" and phase: "Phase (status a) = AppWrapperFailed"
    and ok: "statusUpdateError env = None"
    and gone: "deleteComponents env"
    and delay: "delay = deletionOnFailureGraceDuration r a"
    and dC: "dC = mkCondition DeletingResources ConditionFalse ''DeletionPaused''
               (DeletionOnFailureGracePeriodAnnotation @ '' has value ''
                  @ DurationString r delay)"
    and recorded: "agrees (Conditions (status a)) dC"
    and found: "FindStatusCondition (Conditions (status a)) DeletingResources = Some c"
    and passed: "\<not> Time_Before (now env) (Time_Add (LastTransitionTime c) delay)"
  shows "Phase (status (persisted r env a)) = AppWrapperFailed
       \<and> \<not> IsStatusConditionTrue (Conditions (status (persisted r env a))) ResourcesDeployed"
proof -
  define rC where "rC = mkCondition ResourcesDeployed ConditionFalse
               (phase_string AppWrapperFailed)
               (if 0 <s delay \<and> Suspend a
                then ''Kueue forced resource deletion by suspending AppWrapper''
                else ''Resources deleted for failed AppWrapper'')"
  define qC where "qC = mkCondition QuotaReserved ConditionFalse
               (phase_string AppWrapperFailed) ''No resources deployed''"
  define paused where "paused = (0 <s delay \<and> \<not> Suspend a)"
  define cs1 where "cs1 = (if paused then SetStatusCondition (now env) (Conditions (status a)) dC
                     else Conditions (status a))"
  define wait where "wait = (paused \<and>
                 (case FindStatusCondition cs1 DeletingResources of
                    None \<Rightarrow> False
                  | Some c \<Rightarrow> Time_Before (now env) (Time_Add (LastTransitionTime c) delay)))"
  define cs3 where "cs3 = SetStatusCondition (now env)
                (if IsStatusConditionTrue cs1 ResourcesDeployed
                 then SetStatusCondition (now env) cs1 rC else cs1) qC"
  have types [simp]: "Type rC = ResourcesDeployed" "Type qC = QuotaReserved"
    "Status rC = ConditionFalse" "Status qC = ConditionFalse"
    by (simp_all add: rC_def qC_def del: phase_string.simps)
  have one: "cs1 = Conditions (status a)"
    using recorded by (simp add: cs1_def Set_agrees)
  have wait: "\<not> wait"
    unfolding wait_def one found using passed by simp
  have clean: "\<not> IsStatusConditionTrue cs3 ResourcesDeployed"
    by (simp add: cs3_def)
  note first = failed_persisted [OF delay dC rC_def qC_def paused_def cs1_def
      wait_def cs3_def]
  have "reconcileAppWrapper r env a = reconcileFailed r env \<lparr>aw = a, stored = a\<rparr>"
    using assms(1,2) by (simp add: reconcileAppWrapper_def)
  then have "persisted r env a = withConditions a cs3"
    using first ok wait gone by (simp add: persisted_def)
  then show ?thesis
    using clean phase by simp
qed

subsection \<open>The examples\<close>

lemma example_resumed_healthy:
  "FindStatusCondition example_resumed Unhealthy =
     Some \<lparr>Type = Unhealthy, Status = ConditionFalse, ObservedGeneration = 0,
           LastTransitionTime = 990000000000,
           Reason = ''Resuming'', Message = ''Suspend is false''\<rparr>"
  "FindStatusCondition example_resumed PodsReady =
     Some \<lparr>Type = PodsReady, Status = ConditionFalse, ObservedGeneration = 0,
           LastTransitionTime = 990000000000,
           Reason = ''Resuming'', Message = ''Suspend is false''\<rparr>"
  "FindStatusCondition example_resumed DeletingResources = None"
  by (simp_all add: example_resumed_def)

lemma example_running_pod:
  "getPodStatus (example_env\<lparr>listPods := Inr [PodRunning]\<rparr>) =
     Inr \<lparr>expected = 1, pending = 0, running = 1, succeeded = 0, failed = 0\<rparr>"
  by (simp add: getPodStatus_def)

lemma example_graces:
  "failureGraceDuration example_reconciler (example_in phase n cs) = 60 * Second"
  "admissionGraceDuration example_reconciler (example_in phase n cs) = 60 * Second"
  by (simp_all add: failureGraceDuration_def admissionGraceDuration_def
        example_config_fields example_limits)

text \<open>The example workload, failed for good, whose resources are to stay for 30 seconds.\<close>

lemma example_delay:
  "deletionOnFailureGraceDuration example_reconciler
     ((example_in AppWrapperFailed 3 example_resumed)
        \<lparr>Annotations := [DeletionOnFailureGracePeriodAnnotation \<mapsto> ''30s'']\<rparr>)
     = 30000000000"
  by (simp add: deletionOnFailureGraceDuration_def example_reconciler_def example_config_def
        limitDuration_def Second_def word_sless_alt)




end
